(* ===== verification/PM_Prelude.thy ===== *)
theory PM_Prelude
  imports Main "HOL-Library.Word" "HOL-Library.Sublist"
begin

text \<open>
  Shared vocabulary of the development.

  Go strings are byte strings, so they are modelled as \<^typ>\<open>string\<close> with one
  \<^typ>\<open>char\<close> per byte. The operations of the packages \<open>strings\<close>, \<open>fmt\<close> and
  \<open>encoding/hex\<close> that the server uses are defined here once, with the facts the component
  theories share. Machine integers are words (\<open>u8\<close>, \<open>u32\<close>, \<open>u64\<close>), so that Go's
  wrap-around is the wrap-around of the model.

  The collection \<open>go_simps\<close> gathers the rewrite rules for these operations.
\<close>

named_theorems go_simps \<open>rewrite rules for the operations of Go's standard library\<close>

unbundle bit_operations_syntax

type_synonym u8 = "8 word"
type_synonym u16 = "16 word"
type_synonym u32 = "32 word"
type_synonym u64 = "64 word"

section \<open>Package strings\<close>

definition HasPrefix :: "string \<Rightarrow> string \<Rightarrow> bool" where
  "HasPrefix s p \<longleftrightarrow> prefix p s"

definition TrimPrefix :: "string \<Rightarrow> string \<Rightarrow> string" where
  "TrimPrefix s p = (if HasPrefix s p then drop (length p) s else s)"

lemma HasPrefix_append [simp, go_simps]: "HasPrefix (p @ s) p"
  by (simp add: HasPrefix_def)

lemma TrimPrefix_append [simp, go_simps]: "TrimPrefix (p @ s) p = s"
  by (simp add: TrimPrefix_def)

lemma HasPrefix_split: "HasPrefix s p \<Longrightarrow> s = p @ TrimPrefix s p"
  by (auto simp: HasPrefix_def TrimPrefix_def prefix_def)

text \<open>\<open>strings.Split\<close> for a one-byte separator; the result is never empty.\<close>

fun Split :: "string \<Rightarrow> char \<Rightarrow> string list" where
  "Split [] c = [[]]"
| "Split (x # xs) c =
     (if x = c then [] # Split xs c
      else (case Split xs c of [] \<Rightarrow> [[x]] | y # ys \<Rightarrow> (x # y) # ys))"

lemma Split_not_Nil [simp]: "Split s c \<noteq> []"
  by (induction s) (auto split: list.splits)

lemma Split_no_sep [simp, go_simps]: "c \<notin> set s \<Longrightarrow> Split s c = [s]"
  by (induction s) auto

lemma Split_append [go_simps]: "c \<notin> set a \<Longrightarrow> Split (a @ c # b) c = a # Split b c"
  by (induction a) auto

lemma Split_join: "Split s c = p # ps \<Longrightarrow> s = p @ concat (map (\<lambda>q. c # q) ps)"
proof (induction s arbitrary: p ps)
  case (Cons x s)
  obtain q qs where q: "Split s c = q # qs" by (cases "Split s c") auto
  then have e: "s = q @ concat (map (\<lambda>q. c # q) qs)" by (rule Cons.IH)
  from Cons.prems q have "(x = c \<and> p = [] \<and> ps = q # qs) \<or> (x \<noteq> c \<and> p = x # q \<and> ps = qs)"
    by (auto split: if_splits)
  with e show ?case by auto
qed simp

lemma Split_elem_no_sep: "p \<in> set (Split s c) \<Longrightarrow> c \<notin> set p"
  by (induction s arbitrary: p) (auto split: if_splits list.splits)

text \<open>
  \<open>strings.LastIndex\<close> for a one-byte pattern: what precedes its last occurrence, or
  \<^const>\<open>None\<close> for the result \<open>-1\<close>.
\<close>

fun before_last :: "string \<Rightarrow> char \<Rightarrow> string option" where
  "before_last [] c = None"
| "before_last (x # xs) c =
     (case before_last xs c of
        Some p \<Rightarrow> Some (x # p)
      | None \<Rightarrow> if x = c then Some [] else None)"

lemma before_last_None: "before_last s c = None \<longleftrightarrow> c \<notin> set s"
  by (induction s) (auto split: option.splits)

lemma before_last_append [go_simps]: "c \<notin> set b \<Longrightarrow> before_last (a @ c # b) c = Some a"
proof (induction a)
  case Nil
  then have "before_last b c = None" by (simp add: before_last_None)
  then show ?case by simp
qed simp

text \<open>
  \<open>strings.TrimSpace\<close>: the UTF-8 encodings of the code points of \<open>unicode.IsSpace\<close> are
  removed at both ends.
\<close>

definition space_encodings :: "string list" where
  "space_encodings =
     map (\<lambda>n. [char_of (n :: nat)]) [9, 10, 11, 12, 13, 32]
     @ map (\<lambda>n. [char_of (194 :: nat), char_of (n :: nat)]) [133, 160]
     @ [map char_of [225 :: nat, 154, 128]]
     @ map (\<lambda>n. map char_of [226 :: nat, 128, n]) ([128..<139] @ [168, 169, 175])
     @ [map char_of [226 :: nat, 129, 159], map char_of [227 :: nat, 128, 128]]"

definition leading_space :: "string \<Rightarrow> nat" where
  "leading_space s =
     (case filter (\<lambda>p. prefix p s) space_encodings of [] \<Rightarrow> 0 | p # _ \<Rightarrow> length p)"

function TrimLeftSpace :: "string \<Rightarrow> string" where
  "TrimLeftSpace s =
     (if s \<noteq> [] \<and> 0 < leading_space s then TrimLeftSpace (drop (leading_space s) s) else s)"
  by pat_completeness auto
termination
  by (relation "measure length") auto

definition trailing_space :: "string \<Rightarrow> nat" where
  "trailing_space s =
     (case filter (\<lambda>p. suffix p s) space_encodings of [] \<Rightarrow> 0 | p # _ \<Rightarrow> length p)"

function TrimRightSpace :: "string \<Rightarrow> string" where
  "TrimRightSpace s =
     (if s \<noteq> [] \<and> 0 < trailing_space s
      then TrimRightSpace (take (length s - trailing_space s) s) else s)"
  by pat_completeness auto
termination
  by (relation "measure length") auto

declare TrimLeftSpace.simps [simp del] TrimRightSpace.simps [simp del]

definition TrimSpace :: "string \<Rightarrow> string" where
  "TrimSpace s = TrimRightSpace (TrimLeftSpace s)"

lemma length_TrimLeftSpace: "length (TrimLeftSpace s) \<le> length s"
proof (induction s rule: TrimLeftSpace.induct)
  case (1 s)
  then show ?case by (subst TrimLeftSpace.simps) (auto dest: order_trans)
qed

lemma length_TrimRightSpace: "length (TrimRightSpace s) \<le> length s"
proof (induction s rule: TrimRightSpace.induct)
  case (1 s)
  then show ?case by (subst TrimRightSpace.simps) (auto dest: order_trans)
qed

lemma length_TrimSpace: "length (TrimSpace s) \<le> length s"
  by (metis TrimSpace_def length_TrimLeftSpace length_TrimRightSpace order_trans)

text \<open>
  \<open>strings.ToLower\<close> on ASCII letters; the bytes of other characters are left as they are.
\<close>

definition lower_char :: "char \<Rightarrow> char" where
  "lower_char c =
     (let n = (of_char c :: nat) in if 65 \<le> n \<and> n \<le> 90 then char_of (n + 32) else c)"

definition ToLower :: "string \<Rightarrow> string" where
  "ToLower s = map lower_char s"

definition is_digit :: "char \<Rightarrow> bool" where
  "is_digit c \<longleftrightarrow> 48 \<le> (of_char c :: nat) \<and> (of_char c :: nat) \<le> 57"

definition digit_val :: "char \<Rightarrow> nat" where
  "digit_val c = of_char c - 48"

definition digit_char :: "nat \<Rightarrow> char" where
  "digit_char n = char_of (48 + n)"

lemma digit_val_digit_char [simp]: "n < 10 \<Longrightarrow> digit_val (digit_char n) = n"
  by (simp add: digit_val_def digit_char_def)

lemma is_digit_digit_char [simp]: "n < 10 \<Longrightarrow> is_digit (digit_char n)"
  by (simp add: is_digit_def digit_char_def)

lemma digit_char_0 [simp]: "digit_char 0 = CHR ''0''"
  by code_simp

lemma is_digit_not_slash: "is_digit c \<Longrightarrow> c \<noteq> CHR ''/''"
  by (auto simp: is_digit_def)

section \<open>Decimal numbers\<close>

text \<open>\<open>fmt.Sprintf("%d", n)\<close> for a non-negative number.\<close>

function dec :: "nat \<Rightarrow> string" where
  "dec n = (if n < 10 then [digit_char n] else dec (n div 10) @ [digit_char (n mod 10)])"
  by pat_completeness auto
termination
  by (relation "measure id") auto

declare dec.simps [simp del]

definition undec :: "string \<Rightarrow> nat" where
  "undec s = foldl (\<lambda>a c. 10 * a + digit_val c) 0 s"

lemma dec_not_Nil [simp]: "dec n \<noteq> []"
  by (subst dec.simps) simp

lemma undec_snoc: "undec (s @ [c]) = 10 * undec s + digit_val c"
  by (simp add: undec_def)

lemma undec_dec [simp]: "undec (dec n) = n"
proof (induction n rule: dec.induct)
  case (1 n)
  show ?case
  proof (cases "n < 10")
    case True
    then show ?thesis by (simp add: dec.simps [of n] undec_def)
  next
    case False
    with 1 have "undec (dec n) = 10 * (n div 10) + n mod 10"
      by (simp add: dec.simps [of n] undec_snoc)
    then show ?thesis by simp
  qed
qed

lemma dec_inject [simp]: "dec m = dec n \<longleftrightarrow> m = n"
  by (metis undec_dec)

text \<open>The same for a signed number.\<close>

definition dec_int :: "int \<Rightarrow> string" where
  "dec_int i = (if i < 0 then ''-'' @ dec (nat (- i)) else dec (nat i))"

lemma dec_digits: "c \<in> set (dec n) \<Longrightarrow> is_digit c"
proof (induction n rule: dec.induct)
  case (1 n)
  then show ?case by (cases "n < 10") (auto simp: dec.simps [of n])
qed

lemma dec_length: "0 < k \<Longrightarrow> n < 10 ^ k \<Longrightarrow> length (dec n) \<le> k"
proof (induction n arbitrary: k rule: dec.induct)
  case (1 n)
  show ?case
  proof (cases "n < 10")
    case True
    with 1 show ?thesis by (simp add: dec.simps [of n])
  next
    case False
    with 1(3) obtain k' where k: "k = Suc k'" and "0 < k'"
      by (cases k; cases "k - 1") auto
    with False 1(3) have "n div 10 < 10 ^ k'"
      by (simp add: less_mult_imp_div_less mult.commute)
    with 1(1) False \<open>0 < k'\<close> have "length (dec (n div 10)) \<le> k'" by blast
    with False k show ?thesis by (simp add: dec.simps [of n])
  qed
qed

text \<open>Zero-padding on the left to a minimal width, as \<open>time\<close>'s \<open>appendInt\<close> does.\<close>

definition pad0 :: "nat \<Rightarrow> string \<Rightarrow> string" where
  "pad0 w s = replicate (w - length s) (CHR ''0'') @ s"

lemma set_pad0: "set (pad0 w s) \<subseteq> insert (CHR ''0'') (set s)"
  by (auto simp: pad0_def)

lemma undec_zeros: "undec (replicate k (CHR ''0'') @ s) = undec s"
proof -
  have "foldl (\<lambda>a c. 10 * a + digit_val c) 0 (replicate k (CHR ''0'')) = 0"
    by (induction k) (auto simp: digit_val_def)
  then show ?thesis by (simp add: undec_def)
qed

lemma undec_pad0_dec [simp]: "undec (pad0 w (dec n)) = n"
  by (simp add: pad0_def undec_zeros)

lemma pad0_dec_inject [simp]: "pad0 w (dec m) = pad0 w (dec n) \<longleftrightarrow> m = n"
  by (metis undec_pad0_dec)

lemma slash_pad0_dec [simp]: "CHR ''/'' \<notin> set (pad0 w (dec n))"
  using set_pad0 [of w "dec n"] dec_digits is_digit_not_slash by fastforce

lemma slash_dec [simp]: "CHR ''/'' \<notin> set (dec n)"
  using dec_digits is_digit_not_slash by blast

section \<open>Package encoding/hex\<close>

definition hex_digit :: "nat \<Rightarrow> char" where
  "hex_digit n = (if n < 10 then char_of (48 + n) else char_of (87 + n))"

definition hex_byte :: "u8 \<Rightarrow> string" where
  "hex_byte b = [hex_digit (unat b div 16), hex_digit (unat b mod 16)]"

definition EncodeToString :: "u8 list \<Rightarrow> string" where
  "EncodeToString bs = concat (map hex_byte bs)"

definition is_lower_hex :: "char \<Rightarrow> bool" where
  "is_lower_hex c \<longleftrightarrow>
     is_digit c \<or> (97 \<le> (of_char c :: nat) \<and> (of_char c :: nat) \<le> 102)"

lemma is_lower_hex_hex_digit [simp]: "n < 16 \<Longrightarrow> is_lower_hex (hex_digit n)"
  by (auto simp: is_lower_hex_def hex_digit_def is_digit_def)

lemma unat_u8_less: "unat (b :: u8) < 256"
proof -
  have "unat b < 2 ^ LENGTH(8)" by (rule unsigned_less)
  then show ?thesis by simp
qed

lemma hex_byte_lower: "c \<in> set (hex_byte b) \<Longrightarrow> is_lower_hex c"
  using unat_u8_less [of b] by (auto simp: hex_byte_def intro!: is_lower_hex_hex_digit)

lemma length_hex_byte [simp]: "length (hex_byte b) = 2"
  by (simp add: hex_byte_def)

lemma length_EncodeToString [simp, go_simps]: "length (EncodeToString bs) = 2 * length bs"
  by (induction bs) (auto simp: EncodeToString_def)

lemma EncodeToString_lower: "c \<in> set (EncodeToString bs) \<Longrightarrow> is_lower_hex c"
  by (auto simp: EncodeToString_def dest: hex_byte_lower)

lemma EncodeToString_Cons: "EncodeToString (b # bs) = hex_byte b @ EncodeToString bs"
  by (simp add: EncodeToString_def)

lemma EncodeToString_append: "EncodeToString (a @ b) = EncodeToString a @ EncodeToString b"
  by (simp add: EncodeToString_def)

lemma nth_EncodeToString:
  "i < length bs \<Longrightarrow> EncodeToString bs ! (2 * i) = hex_digit (unat (bs ! i) div 16)"
  "i < length bs \<Longrightarrow> EncodeToString bs ! (2 * i + 1) = hex_digit (unat (bs ! i) mod 16)"
proof (induction bs arbitrary: i)
  case (Cons b bs)
  {
    case 1
    with Cons.IH(1) [of "i - 1"] show ?case
      by (cases i) (auto simp: EncodeToString_Cons hex_byte_def)
  next
    case 2
    with Cons.IH(2) [of "i - 1"] show ?case
      by (cases i) (auto simp: EncodeToString_Cons hex_byte_def)
  }
qed simp_all

definition hex_val :: "char \<Rightarrow> nat" where
  "hex_val c = (if is_digit c then of_char c - 48 else of_char c - 87)"

lemma hex_val_hex_digit [simp]: "n < 16 \<Longrightarrow> hex_val (hex_digit n) = n"
  by (auto simp: hex_val_def hex_digit_def is_digit_def)

lemma hex_byte_inject [simp]: "hex_byte a = hex_byte b \<longleftrightarrow> a = b"
proof
  assume eq: "hex_byte a = hex_byte b"
  have lt: "unat c div 16 < 16" "unat c mod 16 < 16" for c :: u8
    using unat_u8_less [of c] by auto
  from eq have "hex_val (hex_digit (unat a div 16)) = hex_val (hex_digit (unat b div 16))"
    and "hex_val (hex_digit (unat a mod 16)) = hex_val (hex_digit (unat b mod 16))"
    by (auto simp: hex_byte_def)
  with lt [of a] lt [of b] have "unat a div 16 = unat b div 16" "unat a mod 16 = unat b mod 16"
    by auto
  then have "unat a = unat b" by (metis div_mult_mod_eq)
  then show "a = b" by (simp add: word_unat_eq_iff)
qed simp

lemma EncodeToString_inject [simp]: "EncodeToString a = EncodeToString b \<longleftrightarrow> a = b"
proof
  show "EncodeToString a = EncodeToString b \<Longrightarrow> a = b"
  proof (induction a arbitrary: b)
    case Nil
    then show ?case by (cases b) (auto simp: EncodeToString_def hex_byte_def)
  next
    case (Cons x a)
    then obtain y b' where b: "b = y # b'"
      by (cases b) (auto simp: EncodeToString_def hex_byte_def)
    with Cons.prems have "hex_byte x @ EncodeToString a = hex_byte y @ EncodeToString b'"
      by (simp add: EncodeToString_Cons)
    then have "hex_byte x = hex_byte y" "EncodeToString a = EncodeToString b'"
      by (auto simp: append_eq_append_conv)
    with Cons.IH b show ?case by simp
  qed
qed simp

section \<open>Bytes of a string\<close>

definition bytes_of :: "string \<Rightarrow> u8 list" where
  "bytes_of s = map (\<lambda>c. word_of_nat (of_char c)) s"

definition string_of :: "u8 list \<Rightarrow> string" where
  "string_of bs = map (\<lambda>b. char_of (unat b)) bs"

lemma string_of_bytes_of [simp]: "string_of (bytes_of s) = s"
proof -
  have "char_of (unat (word_of_nat (of_char c) :: u8)) = c" for c :: char
    using of_char_of by (simp add: unat_of_nat)
  then show ?thesis by (simp add: string_of_def bytes_of_def o_def)
qed

lemma length_bytes_of [simp]: "length (bytes_of s) = length s"
  by (simp add: bytes_of_def)

section \<open>Lists and separators\<close>

lemma append_sep_inject:
  assumes "c \<notin> set a" "c \<notin> set a'"
  shows "a @ c # b = a' @ c # b' \<longleftrightarrow> a = a' \<and> b = b'"
  using assms
proof (induction a arbitrary: a')
  case Nil
  then show ?case by (cases a') auto
next
  case (Cons x a)
  then show ?case by (cases a') auto
qed

section \<open>Searching a list\<close>

lemma find_key: "x \<in> f ` set xs \<Longrightarrow> \<exists>y. find (\<lambda>z. f z = x) xs = Some y \<and> f y = x"
  by (induction xs) auto

lemma find_append_Some: "find P xs = Some x \<Longrightarrow> find P (xs @ ys) = Some x"
  by (induction xs) auto

lemma find_append_None: "find P xs = None \<Longrightarrow> find P (xs @ ys) = find P ys"
  by (induction xs) auto

end
