(* ===== verification/Go_Time.thy ===== *)
theory Go_Time
  imports PM_Prelude
begin

text \<open>
  The part of Go's package \<open>time\<close> that the server relies on: instants with a zone offset,
  the proleptic Gregorian calendar, \<open>Format\<close> for the layouts \<open>2006\<close>, \<open>01\<close>, \<open>02\<close>, and
  \<open>time.Parse(time.RFC3339Nano, s)\<close>.

  A time is its number of nanoseconds since the Unix epoch and the offset of its location
  from UTC in seconds. \<open>time.Duration\<close> is its number of nanoseconds.
\<close>

record gotime =
  t_ns :: int
  t_off :: int

abbreviation second :: int where "second \<equiv> 1000000000"
abbreviation minute :: int where "minute \<equiv> 60 * second"
abbreviation hour :: int where "hour \<equiv> 60 * minute"

definition After :: "gotime \<Rightarrow> gotime \<Rightarrow> bool" where
  "After t u \<longleftrightarrow> t_ns u < t_ns t"

definition Add :: "gotime \<Rightarrow> int \<Rightarrow> gotime" where
  "Add t d = t\<lparr>t_ns := t_ns t + d\<rparr>"

definition Unix :: "gotime \<Rightarrow> int" where
  "Unix t = t_ns t div second"

text \<open>The difference of two times saturates at the range of \<open>int64\<close>.\<close>

definition Sub :: "gotime \<Rightarrow> gotime \<Rightarrow> int" where
  "Sub t u = max (- (2 ^ 63)) (min (2 ^ 63 - 1) (t_ns t - t_ns u))"

text \<open>\<open>IsZero\<close>: January 1, year 1, 00:00:00 UTC, the zero value of \<open>time.Time\<close>.\<close>

definition zero_time :: gotime where
  "zero_time = \<lparr>t_ns = - 62135596800 * second, t_off = 0\<rparr>"

definition IsZero :: "gotime \<Rightarrow> bool" where
  "IsZero t \<longleftrightarrow> t_ns t = t_ns zero_time"

lemma After_Add [go_simps]: "After t (Add u d) \<longleftrightarrow> t_ns u + d < t_ns t"
  by (simp add: After_def Add_def)

section \<open>The calendar\<close>

definition leap_year :: "int \<Rightarrow> bool" where
  "leap_year y \<longleftrightarrow> y mod 4 = 0 \<and> (y mod 100 \<noteq> 0 \<or> y mod 400 = 0)"

definition days_in :: "int \<Rightarrow> int \<Rightarrow> int" where
  "days_in m y =
     (if m = 2 then (if leap_year y then 29 else 28)
      else if m \<in> {4, 6, 9, 11} then 30 else 31)"

text \<open>Days from 1970-01-01 to a civil date and back, counting years from March.\<close>

definition days_from_civil :: "int \<Rightarrow> int \<Rightarrow> int \<Rightarrow> int" where
  "days_from_civil y m d =
     (let y' = (if m \<le> 2 then y - 1 else y);
          era = y' div 400;
          yoe = y' mod 400;
          doy = (153 * ((m + 9) mod 12) + 2) div 5 + d - 1;
          doe = yoe * 365 + yoe div 4 - yoe div 100 + doy
      in era * 146097 + doe - 719468)"

definition civil_from_days :: "int \<Rightarrow> int \<times> int \<times> int" where
  "civil_from_days z0 =
     (let z = z0 + 719468;
          era = z div 146097;
          doe = z mod 146097;
          yoe = (doe - doe div 1460 + doe div 36524 - doe div 146096) div 365;
          doy = doe - (365 * yoe + yoe div 4 - yoe div 100);
          mp = (5 * doy + 2) div 153;
          d = doy - (153 * mp + 2) div 5 + 1;
          m = (if mp < 10 then mp + 3 else mp - 9);
          y = yoe + era * 400
      in (if m \<le> 2 then y + 1 else y, m, d))"

definition local_day :: "gotime \<Rightarrow> int" where
  "local_day t = (t_ns t div second + t_off t) div 86400"

definition civil :: "gotime \<Rightarrow> int \<times> int \<times> int" where
  "civil t = civil_from_days (local_day t)"

text \<open>\<open>Format\<close> pads the year to four digits and puts the sign first.\<close>

definition Format_year :: "gotime \<Rightarrow> string" where
  "Format_year t =
     (let y = fst (civil t)
      in (if y < 0 then ''-'' else []) @ pad0 4 (dec (nat \<bar>y\<bar>)))"

definition Format_month :: "gotime \<Rightarrow> string" where
  "Format_month t = pad0 2 (dec (nat (fst (snd (civil t)))))"

definition Format_day :: "gotime \<Rightarrow> string" where
  "Format_day t = pad0 2 (dec (nat (snd (snd (civil t)))))"

lemma slash_Format [simp]:
  "CHR ''/'' \<notin> set (Format_year t)"
  "CHR ''/'' \<notin> set (Format_month t)"
  "CHR ''/'' \<notin> set (Format_day t)"
  by (auto simp: Format_year_def Format_month_def Format_day_def Let_def)

text \<open>The layouts \<open>2006-01-02T15:04:05Z\<close> (with a literal \<open>Z\<close>) and \<open>time.RFC3339\<close>.\<close>

definition two_digits :: "int \<Rightarrow> string" where
  "two_digits n = pad0 2 (dec (nat n))"

definition Format_clock :: "gotime \<Rightarrow> string" where
  "Format_clock t =
     (let s = (t_ns t div second + t_off t) mod 86400
      in Format_year t @ ''-'' @ Format_month t @ ''-'' @ Format_day t @ ''T''
         @ two_digits (s div 3600) @ '':'' @ two_digits (s mod 3600 div 60) @ '':'' @ two_digits (s mod 60))"

definition Format_literal_Z :: "gotime \<Rightarrow> string" where
  "Format_literal_Z t = Format_clock t @ ''Z''"

definition Format_zone :: "gotime \<Rightarrow> string" where
  "Format_zone t =
     (if t_off t = 0 then ''Z''
      else let z = \<bar>t_off t\<bar> div 60
           in (if t_off t < 0 \<and> 0 < z then ''-'' else ''+'')
              @ two_digits (z div 60) @ '':'' @ two_digits (z mod 60))"

definition Format_RFC3339 :: "gotime \<Rightarrow> string" where
  "Format_RFC3339 t = Format_clock t @ Format_zone t"

section \<open>Time zones\<close>

text \<open>
  \<open>LoadLocation\<close>: the zone database of the host gives for a name the offset from UTC at every
  instant; the empty name and \<open>UTC\<close> are UTC everywhere.
\<close>

type_synonym tzdb = "string \<Rightarrow> (int \<Rightarrow> int) option"

definition LoadLocation :: "tzdb \<Rightarrow> string \<Rightarrow> (int \<Rightarrow> int) option" where
  "LoadLocation db name = (if name = [] \<or> name = ''UTC'' then Some (\<lambda>_. 0) else db name)"

definition In_location :: "gotime \<Rightarrow> (int \<Rightarrow> int) \<Rightarrow> gotime" where
  "In_location t loc = t\<lparr>t_off := loc (t_ns t)\<rparr>"

text \<open>Integer division of a duration by a positive number truncates towards zero.\<close>

definition quot :: "int \<Rightarrow> int \<Rightarrow> int" where
  "quot d k = sgn d * (\<bar>d\<bar> div k)"

section \<open>Parsing RFC 3339\<close>

text \<open>
  \<open>time.Parse\<close> walks over the layout \<open>2006-01-02T15:04:05.999999999Z07:00\<close> (\<open>time.RFC3339\<close> differs
  only when formatting: parsing accepts a fraction in any case). A scanner takes
  the rest of the input and returns a value with what is left of it, or \<^const>\<open>None\<close> for an
  error. The hour may have one digit (\<open>getnum\<close> with \<open>fixed\<close> false), the fraction may follow
  a comma and have any number of digits, of which nine count.
\<close>

type_synonym 'a scanner = "string \<Rightarrow> ('a \<times> string) option"

definition scan_digits :: "nat \<Rightarrow> int scanner" where
  "scan_digits n s =
     (if n \<le> length s \<and> list_all is_digit (take n s)
      then Some (int (undec (take n s)), drop n s) else None)"

definition scan_char :: "char \<Rightarrow> unit scanner" where
  "scan_char c s = (case s of x # xs \<Rightarrow> if x = c then Some ((), xs) else None | [] \<Rightarrow> None)"

definition scan_hour :: "int scanner" where
  "scan_hour s =
     (case s of
        a # b # r \<Rightarrow>
          if \<not> is_digit a then None
          else if is_digit b then Some (int (10 * digit_val a + digit_val b), r)
          else Some (int (digit_val a), b # r)
      | [a] \<Rightarrow> if is_digit a then Some (int (digit_val a), []) else None
      | [] \<Rightarrow> None)"

definition scan_frac :: "int scanner" where
  "scan_frac s =
     (case s of
        p # x # r \<Rightarrow>
          if (p = CHR ''.'' \<or> p = CHR '','') \<and> is_digit x
          then (let ds = takeWhile is_digit (x # r); k = take 9 ds
                in Some (int (undec (k @ replicate (9 - length k) (CHR ''0''))),
                         dropWhile is_digit (x # r)))
          else Some (0, s)
      | _ \<Rightarrow> Some (0, s))"

definition scan_zone :: "int scanner" where
  "scan_zone s =
     (case s of
        [] \<Rightarrow> None
      | c # r \<Rightarrow>
          if c = CHR ''Z'' then Some (0, r)
          else if length s < 6 \<or> s ! 3 \<noteq> CHR '':'' then None
          else (case (scan_digits 2 (take 2 r), scan_digits 2 (take 2 (drop 3 r))) of
                  (Some (hr, _), Some (mm, _)) \<Rightarrow>
                    if 24 < hr \<or> 60 < mm then None
                    else if c = CHR ''+'' then Some ((hr * 60 + mm) * 60, drop 5 r)
                    else if c = CHR ''-'' then Some (- ((hr * 60 + mm) * 60), drop 5 r)
                    else None
                | _ \<Rightarrow> None))"

definition then_scan :: "('a \<times> string) option \<Rightarrow> ('a \<Rightarrow> 'b scanner) \<Rightarrow> ('b \<times> string) option" where
  "then_scan r f = (case r of None \<Rightarrow> None | Some (x, rest) \<Rightarrow> f x rest)"

definition parse_RFC3339Nano :: "string \<Rightarrow> gotime option" where
  "parse_RFC3339Nano s =
     (case
        then_scan (scan_digits 4 s) (\<lambda>y r.
        then_scan (scan_char (CHR ''-'') r) (\<lambda>_ r.
        then_scan (scan_digits 2 r) (\<lambda>mo r.
        then_scan (scan_char (CHR ''-'') r) (\<lambda>_ r.
        then_scan (scan_digits 2 r) (\<lambda>d r.
        then_scan (scan_char (CHR ''T'') r) (\<lambda>_ r.
        then_scan (scan_hour r) (\<lambda>h r.
        then_scan (scan_char (CHR '':'') r) (\<lambda>_ r.
        then_scan (scan_digits 2 r) (\<lambda>mi r.
        then_scan (scan_char (CHR '':'') r) (\<lambda>_ r.
        then_scan (scan_digits 2 r) (\<lambda>sec r.
        then_scan (scan_frac r) (\<lambda>ns r.
        then_scan (scan_zone r) (\<lambda>off r.
          if mo < 1 \<or> 12 < mo \<or> 24 \<le> h \<or> 60 \<le> mi \<or> 60 \<le> sec
             \<or> d < 1 \<or> days_in mo y < d then None
          else Some (\<lparr>t_ns = ((days_from_civil y mo d * 86400 + h * 3600 + mi * 60 + sec) - off)
                             * second + ns, t_off = off\<rparr>, r))))))))))))))
      of None \<Rightarrow> None | Some (t, rest) \<Rightarrow> if rest = [] then Some t else None)"

lemma parse_RFC3339Nano_Nil: "parse_RFC3339Nano [] = None"
  by (simp add: parse_RFC3339Nano_def scan_digits_def then_scan_def)

end
