(* ===== verification/Go_Float.thy ===== *)
theory Go_Float
  imports Complex_Main PM_Prelude "HOL-Library.Log_Nat"
begin

text \<open>
  Go's \<open>float64\<close> arithmetic on finite values. A finite \<open>float64\<close> is a rational number, and
  IEEE 754 defines each operation as the exact result rounded to the nearest representable
  number, ties to even. \<open>fl\<close> is that rounding: 53 significant bits, subnormal numbers down
  to \<open>2 powi -1074\<close>. Every operation of the code is one rounding here, in the code's order,
  so a sum that rounds twice in Go rounds twice in the model. Overflow to infinity and NaN
  are outside the type: the code that is modelled divides only after a test for zero, and its
  magnitudes (prices times 32-bit token counts) stay far below \<open>2 powi 1024\<close>.
\<close>

type_synonym f64 = rat

named_theorems f64_facts \<open>signs, bounds and monotonicity of float64 operations\<close>

section \<open>Rounding to an integer, ties to even\<close>

definition rne :: "rat \<Rightarrow> int" where
  "rne y =
     (let f = \<lfloor>y\<rfloor>; d = y - of_int f
      in if d < 1 / 2 then f else if 1 / 2 < d then f + 1 else if even f then f else f + 1)"

lemma rne_of_int [simp]: "rne (of_int k) = k"
  by (simp add: rne_def)

lemma rne_bounds: "\<lfloor>y\<rfloor> \<le> rne y" "rne y \<le> \<lfloor>y\<rfloor> + 1"
  by (auto simp: rne_def Let_def)

lemma rne_mono: "x \<le> y \<Longrightarrow> rne x \<le> rne y"
proof (cases "\<lfloor>x\<rfloor> = \<lfloor>y\<rfloor>")
  case True
  assume "x \<le> y"
  with True show ?thesis by (auto simp: rne_def Let_def)
next
  case False
  assume "x \<le> y"
  with False have "\<lfloor>x\<rfloor> + 1 \<le> \<lfloor>y\<rfloor>" using floor_mono [of x y] by linarith
  then show ?thesis using rne_bounds [of x] rne_bounds [of y] by linarith
qed

lemma rne_0 [simp]: "rne 0 = 0"
  using rne_of_int [of 0] by simp

lemma rne_le_int: "y \<le> of_int k \<Longrightarrow> rne y \<le> k"
  using rne_mono [of y "of_int k"] by simp

lemma rne_ge_int: "of_int k \<le> y \<Longrightarrow> k \<le> rne y"
  using rne_mono [of "of_int k" y] by simp

lemma rne_error: "\<bar>of_int (rne y) - y\<bar> \<le> 1 / 2"
proof -
  have "of_int \<lfloor>y\<rfloor> \<le> y" "y < of_int \<lfloor>y\<rfloor> + 1"
    using of_int_floor_le [of y] floor_correct [of y] by simp_all
  then show ?thesis by (auto simp: rne_def Let_def abs_le_iff)
qed

section \<open>The exponent of a positive number\<close>

definition elog :: "rat \<Rightarrow> int" where
  "elog x =
     (let (p, q) = quotient_of x; e = bitlen p - bitlen q
      in if 2 powi e \<le> x then e else e - 1)"

lemma powi_nat: "(0::int) \<le> k \<Longrightarrow> (2 :: rat) powi k = of_int (2 ^ nat k)"
  by (simp add: power_int_def)

lemma bitlen_range:
  assumes "0 < p"
  shows "2 powi (bitlen p - 1) \<le> (of_int p :: rat)" "(of_int p :: rat) < 2 powi bitlen p"
proof -
  have b: "1 \<le> bitlen p" using assms by (simp add: bitlen_def floorlog_def)
  from bitlen_bounds [of p] assms
  have "2 ^ nat (bitlen p - 1) \<le> p" "p < 2 ^ nat (bitlen p)" by auto
  then have "(of_int (2 ^ nat (bitlen p - 1)) :: rat) \<le> of_int p"
    "(of_int p :: rat) < of_int (2 ^ nat (bitlen p))"
    by (simp_all only: of_int_le_iff of_int_less_iff)
  with b show "2 powi (bitlen p - 1) \<le> (of_int p :: rat)" "(of_int p :: rat) < 2 powi bitlen p"
    by (simp_all add: powi_nat)
qed

lemma elog_bounds:
  assumes "0 < x"
  shows "2 powi elog x \<le> x" "x < 2 powi (elog x + 1)"
proof -
  obtain p q where pq: "quotient_of x = (p, q)" by fastforce
  have q: "0 < q" by (rule quotient_of_denom_pos [OF pq])
  have x: "x = of_int p / of_int q" by (rule quotient_of_div [OF pq])
  with assms q have p: "0 < p" by (simp add: zero_less_divide_iff)
  let ?e = "bitlen p - bitlen q"
  have "2 powi (bitlen p - 1) / 2 powi bitlen q \<le> x"
    unfolding x using bitlen_range [OF p] bitlen_range [OF q] p q
    by (intro frac_le) auto
  moreover have "2 powi (?e - 1) = (2 powi (bitlen p - 1) / 2 powi bitlen q :: rat)"
    by (simp add: power_int_diff)
  ultimately have lo: "2 powi (?e - 1) \<le> x" by simp
  have "x < 2 powi bitlen p / 2 powi (bitlen q - 1)"
    unfolding x using bitlen_range [OF p] bitlen_range [OF q] p q
    by (intro frac_less) auto
  moreover have "2 powi (?e + 1) = (2 powi bitlen p / 2 powi (bitlen q - 1) :: rat)"
    by (simp add: power_int_diff power_int_add)
  ultimately have hi: "x < 2 powi (?e + 1)" by simp
  show "2 powi elog x \<le> x" "x < 2 powi (elog x + 1)"
    using lo hi by (auto simp: elog_def pq Let_def)
qed

lemma elog_mono:
  assumes "0 < x" "x \<le> y"
  shows "elog x \<le> elog y"
proof (rule ccontr)
  assume "\<not> elog x \<le> elog y"
  then have "(2 :: rat) powi (elog y + 1) \<le> 2 powi elog x"
    by (intro power_int_increasing) auto
  with elog_bounds [of x] elog_bounds [of y] assms show False by linarith
qed

section \<open>Rounding to float64\<close>

definition qexp :: "rat \<Rightarrow> int" where
  "qexp x = max (elog x - 52) (- 1074)"

definition fl_pos :: "rat \<Rightarrow> rat" where
  "fl_pos x = (if x \<le> 0 then 0 else of_int (rne (x / 2 powi qexp x)) * 2 powi qexp x)"

definition fl :: "rat \<Rightarrow> f64" where
  "fl x = (if x < 0 then - fl_pos (- x) else fl_pos x)"

lemma div_powi: "(2 :: rat) powi k / 2 powi j = 2 powi (k - j)"
  by (simp add: power_int_diff)

lemma fl_pos_le_powi:
  assumes "0 < x" "x \<le> 2 powi k" "qexp x \<le> k"
  shows "fl_pos x \<le> 2 powi k"
proof -
  have "x / 2 powi qexp x \<le> 2 powi (k - qexp x)"
    using divide_right_mono [OF assms(2), of "2 powi qexp x"] by (simp add: div_powi)
  then have "rne (x / 2 powi qexp x) \<le> 2 ^ nat (k - qexp x)"
    using assms(3) by (intro rne_le_int) (simp add: powi_nat)
  then have "(of_int (rne (x / 2 powi qexp x)) :: rat) \<le> of_int (2 ^ nat (k - qexp x))"
    by (simp only: of_int_le_iff)
  also have "\<dots> = 2 powi (k - qexp x)"
    by (rule powi_nat [symmetric]) (use assms(3) in simp)
  finally have "(of_int (rne (x / 2 powi qexp x)) :: rat) * 2 powi qexp x \<le> 2 powi (k - qexp x) * 2 powi qexp x"
    by (rule mult_right_mono) simp
  also have "\<dots> = 2 powi k" by (simp add: power_int_diff)
  finally show ?thesis using assms(1) by (simp add: fl_pos_def)
qed

lemma fl_pos_ge_powi:
  assumes "2 powi k \<le> y" "qexp y \<le> k"
  shows "2 powi k \<le> fl_pos y"
proof -
  have y: "0 < y" using assms(1) by (rule order_less_le_trans [rotated]) simp
  have "2 powi (k - qexp y) \<le> y / 2 powi qexp y"
    using divide_right_mono [OF assms(1), of "2 powi qexp y"] by (simp add: div_powi)
  then have "2 ^ nat (k - qexp y) \<le> rne (y / 2 powi qexp y)"
    using assms(2) by (intro rne_ge_int) (simp add: powi_nat)
  then have "of_int (2 ^ nat (k - qexp y)) \<le> (of_int (rne (y / 2 powi qexp y)) :: rat)"
    by (simp only: of_int_le_iff)
  moreover have "of_int (2 ^ nat (k - qexp y)) = (2 :: rat) powi (k - qexp y)"
    by (rule powi_nat [symmetric]) (use assms(2) in simp)
  ultimately have "2 powi (k - qexp y) * 2 powi qexp y \<le> (of_int (rne (y / 2 powi qexp y)) :: rat) * 2 powi qexp y"
    by (simp only: mult_right_mono zero_le_power_int zero_le_numeral)
  moreover have "2 powi (k - qexp y) * 2 powi qexp y = (2 :: rat) powi k" by (simp add: power_int_diff)
  ultimately show ?thesis using y by (simp add: fl_pos_def)
qed

lemma fl_pos_nonneg [simp]: "0 \<le> fl_pos x"
proof (cases "0 < x")
  case True
  then have "0 \<le> rne (x / 2 powi qexp x)" by (intro rne_ge_int) simp
  then show ?thesis by (simp add: fl_pos_def)
qed (simp add: fl_pos_def)

lemma fl_pos_mono:
  assumes "x \<le> y"
  shows "fl_pos x \<le> fl_pos y"
proof (cases "0 < x")
  case False
  then have "fl_pos x = 0" by (simp add: fl_pos_def)
  then show ?thesis by simp
next
  case x: True
  from x assms have e: "elog x \<le> elog y" by (rule elog_mono)
  show ?thesis
  proof (cases "qexp x = qexp y")
    case True
    have "rne (x / 2 powi qexp y) \<le> rne (y / 2 powi qexp y)"
      using assms by (intro rne_mono divide_right_mono) simp_all
    with True x assms show ?thesis by (simp add: fl_pos_def mult_right_mono)
  next
    case False
    with e have lt: "elog x < elog y" "qexp y = elog y - 52" "qexp x \<le> elog y" "qexp y \<le> elog y"
      by (auto simp: qexp_def max_def split: if_splits)
    have "x < 2 powi (elog x + 1)" by (rule elog_bounds [OF x])
    also have "\<dots> \<le> 2 powi elog y" using lt(1) by (intro power_int_increasing) auto
    finally have "fl_pos x \<le> 2 powi elog y" using x lt(3) by (intro fl_pos_le_powi) auto
    also have "\<dots> \<le> fl_pos y"
      using elog_bounds(1) [of y] x assms lt(4) by (intro fl_pos_ge_powi) auto
    finally show ?thesis .
  qed
qed

lemma fl_0 [simp]: "fl 0 = 0"
  by (simp add: fl_def fl_pos_def)

lemma fl_mono [f64_facts]: "x \<le> y \<Longrightarrow> fl x \<le> fl y"
proof (cases "0 \<le> x \<or> y < 0")
  case True
  assume "x \<le> y"
  with True show ?thesis by (auto simp: fl_def fl_pos_mono)
next
  case False
  then have "fl x \<le> 0" "0 \<le> fl y" by (auto simp: fl_def)
  then show ?thesis by simp
qed

lemma fl_nonneg [f64_facts]: "0 \<le> x \<Longrightarrow> 0 \<le> fl x"
  using fl_mono [of 0 x] by simp

lemma fl_error:
  assumes "0 < x"
  shows "\<bar>fl x - x\<bar> \<le> 2 powi qexp x / 2"
proof -
  let ?u = "2 powi qexp x :: rat"
  have "fl x - x = (of_int (rne (x / ?u)) - x / ?u) * ?u"
    using assms by (simp add: fl_def fl_pos_def algebra_simps)
  then have "\<bar>fl x - x\<bar> = \<bar>of_int (rne (x / ?u)) - x / ?u\<bar> * ?u"
    by (simp add: abs_mult)
  also have "\<dots> \<le> 1 / 2 * ?u"
    by (intro mult_right_mono rne_error) simp
  finally show ?thesis by simp
qed

text \<open>The relative error of a rounding to a normal number is at most half a unit in the last
  place.\<close>

lemma fl_rel_error:
  assumes "2 powi (- 1022) \<le> x"
  shows "\<bar>fl x - x\<bar> \<le> x * 2 powi (- 53)"
proof -
  have x: "0 < x" using assms by (rule order_less_le_trans [rotated]) simp
  have "\<not> elog x + 1 \<le> - 1022"
  proof
    assume "elog x + 1 \<le> - 1022"
    then have "(2::rat) powi (elog x + 1) \<le> 2 powi (- 1022)" by (intro power_int_increasing) auto
    with elog_bounds(2) [OF x] assms show False by linarith
  qed
  then have q: "qexp x = elog x - 52" by (simp add: qexp_def)
  have "\<bar>fl x - x\<bar> \<le> 2 powi (elog x - 52) / 2" using fl_error [OF x] q by simp
  also have "\<dots> = 2 powi elog x * 2 powi (- 53)"
    by (simp add: power_int_diff power_int_minus field_simps)
  also have "\<dots> \<le> x * 2 powi (- 53)" using elog_bounds(1) [OF x] by (intro mult_right_mono) auto
  finally show ?thesis .
qed

lemma fl_of_nat:
  assumes "n < 2 ^ 53"
  shows "fl (of_nat n) = of_nat n"
proof (cases "n = 0")
  case False
  let ?x = "of_nat n :: rat"
  have x: "0 < ?x" using False by simp
  have "elog ?x < 53"
  proof (rule ccontr)
    assume "\<not> elog ?x < 53"
    then have "(2 :: rat) powi 53 \<le> 2 powi elog ?x" by (intro power_int_increasing) auto
    also have "\<dots> \<le> ?x" by (rule elog_bounds [OF x])
    finally have "(2 :: rat) ^ 53 \<le> of_nat n" by simp
    with assms show False by (metis not_le of_nat_le_iff of_nat_numeral of_nat_power)
  qed
  then have q: "qexp ?x \<le> 0" by (simp add: qexp_def)
  let ?j = "nat (- qexp ?x)"
  have j: "qexp ?x = - int ?j" using q by simp
  have u: "2 powi qexp ?x = (1 / 2 ^ ?j :: rat)"
    by (subst j) (simp only: power_int_minus power_int_of_nat inverse_eq_divide)
  have "?x / 2 powi qexp ?x = of_int (int n * 2 ^ ?j)" unfolding u by simp
  then have r: "rne (?x / 2 powi qexp ?x) = int n * 2 ^ ?j" by (metis rne_of_int)
  have "of_int (int n * 2 ^ ?j) * (1 / 2 ^ ?j) = ?x" by simp
  moreover have "fl_pos ?x = of_int (rne (?x / 2 powi qexp ?x)) * 2 powi qexp ?x"
    using x by (simp add: fl_pos_def)
  ultimately have "fl_pos ?x = ?x" by (simp only: r) (simp only: u)
  then show ?thesis by (simp add: fl_def)
qed simp

section \<open>Operations and conversions\<close>

definition fadd :: "f64 \<Rightarrow> f64 \<Rightarrow> f64" where "fadd x y = fl (x + y)"
definition fsub :: "f64 \<Rightarrow> f64 \<Rightarrow> f64" where "fsub x y = fl (x - y)"
definition fmul :: "f64 \<Rightarrow> f64 \<Rightarrow> f64" where "fmul x y = fl (x * y)"
definition fdiv :: "f64 \<Rightarrow> f64 \<Rightarrow> f64" where "fdiv x y = fl (x / y)"

definition f64_of_u32 :: "u32 \<Rightarrow> f64" where
  "f64_of_u32 w = fl (of_nat (unat w))"

definition f64_of_u64 :: "u64 \<Rightarrow> f64" where
  "f64_of_u64 w = fl (of_nat (unat w))"

lemma f64_of_u32_exact [simp]: "f64_of_u32 w = of_nat (unat w)"
proof -
  have "unat w < 2 ^ LENGTH(32)" by (rule unsigned_less)
  then show ?thesis unfolding f64_of_u32_def by (intro fl_of_nat) simp
qed

lemma f64_of_u64_nonneg [f64_facts]: "0 \<le> f64_of_u64 w"
  unfolding f64_of_u64_def by (intro fl_nonneg of_nat_0_le_iff)

lemma fadd_nonneg [f64_facts]: "0 \<le> x \<Longrightarrow> 0 \<le> y \<Longrightarrow> 0 \<le> fadd x y"
  by (simp add: fadd_def fl_nonneg)

lemma fmul_nonneg [f64_facts]: "0 \<le> x \<Longrightarrow> 0 \<le> y \<Longrightarrow> 0 \<le> fmul x y"
  by (simp add: fmul_def fl_nonneg)

lemma fdiv_nonneg [f64_facts]: "0 \<le> x \<Longrightarrow> 0 \<le> y \<Longrightarrow> 0 \<le> fdiv x y"
  by (simp add: fdiv_def fl_nonneg)

lemma fadd_mono [f64_facts]: "x \<le> x' \<Longrightarrow> y \<le> y' \<Longrightarrow> fadd x y \<le> fadd x' y'"
  unfolding fadd_def by (intro fl_mono add_mono)

lemma fmul_mono [f64_facts]: "x \<le> x' \<Longrightarrow> 0 \<le> y \<Longrightarrow> fmul x y \<le> fmul x' y"
  unfolding fmul_def by (intro fl_mono mult_right_mono)

lemma fdiv_mono [f64_facts]: "x \<le> x' \<Longrightarrow> 0 < y \<Longrightarrow> fdiv x y \<le> fdiv x' y"
  unfolding fdiv_def by (intro fl_mono divide_right_mono) auto

lemma fmul_0 [simp]: "fmul 0 y = 0"
  by (simp add: fmul_def)

lemma fadd_0 [simp]: "fadd 0 0 = 0"
  by (simp add: fadd_def)

lemma fdiv_0 [simp]: "fdiv 0 y = 0"
  by (simp add: fdiv_def)

text \<open>Rounding away from the subnormal range.\<close>

lemma tiny_powi: "(2 :: rat) powi (- 1022) \<le> 1 / 10 ^ 20"
proof -
  have "(2 :: rat) powi (- 1022) \<le> 2 powi (- 100)" by (rule power_int_increasing) simp_all
  also have "(2 :: rat) powi (- 100) = 1 / 2 ^ 100" by (simp add: power_int_minus field_simps)
  also have "\<dots> \<le> 1 / 10 ^ 20" by simp
  finally show ?thesis .
qed

lemma fl_rel:
  assumes "x = 0 \<or> 1 / 10 ^ 20 \<le> x"
  shows "\<bar>fl x - x\<bar> \<le> x * 2 powi (- 53)" "fl x = 0 \<or> x / 2 \<le> fl x"
proof -
  show r: "\<bar>fl x - x\<bar> \<le> x * 2 powi (- 53)"
    using assms fl_rel_error [of x] tiny_powi by (cases "x = 0") auto
  have "0 \<le> x" using assms by (auto intro: order_trans [rotated])
  moreover have "(2 :: rat) powi (- 53) \<le> 1 / 2" by (simp add: power_int_minus)
  ultimately have "x * 2 powi (- 53) \<le> x * (1 / 2)" by (intro mult_left_mono)
  with r show "fl x = 0 \<or> x / 2 \<le> fl x" by auto
qed

lemma fl_half: "1 / 10 ^ 20 \<le> x \<Longrightarrow> x / 2 \<le> fl x"
proof -
  assume x: "1 / 10 ^ 20 \<le> x"
  have "0 \<le> x" by (rule order_trans [OF _ x]) simp
  moreover have "(2 :: rat) powi (- 53) \<le> 1 / 2" by (simp add: power_int_minus)
  ultimately have "x * 2 powi (- 53) \<le> x * (1 / 2)" by (intro mult_left_mono)
  with fl_rel(1) [of x] x have "\<bar>fl x - x\<bar> \<le> x * (1 / 2)" by linarith
  then show "x / 2 \<le> fl x" unfolding abs_le_iff by linarith
qed

end
