(* ===== verification/Go_UTF8.thy ===== *)
theory Go_UTF8
  imports PM_Prelude
begin

text \<open>
  Runes. \<open>for _, c := range s\<close> and \<open>utf8.RuneCountInString\<close> decode a Go string as UTF-8:
  a byte that does not start a valid encoding is the rune 65533 of width one.
\<close>

definition cont_byte :: "char \<Rightarrow> bool" where
  "cont_byte c \<longleftrightarrow> 128 \<le> (of_char c :: nat) \<and> (of_char c :: nat) \<le> 191"

definition in_range :: "char \<Rightarrow> nat \<Rightarrow> nat \<Rightarrow> bool" where
  "in_range c lo hi \<longleftrightarrow> lo \<le> of_char c \<and> of_char c \<le> hi"

definition RuneError :: nat where "RuneError = 65533"

text \<open>The first rune of a non-empty string and its width.\<close>

fun decode_rune :: "string \<Rightarrow> nat \<times> nat" where
  "decode_rune [] = (RuneError, 0)"
| "decode_rune (a # r) =
     (let x = of_char a in
      if x < 128 then (x, 1)
      else if 194 \<le> x \<and> x \<le> 223 then
        (case r of b # _ \<Rightarrow>
           if cont_byte b then ((x - 192) * 64 + (of_char b - 128), 2) else (RuneError, 1)
         | _ \<Rightarrow> (RuneError, 1))
      else if 224 \<le> x \<and> x \<le> 239 then
        (case r of b # c # _ \<Rightarrow>
           if in_range b (if x = 224 then 160 else 128) (if x = 237 then 159 else 191) \<and> cont_byte c
           then ((x - 224) * 4096 + (of_char b - 128) * 64 + (of_char c - 128), 3) else (RuneError, 1)
         | _ \<Rightarrow> (RuneError, 1))
      else if 240 \<le> x \<and> x \<le> 244 then
        (case r of b # c # d # _ \<Rightarrow>
           if in_range b (if x = 240 then 144 else 128) (if x = 244 then 143 else 191)
              \<and> cont_byte c \<and> cont_byte d
           then ((x - 240) * 262144 + (of_char b - 128) * 4096 + (of_char c - 128) * 64
                 + (of_char d - 128), 4)
           else (RuneError, 1)
         | _ \<Rightarrow> (RuneError, 1))
      else (RuneError, 1))"

lemma decode_rune_width: "s \<noteq> [] \<Longrightarrow> 0 < snd (decode_rune s)"
  by (cases s) (auto simp: Let_def split: list.splits)

function runes :: "string \<Rightarrow> nat list" where
  "runes s =
     (if s = [] then [] else fst (decode_rune s) # runes (drop (snd (decode_rune s)) s))"
  by pat_completeness auto
termination
  by (relation "measure length") (auto intro!: diff_less decode_rune_width)

declare runes.simps [simp del]

definition RuneCountInString :: "string \<Rightarrow> nat" where
  "RuneCountInString s = length (runes s)"

definition is_ascii :: "char \<Rightarrow> bool" where
  "is_ascii c \<longleftrightarrow> (of_char c :: nat) < 128"

text \<open>A byte outside ASCII starts a rune outside ASCII.\<close>

lemma decode_rune_nonascii:
  assumes "\<not> is_ascii a"
  shows "128 \<le> fst (decode_rune (a # r))"
proof -
  let ?x = "of_char a :: nat"
  have x: "128 \<le> ?x" using assms by (simp add: is_ascii_def)
  consider "194 \<le> ?x" "?x \<le> 223" | "224 \<le> ?x" "?x \<le> 239" | "240 \<le> ?x" "?x \<le> 244"
    | "?x < 194 \<or> 244 < ?x" by linarith
  then show ?thesis
  proof cases
    case 1
    have "128 \<le> (?x - 192) * 64 + k" for k :: nat using 1 by linarith
    with 1 show ?thesis by (simp add: Let_def RuneError_def split: list.split)
  next
    case 2
    show ?thesis
    proof (cases "?x = 224")
      case True
      have "128 \<le> (of_char b - 128) * 64 + k" if "in_range b 160 191" for b :: char and k :: nat
        using that unfolding in_range_def by linarith
      with True show ?thesis by (simp add: Let_def RuneError_def split: list.split)
    next
      case False
      with 2 have "128 \<le> (?x - 224) * 4096 + k + l" for k l :: nat by linarith
      with 2 False show ?thesis by (simp add: Let_def RuneError_def split: list.split)
    qed
  next
    case 3
    show ?thesis
    proof (cases "?x = 240")
      case True
      have "128 \<le> (of_char b - 128) * 4096 + k + l" if "in_range b 144 191" for b :: char and k l :: nat
        using that unfolding in_range_def by linarith
      with True show ?thesis by (simp add: Let_def RuneError_def split: list.split)
    next
      case False
      with 3 have "128 \<le> (?x - 240) * 262144 + k + l + m" for k l m :: nat by linarith
      with 3 False show ?thesis by (simp add: Let_def RuneError_def split: list.split)
    qed
  next
    case 4
    with x show ?thesis by (auto simp: Let_def RuneError_def)
  qed
qed

lemma runes_Nil [simp]: "runes [] = []"
  by (simp add: runes.simps)

lemma runes_ascii_Cons [simp]: "is_ascii c \<Longrightarrow> runes (c # s) = of_char c # runes s"
  by (subst runes.simps) (simp add: is_ascii_def)

lemma runes_ascii [go_simps]: "list_all is_ascii s \<Longrightarrow> runes s = map of_char s"
  by (induction s) auto

lemma length_runes: "length (runes s) \<le> length s"
proof (induction s rule: runes.induct)
  case (1 s)
  show ?case
  proof (cases "s = []")
    case False
    then have "0 < snd (decode_rune s)" by (rule decode_rune_width)
    moreover have "length (runes (drop (snd (decode_rune s)) s)) \<le> length s - snd (decode_rune s)"
      using 1 False by simp
    moreover have "0 < length s" using False by simp
    ultimately have "Suc (length (runes (drop (snd (decode_rune s)) s))) \<le> length s" by linarith
    with False show ?thesis by (subst runes.simps) simp
  qed simp
qed

lemma is_lower_hex_ascii: "is_lower_hex c \<Longrightarrow> is_ascii c"
  by (auto simp: is_lower_hex_def is_digit_def is_ascii_def)

end
