(* ===== verification/Domain.thy ===== *)
theory Domain
  imports Go_Time Go_Float Go_UTF8
begin

text \<open>
  Package \<open>domain\<close>: the business types (\<open>event.go\<close>, \<open>models.go\<close>) and their pure functions:
  S3 object keys, the numeric organisation id used in ClickHouse, rate-limit tiers and the
  scope and revocation tests on API keys.
\<close>

section \<open>event.go\<close>

record Event =
  ev_OrgID :: u64
  ev_EventID :: string
  ev_ProjectID :: string
  ev_Timestamp :: gotime
  ev_InsertedAt :: gotime
  ev_Model :: string
  ev_Provider :: string
  ev_PromptTokens :: u32
  ev_CompletionTokens :: u32
  ev_TotalTokens :: u32
  ev_CostUSD :: f64
  ev_LatencyMs :: u32
  ev_StatusCode :: u32
  ev_Tags :: "string \<rightharpoonup> string"
  ev_Prompt :: string
  ev_Response :: string
  ev_PromptHash :: string
  ev_S3Key :: string
  ev_S3Status :: string
  ev_SchemaVersion :: u32

definition S3StatusNone :: string where "S3StatusNone = ''none''"
definition S3StatusPending :: string where "S3StatusPending = ''pending''"
definition S3StatusUploaded :: string where "S3StatusUploaded = ''uploaded''"

definition HasText :: "Event \<Rightarrow> bool" where
  "HasText e \<longleftrightarrow> ev_Prompt e \<noteq> [] \<or> ev_Response e \<noteq> []"

text \<open>
  \<open>uintToStr\<close> appends the digits lowest first to a buffer and then reverses it in place,
  exchanging the bytes at \<open>i\<close> and \<open>j\<close> while \<open>i < j\<close>.
\<close>

function u2s_digits :: "u64 \<Rightarrow> string \<Rightarrow> string" where
  "u2s_digits n buf =
     (if 0 < n then u2s_digits (n div 10) (buf @ [char_of (48 + unat (n mod 10))]) else buf)"
  by pat_completeness auto
termination
  by (relation "measure (\<lambda>(n, buf). unat n)")
    (auto simp: unat_div word_less_nat_alt intro!: div_less_dividend)

declare u2s_digits.simps [simp del]

function swap_loop :: "nat \<Rightarrow> int \<Rightarrow> string \<Rightarrow> string" where
  "swap_loop i j buf =
     (if int i < j then swap_loop (i + 1) (j - 1) (buf[i := buf ! nat j, nat j := buf ! i]) else buf)"
  by pat_completeness auto
termination
  by (relation "measure (\<lambda>(i, j, buf). nat (j - int i))") auto

declare swap_loop.simps [simp del]

definition uintToStr :: "u64 \<Rightarrow> string" where
  "uintToStr n =
     (if n = 0 then ''0''
      else let buf = u2s_digits n [] in swap_loop 0 (int (length buf) - 1) buf)"

definition S3ObjectKey :: "Event \<Rightarrow> string" where
  "S3ObjectKey e =
     (let t = ev_Timestamp e
      in ''v1/'' @ uintToStr (ev_OrgID e) @ ''/'' @ Format_year t @ ''/'' @ Format_month t @ ''/''
         @ Format_day t @ ''/'' @ ev_EventID e @ ''.zst'')"

lemma u2s_digits_dec:
  "0 < n \<Longrightarrow> u2s_digits n buf = buf @ rev (dec (unat n))"
proof (induction n buf rule: u2s_digits.induct)
  case (1 n buf)
  let ?d = "char_of (48 + unat (n mod 10)) :: char"
  have m: "unat (n mod 10) = unat n mod 10" "unat (n div 10) = unat n div 10"
    by (simp_all add: unat_mod unat_div)
  have step: "u2s_digits n buf = u2s_digits (n div 10) (buf @ [?d])"
    using 1(2) by (simp add: u2s_digits.simps [of n])
  show ?case
  proof (cases "0 < n div 10")
    case True
    then have "0 < unat (n div 10)" by (simp add: word_less_nat_alt)
    then have "\<not> unat n < 10" using m(2) by auto
    then show ?thesis
      using 1(1) [OF 1(2) True] step m by (simp add: dec.simps [of "unat n"] digit_char_def)
  next
    case False
    then have z: "n div 10 = 0" by (simp add: word_gt_0)
    then have "unat n div 10 = 0" using m(2) by simp
    then have "unat n < 10" by (simp add: div_eq_0_iff)
    then show ?thesis
      using step z m by (simp add: u2s_digits.simps [of 0] dec.simps [of "unat n"] digit_char_def)
  qed
qed

text \<open>The exchange loop started on a middle segment reverses that segment.\<close>

lemma swap_loop_rev:
  "swap_loop (length a) (int (length a + length m) - 1) (a @ m @ b) = a @ rev m @ b"
proof (induction "length m" arbitrary: a m b rule: less_induct)
  case less
  show ?case
  proof (cases "length m < 2")
    case True
    then have "rev m = m" by (cases m; cases "tl m") auto
    with True show ?thesis by (simp add: swap_loop.simps)
  next
    case False
    then obtain x k y where m: "m = x # k @ [y]"
      by (cases m; cases "tl m" rule: rev_cases) auto
    let ?j = "int (length a + length m) - 1"
    have j: "nat ?j = length a + Suc (length k)" by (simp add: m)
    have "(a @ m @ b)[length a := (a @ m @ b) ! nat ?j, nat ?j := (a @ m @ b) ! length a]
          = (a @ [y]) @ k @ ([x] @ b)"
      unfolding j by (simp add: m nth_append list_update_append)
    moreover have "swap_loop (length (a @ [y])) (int (length (a @ [y]) + length k) - 1) ((a @ [y]) @ k @ ([x] @ b))
          = (a @ [y]) @ rev k @ ([x] @ b)"
      by (rule less) (simp add: m)
    ultimately show ?thesis
      using False by (subst swap_loop.simps) (simp add: m)
  qed
qed

lemma uintToStr_dec [go_simps]: "uintToStr n = dec (unat n)"
proof (cases "n = 0")
  case True
  then show ?thesis by (simp add: uintToStr_def dec.simps)
next
  case False
  then have "0 < n" by (simp add: word_gt_0)
  then show ?thesis
    using False swap_loop_rev [of "[]" "rev (dec (unat n))" "[]"]
    by (simp add: uintToStr_def u2s_digits_dec)
qed

lemma uintToStr_length: "length (uintToStr n) \<le> 20"
proof -
  have "unat n < 2 ^ LENGTH(64)" by (rule unsigned_less)
  then show ?thesis unfolding uintToStr_dec by (intro dec_length) simp_all
qed

lemma uintToStr_inject [simp]: "uintToStr m = uintToStr n \<longleftrightarrow> m = n"
  by (simp add: uintToStr_dec word_unat_eq_iff)

section \<open>models.go: numeric organisation ids\<close>

definition hexVal :: "u8 \<Rightarrow> u8" where
  "hexVal b =
     (if 48 \<le> b \<and> b \<le> 57 then b - 48
      else if 97 \<le> b \<and> b \<le> 102 then b - 97 + 10
      else if 65 \<le> b \<and> b \<le> 70 then b - 65 + 10
      else 0)"

definition hexByte :: "u8 \<Rightarrow> u8 \<Rightarrow> u8" where
  "hexByte hi lo = push_bit 4 (hexVal hi) OR hexVal lo"

text \<open>\<open>binary.BigEndian.Uint64\<close>.\<close>

definition BigEndian_Uint64 :: "u8 list \<Rightarrow> u64" where
  "BigEndian_Uint64 bs = foldl (\<lambda>a b. push_bit 8 a OR ucast b) 0 (take 8 bs)"

definition OrgIDToUint64 :: "string \<Rightarrow> u64" where
  "OrgIDToUint64 orgID =
     (let cleaned = map (\<lambda>c. word_of_nat c :: u8) (filter (\<lambda>c. c \<noteq> 45) (runes orgID))
      in if length cleaned < 16 then 0
         else BigEndian_Uint64 (map (\<lambda>i. hexByte (cleaned ! (i * 2)) (cleaned ! (i * 2 + 1))) [0..<8]))"

section \<open>models.go: tiers, keys, users, tokens, projects\<close>

type_synonym OrgTier = string

definition TierFree :: OrgTier where "TierFree = ''free''"
definition TierPro :: OrgTier where "TierPro = ''pro''"
definition TierBusiness :: OrgTier where "TierBusiness = ''business''"
definition TierEnterprise :: OrgTier where "TierEnterprise = ''enterprise''"

definition RateLimitForTier :: "OrgTier \<Rightarrow> int" where
  "RateLimitForTier tier =
     (if tier = TierFree then 100
      else if tier = TierPro then 500
      else if tier = TierBusiness then 2000
      else if tier = TierEnterprise then 2000
      else 100)"

definition DashboardRateLimitForTier :: "OrgTier \<Rightarrow> int" where
  "DashboardRateLimitForTier tier =
     (if tier = TierFree then 60
      else if tier = TierPro then 300
      else if tier = TierBusiness then 1000
      else if tier = TierEnterprise then 1000
      else 60)"

record Organization =
  org_ID :: string
  org_Name :: string
  org_Slug :: string
  org_Tier :: OrgTier
  org_Timezone :: string
  org_PIIEnabled :: bool
  org_SlackWebhookURL :: "string option"
  org_StripeCustomerID :: "string option"
  org_StripeSubscriptionID :: "string option"
  org_CreatedAt :: gotime
  org_UpdatedAt :: gotime

record APIKey =
  key_ID :: string
  key_OrgID :: string
  key_ProjectID :: "string option"
  key_KeyPrefix :: string
  key_KeyHash :: string
  key_Name :: string
  key_Scopes :: "string list"
  key_LastUsedAt :: "gotime option"
  key_CreatedAt :: gotime
  key_RevokedAt :: "gotime option"
  key_Tier :: OrgTier

fun HasScope_loop :: "string list \<Rightarrow> string \<Rightarrow> bool" where
  "HasScope_loop [] scope = False"
| "HasScope_loop (s # ss) scope = (if s = scope then True else HasScope_loop ss scope)"

definition HasScope :: "APIKey \<Rightarrow> string \<Rightarrow> bool" where
  "HasScope k scope = HasScope_loop (key_Scopes k) scope"

definition IsRevoked :: "APIKey \<Rightarrow> bool" where
  "IsRevoked k \<longleftrightarrow> key_RevokedAt k \<noteq> None"

lemma HasScope_iff: "HasScope k scope \<longleftrightarrow> scope \<in> set (key_Scopes k)"
proof -
  have "HasScope_loop ss scope \<longleftrightarrow> scope \<in> set ss" for ss
    by (induction ss) auto
  then show ?thesis by (simp add: HasScope_def)
qed

record User =
  user_ID :: string
  user_Email :: string
  user_Name :: string
  user_AvatarURL :: string
  user_CreatedAt :: gotime

record RefreshToken =
  rt_ID :: string
  rt_UserID :: string
  rt_TokenHash :: string
  rt_ExpiresAt :: gotime
  rt_RevokedAt :: "gotime option"
  rt_CreatedAt :: gotime

record Project =
  prj_ID :: string
  prj_OrgID :: string
  prj_Name :: string
  prj_Slug :: string
  prj_Description :: string
  prj_PIIEnabled :: bool
  prj_IsDefault :: bool
  prj_CreatedAt :: gotime
  prj_UpdatedAt :: gotime
  prj_ArchivedAt :: "gotime option"

record ModelPrice =
  mp_ID :: string
  mp_Provider :: string
  mp_ModelName :: string
  mp_InputPricePerMillion :: f64
  mp_OutputPricePerMillion :: f64
  mp_EffectiveFrom :: gotime
  mp_CreatedAt :: gotime

section \<open>models.go: dashboard results\<close>

record OverviewKPIs =
  kpi_TotalCost :: f64
  kpi_TotalRequests :: u64
  kpi_TotalErrors :: u64
  kpi_AvgLatencyMs :: f64

record CostBreakdownItem =
  cb_Group :: string
  cb_Provider :: string
  cb_CostUSD :: f64
  cb_Requests :: u64
  cb_Tokens :: u64
  cb_PercentOfTotal :: f64

record TimeseriesPoint =
  tp_Timestamp :: gotime
  tp_CostUSD :: f64
  tp_Requests :: u64

record TimeseriesSeries =
  ts_Group :: string
  ts_Points :: "TimeseriesPoint list"

record CostComparePeriod =
  cp_TotalCost :: f64
  cp_Requests :: u64

record CostCompareChanges =
  cc_CostDelta :: f64
  cc_CostPercent :: "f64 option"
  cc_RequestPercent :: "f64 option"

record CostCompareBreakdownItem =
  ci_Group :: string
  ci_CurrentCost :: f64
  ci_PreviousCost :: f64
  ci_CostChange :: "f64 option"
  ci_Requests :: u64

record CostCompareResponse =
  cmp_Current :: CostComparePeriod
  cmp_Previous :: CostComparePeriod
  cmp_Changes :: CostCompareChanges
  cmp_Breakdown :: "CostCompareBreakdownItem list"

record CostFiltersResponse =
  cf_Models :: "string list"
  cf_Providers :: "string list"
  cf_Features :: "string list"

text \<open>An event that the witnesses of other theories use.\<close>

definition sample_llm_event :: Event where
  "sample_llm_event =
     \<lparr>ev_OrgID = 1, ev_EventID = ''0190a5b3-7f4e-7d3a-9c1b-2f6e8d4a5b6c'', ev_ProjectID = [],
      ev_Timestamp = \<lparr>t_ns = 1715600000 * second, t_off = 0\<rparr>,
      ev_InsertedAt = \<lparr>t_ns = 1715600001 * second, t_off = 0\<rparr>, ev_Model = ''gpt-4o'',
      ev_Provider = ''openai'', ev_PromptTokens = 1000, ev_CompletionTokens = 500,
      ev_TotalTokens = 1500, ev_CostUSD = 0, ev_LatencyMs = 800, ev_StatusCode = 200,
      ev_Tags = Map.empty, ev_Prompt = ''hi'', ev_Response = [], ev_PromptHash = [], ev_S3Key = [],
      ev_S3Status = ''pending'', ev_SchemaVersion = 1\<rparr>"

section \<open>Object keys and numeric ids: properties\<close>

lemma format_sep: "CHR ''/'' \<notin> set (uintToStr n)"
  by (simp add: uintToStr_dec)

text \<open>
  Two events share an S3 object key exactly when they have the same organisation, the same
  event id and the same local calendar date: no organisation can overwrite the stored prompt of
  another, whatever bytes the event ids contain.
\<close>

lemma S3ObjectKey_unique:
  "S3ObjectKey e = S3ObjectKey e' \<longleftrightarrow>
     ev_OrgID e = ev_OrgID e' \<and> ev_EventID e = ev_EventID e'
     \<and> Format_year (ev_Timestamp e) = Format_year (ev_Timestamp e')
     \<and> Format_month (ev_Timestamp e) = Format_month (ev_Timestamp e')
     \<and> Format_day (ev_Timestamp e) = Format_day (ev_Timestamp e')"
  by (auto simp: S3ObjectKey_def Let_def append_sep_inject format_sep)

text \<open>
  \<open>uintToStr\<close>, with its digit loop and in-place reversal, prints every \<open>uint64\<close> in
  decimal; reading the digits back gives the number, and the result fits the 20-byte buffer.
\<close>

lemma uintToStr_roundtrip:
  "uintToStr n = dec (unat n) \<and> undec (uintToStr n) = unat n \<and> length (uintToStr n) \<le> 20"
  using uintToStr_length [of n] by (simp add: uintToStr_dec)

text \<open>The text form of a UUID of 16 bytes, as PostgreSQL and \<open>google/uuid\<close> print it.\<close>

definition uuid_String :: "u8 list \<Rightarrow> string" where
  "uuid_String bs =
     EncodeToString (take 4 bs) @ ''-'' @ EncodeToString (take 2 (drop 4 bs)) @ ''-''
     @ EncodeToString (take 2 (drop 6 bs)) @ ''-'' @ EncodeToString (take 2 (drop 8 bs)) @ ''-''
     @ EncodeToString (drop 10 bs)"

lemma hexVal_hex_digit:
  assumes "n < 16"
  shows "hexVal (word_of_nat (of_char (hex_digit n))) = word_of_nat n"
proof -
  from assms have "n \<in> set [0..<16]" by simp
  then show ?thesis
    by (simp add: upt_rec numeral_eq_Suc) (elim disjE; simp add: hex_digit_def hexVal_def)
qed

lemma hexByte_hex_digits:
  "hexByte (word_of_nat (of_char (hex_digit (unat b div 16))))
           (word_of_nat (of_char (hex_digit (unat b mod 16)))) = (b :: u8)"
proof -
  have "unat b div 16 < 16" "unat b mod 16 < 16" using unat_u8_less [of b] by auto
  moreover have "(word_of_nat (unat b div 16) :: u8) = drop_bit 4 b"
    using unat_u8_less [of b]
    by (simp add: word_unat_eq_iff unat_drop_bit_eq drop_bit_eq_div unat_of_nat unat_div)
  moreover have "(word_of_nat (unat b mod 16) :: u8) = take_bit 4 b"
    using unat_u8_less [of b]
    by (simp add: word_unat_eq_iff unsigned_take_bit_eq take_bit_eq_mod unat_of_nat unat_mod)
  moreover have "push_bit 4 (drop_bit 4 b) OR take_bit 4 b = b"
    by (rule bit_word_eqI) (auto simp: bit_simps)
  ultimately show ?thesis by (simp add: hexByte_def hexVal_hex_digit)
qed

lemma runes_uuid:
  "filter (\<lambda>c. c \<noteq> 45) (runes (uuid_String bs)) = map of_char (EncodeToString bs)"
proof -
  have asc: "list_all is_ascii (uuid_String bs)"
    by (auto simp: uuid_String_def list_all_iff is_ascii_def [of "CHR ''-''"]
        dest: EncodeToString_lower is_lower_hex_ascii)
  have keep: "filter (\<lambda>c. c \<noteq> 45) (map of_char (EncodeToString xs))
              = (map of_char (EncodeToString xs) :: nat list)" for xs
    by (rule filter_True)
      (auto dest!: EncodeToString_lower simp: is_lower_hex_def is_digit_def)
  have "drop 4 bs = take 2 (drop 4 bs) @ drop 6 bs"
    "drop 6 bs = take 2 (drop 6 bs) @ drop 8 bs"
    "drop 8 bs = take 2 (drop 8 bs) @ drop 10 bs"
    using append_take_drop_id [of 2 "drop 4 bs"] append_take_drop_id [of 2 "drop 6 bs"]
      append_take_drop_id [of 2 "drop 8 bs"] by simp_all
  then have split: "EncodeToString bs = EncodeToString (take 4 bs) @ EncodeToString (take 2 (drop 4 bs))
      @ EncodeToString (take 2 (drop 6 bs)) @ EncodeToString (take 2 (drop 8 bs))
      @ EncodeToString (drop 10 bs)"
    by (metis EncodeToString_append append_take_drop_id)
  show ?thesis
    by (subst split, subst runes_ascii [OF asc]) (simp add: uuid_String_def keep)
qed

lemma uuid_numeric:
  assumes "length bs = 16"
  shows "OrgIDToUint64 (uuid_String bs) = BigEndian_Uint64 (take 8 bs)"
proof -
  let ?cl = "map (\<lambda>c. word_of_nat c :: u8) (filter (\<lambda>c. c \<noteq> 45) (runes (uuid_String bs)))"
  have cl: "?cl = map (\<lambda>c. word_of_nat (of_char c)) (EncodeToString bs)"
    by (simp add: runes_uuid)
  have len: "length ?cl = 32" using assms by (simp only: cl) simp
  have "map (\<lambda>i. hexByte (?cl ! (i * 2)) (?cl ! (i * 2 + 1))) [0..<8] = map (\<lambda>i. bs ! i) [0..<8]"
  proof (rule map_cong [OF refl])
    fix i assume "i \<in> set [0..<8]"
    then have i: "i < length bs" using assms by simp
    then have "2 * i < length (EncodeToString bs)" "2 * i + 1 < length (EncodeToString bs)" by auto
    then show "hexByte (?cl ! (i * 2)) (?cl ! (i * 2 + 1)) = bs ! i"
      using nth_EncodeToString [OF i] hexByte_hex_digits [of "bs ! i"]
      by (simp add: cl mult.commute)
  qed
  moreover have "map (\<lambda>i. bs ! i) [0..<8] = take 8 bs"
    using assms by (simp add: list_eq_iff_nth_eq)
  ultimately show ?thesis using len by (simp add: OrgIDToUint64_def Let_def)
qed

text \<open>
  The numeric organisation id of a UUID is its first eight bytes, big-endian; so two
  organisations are told apart in ClickHouse exactly when the first eight bytes of their UUIDs
  differ.
\<close>

lemma OrgIDToUint64_uuid:
  assumes "length bs = 16"
  shows "OrgIDToUint64 (uuid_String bs) = BigEndian_Uint64 (take 8 bs)"
  using assms by (rule uuid_numeric)

text \<open>
  The organisation that \<open>cmd/seed\<close> creates has the numeric id 0, which is also what every
  string that is too short to be a UUID is mapped to.
\<close>

lemma OrgIDToUint64_demo_collides:
  "OrgIDToUint64 ''00000000-0000-0000-0000-000000000001'' = 0 \<and> OrgIDToUint64 [] = 0"
proof
  have s: "uuid_String (replicate 15 0 @ [1]) = ''00000000-0000-0000-0000-000000000001''"
    by code_simp
  have "OrgIDToUint64 (uuid_String (replicate 15 0 @ [1]))
      = BigEndian_Uint64 (take 8 (replicate 15 0 @ [1]))"
    by (rule uuid_numeric) simp
  also have "take 8 (replicate 15 0 @ [1]) = replicate 8 (0 :: u8)" by simp
  also have "BigEndian_Uint64 (replicate 8 0) = 0"
    by code_simp
  finally show "OrgIDToUint64 ''00000000-0000-0000-0000-000000000001'' = 0" unfolding s .
  show "OrgIDToUint64 [] = 0" by (simp add: OrgIDToUint64_def)
qed

end
