(* ===== verification/Go_HTTP.thy ===== *)
theory Go_HTTP
  imports Domain
begin

text \<open>
  The HTTP vocabulary of both servers: requests, responses, the values a request context
  carries, and JSON bodies. A handler is a function from a state and a request to the new state
  and the response; a middleware maps handlers to handlers, as in Go. Instants inside a body
  stay abstract (\<open>JTime\<close>); numbers of type \<open>float64\<close> are \<open>JFloat\<close>.
\<close>

datatype json =
    JNull
  | JBool bool
  | JInt int
  | JFloat f64
  | JStr string
  | JTime gotime
  | JArr "json list"
  | JObj "(string \<times> json) list"

record reqctx =
  ctx_OrgID :: "string option"
  ctx_OrgTier :: "OrgTier option"
  ctx_RequestID :: "string option"
  ctx_UserID :: "string option"
  ctx_Role :: "string option"
  ctx_OrgNumeric :: "u64 option"

definition empty_ctx :: reqctx where
  "empty_ctx = \<lparr>ctx_OrgID = None, ctx_OrgTier = None, ctx_RequestID = None, ctx_UserID = None,
                ctx_Role = None, ctx_OrgNumeric = None\<rparr>"

text \<open>
  A request: header lookup is a total function that yields the empty string for an absent
  header, as \<open>Header.Get\<close> does; the cookies are in the order of the request's Cookie header.
\<close>

record request =
  rq_Method :: string
  rq_Path :: string
  rq_Header :: "string \<Rightarrow> string"
  rq_Cookies :: "(string \<times> string) list"
  rq_Query :: "string \<Rightarrow> string"
  rq_RemoteAddr :: string
  rq_Ctx :: reqctx

record cookie =
  ck_Name :: string
  ck_Value :: string
  ck_Path :: string
  ck_HttpOnly :: bool
  ck_Secure :: bool
  ck_SameSite :: string
  ck_MaxAge :: int

record response =
  rs_Status :: int
  rs_Header :: "string \<rightharpoonup> string"
  rs_Cookies :: "cookie list"
  rs_Body :: json

text \<open>The response under construction when the outermost handler starts.\<close>

definition fresh_response :: response where
  "fresh_response = \<lparr>rs_Status = 200, rs_Header = Map.empty, rs_Cookies = [], rs_Body = JNull\<rparr>"

definition SetHeader :: "string \<Rightarrow> string \<Rightarrow> response \<Rightarrow> response" where
  "SetHeader k v w = w\<lparr>rs_Header := (rs_Header w)(k \<mapsto> v)\<rparr>"

definition SetCookie :: "cookie \<Rightarrow> response \<Rightarrow> response" where
  "SetCookie c w = w\<lparr>rs_Cookies := rs_Cookies w @ [c]\<rparr>"

text \<open>\<open>r.Cookie(name)\<close>: the first cookie with that name, \<^const>\<open>None\<close> for \<open>ErrNoCookie\<close>.\<close>

definition Cookie :: "request \<Rightarrow> string \<Rightarrow> string option" where
  "Cookie r name = map_of (rq_Cookies r) name"

text \<open>\<open>r.AddCookie\<close> appends to the Cookie header.\<close>

definition AddCookie :: "request \<Rightarrow> string \<Rightarrow> string \<Rightarrow> request" where
  "AddCookie r name v = r\<lparr>rq_Cookies := rq_Cookies r @ [(name, v)]\<rparr>"

text \<open>A handler writes into the response it is given.\<close>

type_synonym 's handler = "'s \<Rightarrow> request \<Rightarrow> response \<Rightarrow> 's \<times> response"

lemma rs_SetHeader [simp, go_simps]:
  "rs_Status (SetHeader k v w) = rs_Status w" "rs_Body (SetHeader k v w) = rs_Body w"
  "rs_Cookies (SetHeader k v w) = rs_Cookies w"
  "rs_Header (SetHeader k v w) = (rs_Header w)(k \<mapsto> v)"
  by (simp_all add: SetHeader_def)

lemma rs_SetCookie [simp, go_simps]:
  "rs_Status (SetCookie c w) = rs_Status w" "rs_Body (SetCookie c w) = rs_Body w"
  "rs_Header (SetCookie c w) = rs_Header w" "rs_Cookies (SetCookie c w) = rs_Cookies w @ [c]"
  by (simp_all add: SetCookie_def)

lemma Cookie_AddCookie:
  "Cookie (AddCookie r n v) m =
     (case Cookie r m of Some x \<Rightarrow> Some x | None \<Rightarrow> if m = n then Some v else None)"
  by (auto simp: Cookie_def AddCookie_def map_add_def split: option.splits)

section \<open>http.ServeMux\<close>

text \<open>
  Patterns are \<open>METHOD /path\<close>, with \<open>{name}\<close> for one segment and a final slash for a subtree. The
  mux takes the most specific pattern that matches; routes are listed with the more specific of two
  overlapping patterns first, so the first match is that one. Paths are already clean (no \<open>//\<close>, no
  \<open>..\<close>), so no redirection happens.
\<close>

definition is_wildcard :: "string \<Rightarrow> bool" where
  "is_wildcard seg \<longleftrightarrow> HasPrefix seg ''{''"

fun match_segs :: "string list \<Rightarrow> string list \<Rightarrow> (string \<times> string) list option" where
  "match_segs [] [] = Some []"
| "match_segs [[]] segs = (if segs = [] then None else Some [])"
| "match_segs (p # ps) (s # ss) =
     (case match_segs ps ss of
        None \<Rightarrow> None
      | Some vs \<Rightarrow>
          if is_wildcard p then (if s = [] then None else Some ((butlast (tl p), s) # vs))
          else if p = s then Some vs else None)"
| "match_segs _ _ = None"

definition match_path :: "string \<Rightarrow> string \<Rightarrow> (string \<times> string) list option" where
  "match_path pat path = match_segs (Split pat (CHR ''/'')) (Split path (CHR ''/''))"

text \<open>A pattern for GET also serves HEAD.\<close>

definition match_method :: "string option \<Rightarrow> string \<Rightarrow> bool" where
  "match_method m meth =
     (case m of None \<Rightarrow> True | Some x \<Rightarrow> meth = x \<or> x = ''GET'' \<and> meth = ''HEAD'')"

type_synonym 's route = "string option \<times> string \<times> ((string \<times> string) list \<Rightarrow> 's handler)"

definition ServeMux :: "'s route list \<Rightarrow> 's handler" where
  "ServeMux routes st r w =
     (case filter (\<lambda>(m, p, h). match_path p (rq_Path r) \<noteq> None) routes of
        [] \<Rightarrow> (st, w\<lparr>rs_Status := 404, rs_Body := JStr ''404 page not found''\<rparr>)
      | hit # hits \<Rightarrow>
          (case find (\<lambda>(m, p, h). match_method m (rq_Method r)) (hit # hits) of
             None \<Rightarrow> (st, w\<lparr>rs_Status := 405, rs_Body := JStr ''Method Not Allowed''\<rparr>)
           | Some (m, p, h) \<Rightarrow> h (the (match_path p (rq_Path r))) st r w))"

end
