(* ===== verification/Ingest_Validation.thy ===== *)
theory Ingest_Validation
  imports Go_HTTP
begin

text \<open>
  Package \<open>ingestion\<close>, \<open>validation.go\<close>: the checks on an event before it is queued. The
  pointers of \<open>EventRequest\<close> are options. Its tag map is the list of its entries in the order
  in which \<open>range\<close> visits them, which Go leaves open: the theorems hold for every order.
\<close>

definition maxTags :: nat where "maxTags = 20"
definition maxTagKeyLen :: nat where "maxTagKeyLen = 50"
definition maxTagValueLen :: nat where "maxTagValueLen = 200"
definition maxModelLen :: nat where "maxModelLen = 100"
definition maxPromptBytes :: nat where "maxPromptBytes = 100 * 1024"
definition maxResponseBytes :: nat where "maxResponseBytes = 100 * 1024"
definition maxBatchSize :: nat where "maxBatchSize = 500"
definition maxBodySingle :: nat where "maxBodySingle = 1048576"
definition maxBodyBatch :: nat where "maxBodyBatch = 5 * 1048576"

definition allowedProviders :: "string \<Rightarrow> bool" where
  "allowedProviders p \<longleftrightarrow> p \<in> {''openai'', ''anthropic'', ''google'', ''other''}"

text \<open>The regular expression \<open>^[a-zA-Z0-9_]+$\<close>.\<close>

definition tag_char :: "char \<Rightarrow> bool" where
  "tag_char c \<longleftrightarrow>
     (let n = (of_char c :: nat)
      in 97 \<le> n \<and> n \<le> 122 \<or> 65 \<le> n \<and> n \<le> 90 \<or> 48 \<le> n \<and> n \<le> 57 \<or> n = 95)"

definition tagKeyRegex :: "string \<Rightarrow> bool" where
  "tagKeyRegex k \<longleftrightarrow> k \<noteq> [] \<and> list_all tag_char k"

text \<open>
  The regular expression for UUID version 7: groups of 8, 4, 4, 4 and 12 lower-case hex digits
  joined by dashes, the third group starting with 7.
\<close>

definition hex_run :: "string \<Rightarrow> nat \<Rightarrow> nat \<Rightarrow> bool" where
  "hex_run s i n \<longleftrightarrow> list_all is_lower_hex (take n (drop i s))"

definition uuidV7Regex :: "string \<Rightarrow> bool" where
  "uuidV7Regex s \<longleftrightarrow>
     length s = 36 \<and> hex_run s 0 8 \<and> s ! 8 = CHR ''-'' \<and> hex_run s 9 4 \<and> s ! 13 = CHR ''-''
     \<and> s ! 14 = CHR ''7'' \<and> hex_run s 15 3 \<and> s ! 18 = CHR ''-'' \<and> hex_run s 19 4
     \<and> s ! 23 = CHR ''-'' \<and> hex_run s 24 12"

text \<open>Messages that quote a tag key are kept structured.\<close>

datatype message =
    Msg string
  | KeyTooLong string
  | KeyNotAlnum string
  | ValueTooLong string

record FieldError =
  fe_Field :: string
  fe_Message :: message

abbreviation field_error :: "string \<Rightarrow> message \<Rightarrow> FieldError" where
  "field_error f m \<equiv> \<lparr>fe_Field = f, fe_Message = m\<rparr>"

abbreviation missing :: message where
  "missing \<equiv> Msg ''required field is missing''"

record EventRequest =
  er_IdempotencyKey :: string
  er_Timestamp :: string
  er_Model :: string
  er_Provider :: string
  er_PromptTokens :: "u32 option"
  er_CompletionTokens :: "u32 option"
  er_LatencyMs :: "u32 option"
  er_StatusCode :: "u32 option"
  er_Tags :: "(string \<times> string) list option"
  er_Prompt :: "string option"
  er_Response :: "string option"

definition check_key :: "EventRequest \<Rightarrow> FieldError list" where
  "check_key req =
     (if er_IdempotencyKey req = [] then [field_error ''idempotency_key'' missing]
      else if \<not> uuidV7Regex (ToLower (er_IdempotencyKey req))
      then [field_error ''idempotency_key'' (Msg ''invalid UUID format'')]
      else [])"

definition check_timestamp :: "gotime \<Rightarrow> EventRequest \<Rightarrow> FieldError list" where
  "check_timestamp now req =
     (if er_Timestamp req = [] then [field_error ''timestamp'' missing]
      else (case parse_RFC3339Nano (er_Timestamp req) of
              None \<Rightarrow> [field_error ''timestamp'' (Msg ''invalid timestamp format'')]
            | Some ts \<Rightarrow>
                if After ts (Add now (1 * hour))
                then [field_error ''timestamp''
                        (Msg ''timestamp cannot be more than 1 hour in the future'')]
                else []))"

definition check_model :: "EventRequest \<Rightarrow> FieldError list" where
  "check_model req =
     (if er_Model req = [] then [field_error ''model'' missing]
      else if maxModelLen < RuneCountInString (er_Model req)
      then [field_error ''model'' (Msg (''max '' @ dec maxModelLen @ '' characters''))]
      else [])"

definition check_provider :: "EventRequest \<Rightarrow> FieldError list" where
  "check_provider req =
     (if er_Provider req = [] then [field_error ''provider'' missing]
      else if \<not> allowedProviders (er_Provider req)
      then [field_error ''provider'' (Msg ''must be one of: openai, anthropic, google, other'')]
      else [])"

definition check_present :: "string \<Rightarrow> u32 option \<Rightarrow> FieldError list" where
  "check_present f v = (if v = None then [field_error f missing] else [])"

definition check_status :: "EventRequest \<Rightarrow> FieldError list" where
  "check_status req =
     (case er_StatusCode req of
        None \<Rightarrow> [field_error ''status_code'' missing]
      | Some c \<Rightarrow>
          if c < 100 \<or> 599 < c
          then [field_error ''status_code'' (Msg ''must be between 100 and 599'')] else [])"

definition check_tag :: "string \<times> string \<Rightarrow> FieldError list" where
  "check_tag kv =
     (case kv of (k, v) \<Rightarrow>
        (if maxTagKeyLen < length k then [field_error ''tags'' (KeyTooLong k)] else [])
        @ (if \<not> tagKeyRegex k then [field_error ''tags'' (KeyNotAlnum k)] else [])
        @ (if maxTagValueLen < length v then [field_error ''tags'' (ValueTooLong k)] else []))"

definition check_tags :: "EventRequest \<Rightarrow> FieldError list" where
  "check_tags req =
     (case er_Tags req of
        None \<Rightarrow> []
      | Some tags \<Rightarrow>
          if maxTags < length tags
          then [field_error ''tags'' (Msg (''max '' @ dec maxTags @ '' tags''))]
          else concat (map check_tag tags))"

definition truncate_text :: "nat \<Rightarrow> string option \<Rightarrow> string option" where
  "truncate_text n p =
     (case p of None \<Rightarrow> None | Some s \<Rightarrow> if n < length s then Some (take n s) else Some s)"

text \<open>
  \<open>ValidateEvent\<close> returns its field errors and truncates the texts of the request in place, so
  the model returns the request too.
\<close>

definition ValidateEvent :: "gotime \<Rightarrow> EventRequest \<Rightarrow> FieldError list \<times> EventRequest" where
  "ValidateEvent now req =
     (let errs = check_key req @ check_timestamp now req @ check_model req @ check_provider req
            @ check_present ''prompt_tokens'' (er_PromptTokens req)
            @ check_present ''completion_tokens'' (er_CompletionTokens req)
            @ check_present ''latency_ms'' (er_LatencyMs req)
            @ check_status req @ check_tags req
      in (errs, req\<lparr>er_Prompt := truncate_text maxPromptBytes (er_Prompt req),
                    er_Response := truncate_text maxResponseBytes (er_Response req)\<rparr>))"

definition ValidateBatch :: "EventRequest list \<Rightarrow> FieldError list" where
  "ValidateBatch events =
     (if length events = 0
      then [field_error ''events'' (Msg ''at least one event is required'')]
      else if maxBatchSize < length events
      then [field_error ''events'' (Msg (''max '' @ dec maxBatchSize @ '' events per batch''))]
      else [])"

section \<open>What validation promises\<close>

text \<open>The declarative contract of an acceptable event.\<close>

definition valid_tag :: "string \<times> string \<Rightarrow> bool" where
  "valid_tag kv \<longleftrightarrow>
     fst kv \<noteq> [] \<and> length (fst kv) \<le> 50 \<and> list_all tag_char (fst kv) \<and> length (snd kv) \<le> 200"

definition valid_event :: "gotime \<Rightarrow> EventRequest \<Rightarrow> bool" where
  "valid_event now req \<longleftrightarrow>
     uuidV7Regex (ToLower (er_IdempotencyKey req))
     \<and> (\<exists>ts. parse_RFC3339Nano (er_Timestamp req) = Some ts \<and> t_ns ts \<le> t_ns now + 3600 * second)
     \<and> er_Model req \<noteq> [] \<and> RuneCountInString (er_Model req) \<le> 100
     \<and> allowedProviders (er_Provider req)
     \<and> er_PromptTokens req \<noteq> None \<and> er_CompletionTokens req \<noteq> None \<and> er_LatencyMs req \<noteq> None
     \<and> (\<exists>c. er_StatusCode req = Some c \<and> 100 \<le> unat c \<and> unat c \<le> 599)
     \<and> (\<forall>tags. er_Tags req = Some tags \<longrightarrow> length tags \<le> 20 \<and> list_all valid_tag tags)"

lemma check_tag_Nil: "check_tag kv = [] \<longleftrightarrow> valid_tag kv"
  by (cases kv)
    (auto simp: check_tag_def valid_tag_def tagKeyRegex_def maxTagKeyLen_def maxTagValueLen_def)

lemma check_tags_Nil:
  "check_tags req = [] \<longleftrightarrow>
     (\<forall>tags. er_Tags req = Some tags \<longrightarrow> length tags \<le> 20 \<and> list_all valid_tag tags)"
  by (cases "er_Tags req")
    (auto simp: check_tags_def maxTags_def list_all_iff check_tag_Nil not_less)

lemma check_status_Nil:
  "check_status req = [] \<longleftrightarrow> (\<exists>c. er_StatusCode req = Some c \<and> 100 \<le> unat c \<and> unat c \<le> 599)"
  by (cases "er_StatusCode req") (auto simp: check_status_def word_less_nat_alt)

lemma uuid_not_empty: "uuidV7Regex (ToLower k) \<Longrightarrow> k \<noteq> []"
  by (auto simp: uuidV7Regex_def ToLower_def)

lemma check_key_Nil: "check_key req = [] \<longleftrightarrow> uuidV7Regex (ToLower (er_IdempotencyKey req))"
  by (auto simp: check_key_def dest: uuid_not_empty)

lemma check_timestamp_Nil:
  "check_timestamp now req = [] \<longleftrightarrow>
     (\<exists>ts. parse_RFC3339Nano (er_Timestamp req) = Some ts \<and> t_ns ts \<le> t_ns now + 3600 * second)"
  by (auto simp: check_timestamp_def parse_RFC3339Nano_Nil After_Add split: option.splits)

lemma check_provider_Nil: "check_provider req = [] \<longleftrightarrow> allowedProviders (er_Provider req)"
  by (auto simp: check_provider_def allowedProviders_def)

lemma ValidateEvent_Nil: "fst (ValidateEvent now req) = [] \<longleftrightarrow> valid_event now req"
  by (auto simp: ValidateEvent_def Let_def valid_event_def check_key_Nil check_timestamp_Nil
      check_model_def maxModelLen_def check_provider_Nil check_present_def check_status_Nil
      check_tags_Nil not_less)

lemma truncate_idem [simp]: "truncate_text n (truncate_text n p) = truncate_text n p"
  by (auto simp: truncate_text_def split: option.splits)

lemma ValidateEvent_snd [simp]:
  "er_IdempotencyKey (snd (ValidateEvent now req)) = er_IdempotencyKey req"
  "er_Timestamp (snd (ValidateEvent now req)) = er_Timestamp req"
  "er_Model (snd (ValidateEvent now req)) = er_Model req"
  "er_Provider (snd (ValidateEvent now req)) = er_Provider req"
  "er_PromptTokens (snd (ValidateEvent now req)) = er_PromptTokens req"
  "er_CompletionTokens (snd (ValidateEvent now req)) = er_CompletionTokens req"
  "er_LatencyMs (snd (ValidateEvent now req)) = er_LatencyMs req"
  "er_StatusCode (snd (ValidateEvent now req)) = er_StatusCode req"
  "er_Tags (snd (ValidateEvent now req)) = er_Tags req"
  "er_Prompt (snd (ValidateEvent now req)) = truncate_text maxPromptBytes (er_Prompt req)"
  "er_Response (snd (ValidateEvent now req)) = truncate_text maxResponseBytes (er_Response req)"
  by (simp_all add: ValidateEvent_def Let_def)

section \<open>Properties\<close>

text \<open>
  C11: \<open>ValidateEvent\<close> reports no error exactly for the events of the documented contract: a UUID
  v7 key, a parsable timestamp at most one hour ahead, a model of at most 100 characters, a known
  provider, the four counters present, a status between 100 and 599 and at most 20 well-formed
  tags. This is so for every order in which the tag map is visited.
\<close>

theorem ValidateEvent_accepts_iff:
  "fst (ValidateEvent now req) = [] \<longleftrightarrow> valid_event now req"
  by (rule ValidateEvent_Nil)

text \<open>
  Validation never rejects a text for its size: it cuts prompt and response to a prefix of
  at most 102400 bytes, leaves every other field alone, and validating the result again gives
  the same errors and changes nothing.
\<close>

lemma ValidateEvent_truncates:
  "er_Prompt (snd (ValidateEvent now req)) = map_option (take 102400) (er_Prompt req)
   \<and> er_Response (snd (ValidateEvent now req)) = map_option (take 102400) (er_Response req)
   \<and> (snd (ValidateEvent now req))\<lparr>er_Prompt := er_Prompt req, er_Response := er_Response req\<rparr> = req
   \<and> ValidateEvent now (snd (ValidateEvent now req)) = ValidateEvent now req"
proof (intro conjI)
  show "er_Prompt (snd (ValidateEvent now req)) = map_option (take 102400) (er_Prompt req)"
    "er_Response (snd (ValidateEvent now req)) = map_option (take 102400) (er_Response req)"
    by (auto simp: truncate_text_def maxPromptBytes_def maxResponseBytes_def split: option.splits)
  show "(snd (ValidateEvent now req))\<lparr>er_Prompt := er_Prompt req, er_Response := er_Response req\<rparr> = req"
    by (simp add: ValidateEvent_def Let_def)
  show "ValidateEvent now (snd (ValidateEvent now req)) = ValidateEvent now req"
    by (simp add: ValidateEvent_def Let_def check_key_def check_timestamp_def check_model_def
        check_provider_def check_status_def check_tags_def)
qed

end
