(* ===== verification/Queue.thy ===== *)
theory Queue
  imports Domain
begin

text \<open>
  The event queue between the ingestion API and the worker: the wire type of package
  \<open>eventsv1\<close> and the publisher of package \<open>pmqueue\<close> (\<open>publisher.go\<close>, \<open>setup.go\<close>).

  The broker (NATS JetStream) is not part of the repository. Its state is the list of
  publications it has acknowledged, each with its subject, payload and message id, and the
  outcome of each attempt is given by an arbitrary schedule \<open>js_fails\<close>.
\<close>

section \<open>eventsv1\<close>

type_synonym S3Status = "32 word"

definition S3Status_NONE :: S3Status where "S3Status_NONE = 0"
definition S3Status_PENDING :: S3Status where "S3Status_PENDING = 1"
definition S3Status_UPLOADED :: S3Status where "S3Status_UPLOADED = 2"

definition S3Status_String :: "S3Status \<Rightarrow> string" where
  "S3Status_String x =
     (if x = S3Status_NONE then ''S3_STATUS_NONE''
      else if x = S3Status_PENDING then ''S3_STATUS_PENDING''
      else if x = S3Status_UPLOADED then ''S3_STATUS_UPLOADED''
      else ''UNKNOWN'')"

record LLMEvent =
  pb_OrgId :: u64
  pb_EventId :: string
  pb_ProjectId :: string
  pb_Timestamp :: gotime
  pb_InsertedAt :: gotime
  pb_Model :: string
  pb_Provider :: string
  pb_PromptTokens :: u32
  pb_CompletionTokens :: u32
  pb_TotalTokens :: u32
  pb_CostUsd :: f64
  pb_LatencyMs :: u32
  pb_StatusCode :: u32
  pb_Tags :: "(string \<rightharpoonup> string) option"
  pb_Prompt :: string
  pb_Response :: string
  pb_PromptHash :: string
  pb_S3Key :: string
  pb_S3Status :: S3Status
  pb_SchemaVersion :: u32

section \<open>setup.go and publisher.go\<close>

definition StreamName :: string where "StreamName = ''EVENTS''"
definition DLQStreamName :: string where "DLQStreamName = ''EVENTS_DLQ''"
definition ConsumerName :: string where "ConsumerName = ''event-workers''"
definition SubjectPrefix :: string where "SubjectPrefix = ''events.''"

record jetstream =
  js_log :: "(string \<times> LLMEvent \<times> string) list"
  js_tries :: nat
  js_fails :: "nat \<Rightarrow> bool"

text \<open>One \<open>js.Publish\<close> call: an attempt that the schedule does not fail is acknowledged.\<close>

definition js_Publish :: "jetstream \<Rightarrow> string \<Rightarrow> LLMEvent \<Rightarrow> string \<Rightarrow> jetstream \<times> bool" where
  "js_Publish js subject payload msgid =
     (let ok = (\<not> js_fails js (js_tries js)); js' = js\<lparr>js_tries := js_tries js + 1\<rparr>
      in (if ok then js'\<lparr>js_log := js_log js @ [(subject, payload, msgid)]\<rparr> else js', ok))"

text \<open>
  \<open>json.Marshal\<close> fails on a time whose year does not have four digits, and on a zone of 24 hours and
  more. The log keeps the event that was encoded; theory \<open>Wire\<close> has the bytes.
\<close>

definition time_marshals :: "gotime \<Rightarrow> bool" where
  "time_marshals t \<longleftrightarrow>
     0 \<le> fst (civil t) \<and> fst (civil t) \<le> 9999 \<and> \<bar>t_off t\<bar> div 60 div 60 < 24"

definition marshals :: "LLMEvent \<Rightarrow> bool" where
  "marshals x \<longleftrightarrow> time_marshals (pb_Timestamp x) \<and> time_marshals (pb_InsertedAt x)"

text \<open>\<open>Publisher.Publish\<close>; the event id is the message id that the broker deduplicates by.\<close>

definition Publish :: "jetstream \<Rightarrow> u64 \<Rightarrow> LLMEvent \<Rightarrow> jetstream \<times> bool" where
  "Publish js orgID event =
     (if \<not> marshals event then (js, False)
      else js_Publish js (SubjectPrefix @ dec (unat orgID)) event (pb_EventId event))"

section \<open>The publisher interface\<close>

text \<open>
  What the handlers of the ingestion API rely on (\<open>EventPublisher\<close>): an acknowledged
  publication adds exactly this event, for this organisation, at the end of the queue, and a
  failed one adds nothing.
\<close>

locale event_publisher =
  fixes publish :: "'s \<Rightarrow> u64 \<Rightarrow> LLMEvent \<Rightarrow> 's \<times> bool"
    and queued :: "'s \<Rightarrow> (u64 \<times> LLMEvent) list"
  assumes publish_ok: "publish s org e = (s', True) \<Longrightarrow> queued s' = queued s @ [(org, e)]"
    and publish_err: "publish s org e = (s', False) \<Longrightarrow> queued s' = queued s"

definition js_queued :: "jetstream \<Rightarrow> (u64 \<times> LLMEvent) list" where
  "js_queued js =
     map (\<lambda>(subj, ev, _). (word_of_nat (undec (TrimPrefix subj SubjectPrefix)), ev)) (js_log js)"

interpretation nats: event_publisher Publish js_queued
  by unfold_locales (auto simp: Publish_def js_Publish_def js_queued_def Let_def split: if_splits)

end
