(* ===== verification/Go_Crypto.thy ===== *)
theory Go_Crypto
  imports PM_Prelude
begin

text \<open>
  The functions of Go's packages \<open>crypto/sha256\<close>, \<open>crypto/hmac\<close> and \<open>encoding/base64\<close> that
  the server calls. SHA-256 is written out (FIPS 180-4), so that key hashes and JWT signatures
  are the ones the program computes; no theorem assumes that it has no collisions. The round
  constants are written in decimal.
\<close>

section \<open>SHA-256\<close>

definition sha_K :: "u32 list" where
  "sha_K =
     [1116352408, 1899447441, 3049323471, 3921009573, 961987163, 1508970993,
      2453635748, 2870763221, 3624381080, 310598401, 607225278, 1426881987,
      1925078388, 2162078206, 2614888103, 3248222580, 3835390401, 4022224774,
      264347078, 604807628, 770255983, 1249150122, 1555081692, 1996064986,
      2554220882, 2821834349, 2952996808, 3210313671, 3336571891, 3584528711,
      113926993, 338241895, 666307205, 773529912, 1294757372, 1396182291,
      1695183700, 1986661051, 2177026350, 2456956037, 2730485921, 2820302411,
      3259730800, 3345764771, 3516065817, 3600352804, 4094571909, 275423344,
      430227734, 506948616, 659060556, 883997877, 958139571, 1322822218,
      1537002063, 1747873779, 1955562222, 2024104815, 2227730452, 2361852424,
      2428436474, 2756734187, 3204031479, 3329325298]"

definition sha_H0 :: "u32 list" where
  "sha_H0 =
     [1779033703, 3144134277, 1013904242, 2773480762, 1359893119, 2600822924,
      528734635, 1541459225]"

definition be32 :: "u32 \<Rightarrow> u8 list" where
  "be32 w = map (\<lambda>k. ucast (drop_bit k w)) [24, 16, 8, 0]"

definition be64 :: "u64 \<Rightarrow> u8 list" where
  "be64 w = map (\<lambda>k. ucast (drop_bit k w)) [56, 48, 40, 32, 24, 16, 8, 0]"

fun words32 :: "u8 list \<Rightarrow> u32 list" where
  "words32 (a # b # c # d # r) =
     (push_bit 24 (ucast a) OR push_bit 16 (ucast b) OR push_bit 8 (ucast c) OR ucast d) # words32 r"
| "words32 _ = []"

definition sha_pad :: "u8 list \<Rightarrow> u8 list" where
  "sha_pad bs =
     bs @ [128] @ replicate ((119 - length bs mod 64) mod 64) 0 @ be64 (word_of_nat (8 * length bs))"

definition small0 :: "u32 \<Rightarrow> u32" where
  "small0 x = word_rotr 7 x XOR word_rotr 18 x XOR drop_bit 3 x"

definition small1 :: "u32 \<Rightarrow> u32" where
  "small1 x = word_rotr 17 x XOR word_rotr 19 x XOR drop_bit 10 x"

definition big0 :: "u32 \<Rightarrow> u32" where
  "big0 x = word_rotr 2 x XOR word_rotr 13 x XOR word_rotr 22 x"

definition big1 :: "u32 \<Rightarrow> u32" where
  "big1 x = word_rotr 6 x XOR word_rotr 11 x XOR word_rotr 25 x"

text \<open>The message schedule, kept with its newest word first.\<close>

fun sha_sched :: "nat \<Rightarrow> u32 list \<Rightarrow> u32 list" where
  "sha_sched 0 w = rev w"
| "sha_sched (Suc n) w =
     sha_sched n ((small1 (w ! 1) + w ! 6 + small0 (w ! 14) + w ! 15) # w)"

type_synonym sha_state = "u32 \<times> u32 \<times> u32 \<times> u32 \<times> u32 \<times> u32 \<times> u32 \<times> u32"

fun sha_round :: "u32 \<times> u32 \<Rightarrow> sha_state \<Rightarrow> sha_state" where
  "sha_round (k, w) (a, b, c, d, e, f, g, h) =
     (let t1 = h + big1 e + ((e AND f) XOR (NOT e AND g)) + k + w;
          t2 = big0 a + ((a AND b) XOR (a AND c) XOR (b AND c))
      in (t1 + t2, a, b, c, d + t1, e, f, g))"

fun sha_block :: "sha_state \<Rightarrow> u8 list \<Rightarrow> sha_state" where
  "sha_block (a, b, c, d, e, f, g, h) blk =
     (case fold sha_round (zip sha_K (sha_sched 48 (rev (words32 blk)))) (a, b, c, d, e, f, g, h) of
        (a', b', c', d', e', f', g', h') \<Rightarrow>
          (a + a', b + b', c + c', d + d', e + e', f + f', g + g', h + h'))"

function sha_blocks :: "sha_state \<Rightarrow> u8 list \<Rightarrow> sha_state" where
  "sha_blocks s bs = (if length bs < 64 then s else sha_blocks (sha_block s (take 64 bs)) (drop 64 bs))"
  by pat_completeness auto
termination
  by (relation "measure (\<lambda>(s, bs). length bs)") auto

declare sha_blocks.simps [simp del]

definition sha_out :: "sha_state \<Rightarrow> u8 list" where
  "sha_out s =
     (case s of (a, b, c, d, e, f, g, h) \<Rightarrow> concat (map be32 [a, b, c, d, e, f, g, h]))"

definition sha256 :: "u8 list \<Rightarrow> u8 list" where
  "sha256 bs =
     sha_out (sha_blocks
       (sha_H0 ! 0, sha_H0 ! 1, sha_H0 ! 2, sha_H0 ! 3, sha_H0 ! 4, sha_H0 ! 5, sha_H0 ! 6, sha_H0 ! 7)
       (sha_pad bs))"

lemma length_sha256 [simp, go_simps]: "length (sha256 bs) = 32"
  by (auto simp: sha256_def sha_out_def be32_def split: prod.splits)

section \<open>HMAC-SHA256\<close>

definition hmac_key :: "u8 list \<Rightarrow> u8 list" where
  "hmac_key k = (let k' = (if 64 < length k then sha256 k else k) in k' @ replicate (64 - length k') 0)"

definition hmac_sha256 :: "u8 list \<Rightarrow> u8 list \<Rightarrow> u8 list" where
  "hmac_sha256 k msg =
     sha256 (map (\<lambda>b. b XOR 92) (hmac_key k) @ sha256 (map (\<lambda>b. b XOR 54) (hmac_key k) @ msg))"

lemma length_hmac_sha256 [simp, go_simps]: "length (hmac_sha256 k m) = 32"
  by (simp add: hmac_sha256_def)

lemma length_hmac_key: "length (hmac_key k) = 64"
  by (simp add: hmac_key_def Let_def)

section \<open>base64.RawURLEncoding\<close>

definition b64_char :: "nat \<Rightarrow> char" where
  "b64_char n =
     (if n < 26 then char_of (65 + n) else if n < 52 then char_of (71 + n)
      else if n < 62 then char_of (n - 4) else if n = 62 then CHR ''-'' else CHR ''_'')"

definition b64_val :: "char \<Rightarrow> nat option" where
  "b64_val c =
     (let n = (of_char c :: nat)
      in if 65 \<le> n \<and> n \<le> 90 then Some (n - 65) else if 97 \<le> n \<and> n \<le> 122 then Some (n - 71)
         else if 48 \<le> n \<and> n \<le> 57 then Some (n + 4)
         else if n = 45 then Some 62 else if n = 95 then Some 63 else None)"

lemma b64_val_char [simp]: "n < 64 \<Longrightarrow> b64_val (b64_char n) = Some n"
  by (auto simp: b64_char_def b64_val_def Let_def)

lemma b64_val_dot [simp]: "b64_val (CHR ''.'') = None"
  by (simp add: b64_val_def)

text \<open>Groups of three bytes become four characters; one or two bytes left over become two or
  three characters without padding.\<close>

fun b64_encode :: "u8 list \<Rightarrow> string" where
  "b64_encode (a # b # c # r) =
     (let n = unat a * 65536 + unat b * 256 + unat c
      in b64_char (n div 262144) # b64_char (n div 4096 mod 64) # b64_char (n div 64 mod 64)
         # b64_char (n mod 64) # b64_encode r)"
| "b64_encode [a, b] =
     (let n = unat a * 65536 + unat b * 256
      in [b64_char (n div 262144), b64_char (n div 4096 mod 64), b64_char (n div 64 mod 64)])"
| "b64_encode [a] =
     (let n = unat a * 65536 in [b64_char (n div 262144), b64_char (n div 4096 mod 64)])"
| "b64_encode [] = []"

text \<open>
  The decoder, not strict, drops the unused low bits of an incomplete last group.
  \<open>DecodeString\<close> also skips the characters CR and LF.
\<close>

fun b64_groups :: "nat list \<Rightarrow> u8 list option" where
  "b64_groups (p # q # r # s # rest) =
     (let n = p * 262144 + q * 4096 + r * 64 + s
      in map_option (\<lambda>bs. word_of_nat (n div 65536) # word_of_nat (n div 256 mod 256)
                           # word_of_nat (n mod 256) # bs) (b64_groups rest))"
| "b64_groups [p, q, r] =
     (let n = p * 262144 + q * 4096 + r * 64
      in Some [word_of_nat (n div 65536), word_of_nat (n div 256 mod 256)])"
| "b64_groups [p, q] = (let n = p * 262144 + q * 4096 in Some [word_of_nat (n div 65536)])"
| "b64_groups [p] = None"
| "b64_groups [] = Some []"

definition b64_decode :: "string \<Rightarrow> u8 list option" where
  "b64_decode s =
     (let vs = map b64_val (filter (\<lambda>c. c \<noteq> CHR 0x0A \<and> c \<noteq> CHR 0x0D) s)
      in if None \<in> set vs then None else b64_groups (map the vs))"

lemma triple_bounds:
  fixes a b c :: nat
  assumes "a < 256" "b < 256" "c < 256"
  shows "(a * 65536 + b * 256 + c) div 262144 < 64"
    "(a * 65536 + b * 256 + c) div 65536 = a"
    "(a * 65536 + b * 256 + c) div 256 mod 256 = b"
    "(a * 65536 + b * 256 + c) mod 256 = c"
proof -
  let ?n = "a * 65536 + b * 256 + c"
  have "?n < 64 * 262144" using assms by linarith
  then show "?n div 262144 < 64" by (simp add: less_mult_imp_div_less)
  show "?n div 65536 = a" using assms by (intro div_nat_eqI) simp_all
  have "?n div 256 = a * 256 + b" using assms by (intro div_nat_eqI) simp_all
  then show "?n div 256 mod 256 = b" using assms by simp
  have "?n = c + 256 * (a * 256 + b)" by simp
  then show "?n mod 256 = c" using assms by (metis mod_mult_self2 mod_less)
qed

lemma quad_join:
  "n div 262144 * 262144 + n div 4096 mod 64 * 4096 + n div 64 mod 64 * 64 + n mod 64 = (n :: nat)"
proof -
  have d: "n div 4096 = n div 64 div 64" "n div 262144 = n div 64 div 64 div 64"
    by (simp_all add: div_mult2_eq [symmetric])
  have e: "n = 64 * (n div 64) + n mod 64" "n div 64 = 64 * (n div 64 div 64) + n div 64 mod 64"
    "n div 64 div 64 = 64 * (n div 64 div 64 div 64) + n div 64 div 64 mod 64"
    by simp_all
  show ?thesis unfolding d using e by linarith
qed

lemma b64_encode_chars: "x \<in> set (b64_encode bs) \<Longrightarrow> b64_val x \<noteq> None"
proof (induction bs rule: b64_encode.induct)
  case (1 a b c r)
  have "(unat a * 65536 + unat b * 256 + unat c) div 262144 < 64"
    by (intro triple_bounds unat_u8_less)
  with 1 show ?case by (auto simp: Let_def)
next
  case (2 a b)
  have "(unat a * 65536 + unat b * 256 + 0) div 262144 < 64"
    by (intro triple_bounds unat_u8_less) simp
  with 2 show ?case by (auto simp: Let_def)
next
  case (3 a)
  have "(unat a * 65536 + 0 * 256 + 0) div 262144 < 64"
    by (intro triple_bounds unat_u8_less) simp_all
  with 3 show ?case by (auto simp: Let_def)
qed simp

lemma b64_encode_no_dot [simp]: "CHR ''.'' \<notin> set (b64_encode bs)"
  using b64_encode_chars by fastforce

text \<open>Decoding undoes encoding.\<close>

lemma b64_encode_crlf: "filter (\<lambda>c. c \<noteq> CHR 0x0A \<and> c \<noteq> CHR 0x0D) (b64_encode bs) = b64_encode bs"
proof (rule filter_True)
  have "b64_val (CHR 0x0A) = None" "b64_val (CHR 0x0D) = None" by (simp_all add: b64_val_def)
  then show "\<forall>c\<in>set (b64_encode bs). c \<noteq> CHR 0x0A \<and> c \<noteq> CHR 0x0D"
    using b64_encode_chars by metis
qed

lemma b64_groups_encode:
  "b64_groups (map (\<lambda>c. the (b64_val c)) (b64_encode bs)) = Some bs"
proof (induction bs rule: b64_encode.induct)
  case (1 a b c r)
  let ?n = "unat a * 65536 + unat b * 256 + unat c"
  note t = triple_bounds [OF unat_u8_less unat_u8_less unat_u8_less, of a b c]
  have q: "?n div 262144 * 262144 + ?n div 4096 mod 64 * 4096 + ?n div 64 mod 64 * 64 + ?n mod 64 = ?n"
    by (rule quad_join)
  show ?case using 1 t by (simp add: Let_def q)
next
  case (2 a b)
  let ?n = "unat a * 65536 + unat b * 256 + 0"
  note t = triple_bounds [OF unat_u8_less unat_u8_less, of 0 a b]
  have z: "?n mod 64 = 0"
  proof -
    have "?n = 64 * (unat a * 1024 + unat b * 4)" by simp
    then show ?thesis by (metis mod_mult_self1_is_0)
  qed
  have q: "?n div 262144 * 262144 + ?n div 4096 mod 64 * 4096 + ?n div 64 mod 64 * 64 = ?n"
    using quad_join [of ?n] z by simp
  show ?case using t q by (simp add: Let_def)
next
  case (3 a)
  let ?n = "unat a * 65536 + 0 * 256 + 0"
  note t = triple_bounds [OF unat_u8_less, of 0 0 a]
  have z: "?n mod 64 = 0" "?n div 64 mod 64 = 0"
  proof -
    have e: "?n = 64 * (64 * (unat a * 16))" by simp
    then show "?n mod 64 = 0" by (metis mod_mult_self1_is_0)
    have "?n div 64 = 64 * (unat a * 16)" by (subst e) simp
    then show "?n div 64 mod 64 = 0" by simp
  qed
  have q: "?n div 262144 * 262144 + ?n div 4096 mod 64 * 4096 = ?n"
    using quad_join [of ?n] z by simp
  show ?case using t q by (simp add: Let_def)
qed simp

lemma b64_decode_encode [simp, go_simps]: "b64_decode (b64_encode bs) = Some bs"
proof -
  have "None \<notin> set (map b64_val (b64_encode bs))"
    using b64_encode_chars by fastforce
  then show ?thesis
    by (simp add: b64_decode_def b64_encode_crlf b64_groups_encode o_def)
qed

end
