(* ===== verification/Ingest_Handler.thy ===== *)
theory Ingest_Handler
  imports Ingest_Validation Queue Go_Crypto
begin

text \<open>
  Package \<open>ingestion\<close>, \<open>handler.go\<close>: the endpoints of the ingestion API. The decoded body is
  an argument (\<^const>\<open>None\<close> when \<open>json.Decode\<close> fails), and so is the clock. The publisher is
  the interface \<open>event_publisher\<close> of theory \<open>Queue\<close>.
\<close>

section \<open>Responses\<close>

definition writeError ::
    "gotime \<Rightarrow> int \<Rightarrow> string \<Rightarrow> string \<Rightarrow> (string \<times> json) list option \<Rightarrow> response \<Rightarrow> response" where
  "writeError now status code msg details w =
     (SetHeader ''Content-Type'' ''application/json'' w)
       \<lparr>rs_Status := status,
        rs_Body := JObj
          [(''error'', JObj ([(''code'', JStr code), (''message'', JStr msg)]
              @ (case details of None \<Rightarrow> [] | Some d \<Rightarrow> [(''details'', JObj d)]))),
           (''meta'', JObj [(''timestamp'', JTime now)])]\<rparr>"

definition writeJSON :: "int \<Rightarrow> json \<Rightarrow> response \<Rightarrow> response" where
  "writeJSON status data w =
     (SetHeader ''Content-Type'' ''application/json'' w)\<lparr>rs_Status := status, rs_Body := data\<rparr>"

lemma writeError_status [simp, go_simps]: "rs_Status (writeError now st c m d w) = st"
  by (simp add: writeError_def)

lemma writeJSON_simps [simp, go_simps]:
  "rs_Status (writeJSON st d w) = st" "rs_Body (writeJSON st d w) = d"
  by (simp_all add: writeJSON_def)

definition OrgIDFromContext :: "reqctx \<Rightarrow> string" where
  "OrgIDFromContext c = (case ctx_OrgID c of None \<Rightarrow> [] | Some v \<Rightarrow> v)"

definition OrgTierFromContext :: "reqctx \<Rightarrow> OrgTier" where
  "OrgTierFromContext c = (case ctx_OrgTier c of None \<Rightarrow> [] | Some v \<Rightarrow> v)"

definition RequestIDFromContext :: "reqctx \<Rightarrow> string" where
  "RequestIDFromContext c = (case ctx_RequestID c of None \<Rightarrow> [] | Some v \<Rightarrow> v)"

text \<open>Field errors as they appear in a response.\<close>

definition message_json :: "message \<Rightarrow> json" where
  "message_json m =
     (case m of
        Msg s \<Rightarrow> JStr s
      | KeyTooLong k \<Rightarrow> JObj [(''key_too_long'', JStr k)]
      | KeyNotAlnum k \<Rightarrow> JObj [(''key_not_alphanumeric'', JStr k)]
      | ValueTooLong k \<Rightarrow> JObj [(''value_too_long'', JStr k)])"

definition field_error_json :: "FieldError \<Rightarrow> json" where
  "field_error_json e =
     JObj [(''field'', JStr (fe_Field e)), (''message'', message_json (fe_Message e))]"

section \<open>Building the queued event\<close>

definition sha256Hex :: "string \<Rightarrow> string" where
  "sha256Hex s = EncodeToString (sha256 (bytes_of s))"

definition deref :: "u32 option \<Rightarrow> u32" where
  "deref p = (case p of None \<Rightarrow> 0 | Some v \<Rightarrow> v)"

definition buildProtoEvent :: "gotime \<Rightarrow> u64 \<Rightarrow> EventRequest \<Rightarrow> LLMEvent" where
  "buildProtoEvent now orgID req =
     (let ts = (case parse_RFC3339Nano (er_Timestamp req) of None \<Rightarrow> zero_time | Some t \<Rightarrow> t);
          totalTokens = deref (er_PromptTokens req) + deref (er_CompletionTokens req);
          st1 = (if er_Prompt req \<noteq> None then S3Status_PENDING else S3Status_NONE);
          st2 = (if er_Response req \<noteq> None \<and> st1 = S3Status_NONE then S3Status_PENDING else st1)
      in \<lparr>pb_OrgId = orgID,
          pb_EventId = er_IdempotencyKey req,
          pb_ProjectId = [],
          pb_Timestamp = ts,
          pb_InsertedAt = now\<lparr>t_off := 0\<rparr>,
          pb_Model = er_Model req,
          pb_Provider = er_Provider req,
          pb_PromptTokens = deref (er_PromptTokens req),
          pb_CompletionTokens = deref (er_CompletionTokens req),
          pb_TotalTokens = totalTokens,
          pb_CostUsd = 0,
          pb_LatencyMs = deref (er_LatencyMs req),
          pb_StatusCode = deref (er_StatusCode req),
          pb_Tags = Some (case er_Tags req of None \<Rightarrow> Map.empty | Some tags \<Rightarrow> map_of tags),
          pb_Prompt = (case er_Prompt req of None \<Rightarrow> [] | Some p \<Rightarrow> p),
          pb_Response = (case er_Response req of None \<Rightarrow> [] | Some p \<Rightarrow> p),
          pb_PromptHash = (case er_Prompt req of None \<Rightarrow> [] | Some p \<Rightarrow> sha256Hex p),
          pb_S3Key = [],
          pb_S3Status = st2,
          pb_SchemaVersion = 1\<rparr>)"

section \<open>POST /v1/events\<close>

definition accepted_json :: "reqctx \<Rightarrow> gotime \<Rightarrow> (string \<times> json) list \<Rightarrow> json" where
  "accepted_json c now data =
     JObj [(''data'', JObj data),
           (''meta'', JObj [(''request_id'', JStr (RequestIDFromContext c)), (''timestamp'', JTime now)])]"

definition HandleEvent ::
    "('s \<Rightarrow> u64 \<Rightarrow> LLMEvent \<Rightarrow> 's \<times> bool) \<Rightarrow> gotime \<Rightarrow> EventRequest option \<Rightarrow> 's handler" where
  "HandleEvent publish now body st r w =
     (if rq_Method r \<noteq> ''POST''
      then (st, writeError now 405 ''METHOD_NOT_ALLOWED'' ''Method not allowed'' None w)
      else (case body of
        None \<Rightarrow> (st, writeError now 400 ''VALIDATION_ERROR'' ''Invalid request body'' None w)
      | Some req0 \<Rightarrow>
          (case ValidateEvent now req0 of (fieldErrors, req) \<Rightarrow>
            if 0 < length fieldErrors
            then (st, writeError now 400 ''VALIDATION_ERROR'' ''Invalid request body''
                    (Some [(''fields'', JArr (map field_error_json fieldErrors))]) w)
            else
              let orgIDUint = OrgIDToUint64 (OrgIDFromContext (rq_Ctx r));
                  event = buildProtoEvent now orgIDUint req
              in (case publish st orgIDUint event of (st', ok) \<Rightarrow>
                   if \<not> ok
                   then (st', writeError now 503 ''SERVICE_UNAVAILABLE''
                           ''Ingestion temporarily unavailable. Retry later.''
                           (Some [(''retry_after_ms'', JInt 5000)]) w)
                   else (st', writeJSON 202
                           (accepted_json (rq_Ctx r) now [(''accepted'', JInt 1)]) w)))))"

section \<open>POST /v1/events/batch\<close>

definition batch_error :: "nat \<Rightarrow> EventRequest \<Rightarrow> json \<Rightarrow> json" where
  "batch_error i req err =
     JObj [(''index'', JInt (int i)), (''idempotency_key'', JStr (er_IdempotencyKey req)),
           (''error'', err)]"

text \<open>The loop over the events, with its index and its three accumulators.\<close>

fun batch_loop ::
    "('s \<Rightarrow> u64 \<Rightarrow> LLMEvent \<Rightarrow> 's \<times> bool) \<Rightarrow> gotime \<Rightarrow> u64 \<Rightarrow> nat \<Rightarrow> EventRequest list
     \<Rightarrow> 's \<Rightarrow> nat \<Rightarrow> nat \<Rightarrow> json list \<Rightarrow> 's \<times> nat \<times> nat \<times> json list" where
  "batch_loop publish now org i [] st acc rej errs = (st, acc, rej, errs)"
| "batch_loop publish now org i (e # es) st acc rej errs =
     (case ValidateEvent now e of (fieldErrors, e') \<Rightarrow>
       if 0 < length fieldErrors
       then batch_loop publish now org (i + 1) es st acc (rej + 1)
              (errs @ [batch_error i e' (field_error_json (fieldErrors ! 0))])
       else (case publish st org (buildProtoEvent now org e') of (st', ok) \<Rightarrow>
              if \<not> ok
              then batch_loop publish now org (i + 1) es st' acc (rej + 1)
                     (errs @ [batch_error i e' (JObj [(''message'', JStr ''failed to enqueue'')])])
              else batch_loop publish now org (i + 1) es st' (acc + 1) rej errs))"

definition HandleBatch ::
    "('s \<Rightarrow> u64 \<Rightarrow> LLMEvent \<Rightarrow> 's \<times> bool) \<Rightarrow> gotime \<Rightarrow> EventRequest list option \<Rightarrow> 's handler" where
  "HandleBatch publish now body st r w =
     (if rq_Method r \<noteq> ''POST''
      then (st, writeError now 405 ''METHOD_NOT_ALLOWED'' ''Method not allowed'' None w)
      else (case body of
        None \<Rightarrow> (st, writeError now 400 ''VALIDATION_ERROR'' ''Invalid request body'' None w)
      | Some events \<Rightarrow>
          if 0 < length (ValidateBatch events)
          then (st, writeError now 400 ''VALIDATION_ERROR'' ''Invalid request body''
                  (Some [(''fields'', JArr (map field_error_json (ValidateBatch events)))]) w)
          else
            (case batch_loop publish now (OrgIDToUint64 (OrgIDFromContext (rq_Ctx r))) 0 events
                    st 0 0 [] of (st', acc, rej, errs) \<Rightarrow>
              (st', writeJSON 202
                 (accepted_json (rq_Ctx r) now
                    ([(''accepted'', JInt (int acc)), (''rejected'', JInt (int rej))]
                     @ (if 0 < length errs then [(''errors'', JArr errs)] else []))) w))))"

text \<open>GET /health.\<close>

definition HandleHealth :: "'s handler" where
  "HandleHealth st r w = (st, writeJSON 200 (JObj [(''status'', JStr ''ok'')]) w)"

section \<open>What the handlers do to the queue\<close>

text \<open>
  The specification of a batch: the events of the batch that were queued form a subsequence of
  the valid ones, in order, each built from its request for the organisation of the context.
\<close>

definition built :: "gotime \<Rightarrow> u64 \<Rightarrow> EventRequest list \<Rightarrow> (u64 \<times> LLMEvent) list" where
  "built now org es =
     map (\<lambda>e. (org, buildProtoEvent now org (snd (ValidateEvent now e))))
       (filter (\<lambda>e. valid_event now e) es)"

lemma built_Cons:
  "built now org (e # es) =
     (if valid_event now e
      then (org, buildProtoEvent now org (snd (ValidateEvent now e))) # built now org es
      else built now org es)"
  by (simp add: built_def)

context event_publisher
begin

lemma batch_loop_spec:
  assumes "batch_loop publish now org i es st acc rej errs = (st', acc', rej', errs')"
  shows "\<exists>new. queued st' = queued st @ new \<and> subseq new (built now org es)
           \<and> acc' = acc + length new \<and> acc' + rej' = acc + rej + length es
           \<and> length errs' + rej = length errs + rej'"
  using assms
proof (induction es arbitrary: i st acc rej errs)
  case Nil
  then show ?case by (auto intro!: exI [of _ "[]"])
next
  case (Cons e es)
  obtain fe e' where v: "ValidateEvent now e = (fe, e')" by fastforce
  have fe: "fe = [] \<longleftrightarrow> valid_event now e" and e': "e' = snd (ValidateEvent now e)"
    using ValidateEvent_Nil [of now e] v by simp_all
  let ?pe = "buildProtoEvent now org e'"
  obtain st1 ok where p: "publish st org ?pe = (st1, ok)" by fastforce
  consider "fe \<noteq> []" | "fe = []" "\<not> ok" | "fe = []" "ok" by blast
  then show ?case
  proof cases
    case 1
    with Cons.prems v have "batch_loop publish now org (i + 1) es st acc (rej + 1)
        (errs @ [batch_error i e' (field_error_json (fe ! 0))]) = (st', acc', rej', errs')" by simp
    from Cons.IH [OF this] 1 fe show ?thesis by (fastforce simp: built_Cons)
  next
    case 2
    with Cons.prems v p have "batch_loop publish now org (i + 1) es st1 acc (rej + 1)
        (errs @ [batch_error i e' (JObj [(''message'', JStr ''failed to enqueue'')])])
        = (st', acc', rej', errs')" by simp
    from Cons.IH [OF this] obtain new where
      n: "queued st' = queued st1 @ new" "subseq new (built now org es)" "acc' = acc + length new"
        "acc' + rej' = acc + (rej + 1) + length es" "length errs' + (rej + 1) = Suc (length errs) + rej'"
      by auto
    moreover have "queued st1 = queued st" using p 2 by (auto intro: publish_err)
    ultimately show ?thesis using 2 fe by (auto simp: built_Cons intro!: exI [of _ new])
  next
    case 3
    with Cons.prems v p have "batch_loop publish now org (i + 1) es st1 (acc + 1) rej errs
        = (st', acc', rej', errs')" by simp
    from Cons.IH [OF this] obtain new where
      n: "queued st' = queued st1 @ new" "subseq new (built now org es)" "acc' = acc + 1 + length new"
        "acc' + rej' = acc + 1 + rej + length es" "length errs' + rej = length errs + rej'"
      by auto
    moreover have "queued st1 = queued st @ [(org, ?pe)]" using p 3 by (auto intro: publish_ok)
    ultimately show ?thesis using 3 fe e'
      by (auto simp: built_Cons intro!: exI [of _ "(org, ?pe) # new"])
  qed
qed

text \<open>While the publisher does not fail on the events built, exactly the valid events are queued.\<close>

lemma batch_loop_all:
  assumes "batch_loop publish now org i es st acc rej errs = (st', acc', rej', errs')"
    and "up st" and "\<forall>x \<in> set (built now org es). good (snd x)"
    and up: "\<And>s k e. up s \<Longrightarrow> good e \<Longrightarrow> snd (publish s k e) \<and> up (fst (publish s k e))"
  shows "queued st' = queued st @ built now org es"
  using assms(1-3)
proof (induction es arbitrary: i st acc rej errs)
  case Nil
  then show ?case by (simp add: built_def)
next
  case (Cons e es)
  obtain fe e' where v: "ValidateEvent now e = (fe, e')" by fastforce
  have fe: "fe = [] \<longleftrightarrow> valid_event now e" and e': "e' = snd (ValidateEvent now e)"
    using ValidateEvent_Nil [of now e] v by simp_all
  show ?case
  proof (cases "fe = []")
    case True
    with Cons.prems(3) fe e' have g: "good (buildProtoEvent now org e')"
      and r: "\<forall>x \<in> set (built now org es). good (snd x)" by (simp_all add: built_Cons)
    obtain st1 where p: "publish st org (buildProtoEvent now org e') = (st1, True)" and u: "up st1"
      using up [OF Cons.prems(2) g, of org] by (cases "publish st org (buildProtoEvent now org e')") auto
    with True Cons.prems(1) v r Cons.IH have "queued st' = queued st1 @ built now org es" by auto
    with publish_ok [OF p] True fe e' show ?thesis by (simp add: built_Cons)
  next
    case False
    with Cons.prems v fe Cons.IH have "queued st' = queued st @ built now org es" by (auto simp: built_Cons)
    with False fe show ?thesis by (simp add: built_Cons)
  qed
qed

lemma HandleEvent_spec:
  assumes "HandleEvent publish now body st r w = (st', w')"
  shows "(rs_Status w' = 202 \<and> rq_Method r = ''POST'' \<and> (\<exists>req. body = Some req \<and> valid_event now req
            \<and> queued st' = queued st @ [(OrgIDToUint64 (OrgIDFromContext (rq_Ctx r)),
                 buildProtoEvent now (OrgIDToUint64 (OrgIDFromContext (rq_Ctx r)))
                   (snd (ValidateEvent now req)))]))
         \<or> (rs_Status w' \<in> {400, 405, 503} \<and> queued st' = queued st)"
proof -
  have e: "fst (ValidateEvent now req) = [] \<longleftrightarrow> valid_event now req" for req
    by (rule ValidateEvent_Nil)
  show ?thesis
    using assms e publish_ok publish_err
    by (fastforce simp: HandleEvent_def Let_def split: if_splits option.splits prod.splits)
qed

end

section \<open>The handlers over the queue\<close>

lemma HandleBatch_cases:
  "HandleBatch publish now (Some events) st r w =
     (if rq_Method r \<noteq> ''POST''
      then (st, writeError now 405 ''METHOD_NOT_ALLOWED'' ''Method not allowed'' None w)
      else if ValidateBatch events \<noteq> []
      then (st, writeError now 400 ''VALIDATION_ERROR'' ''Invalid request body''
                  (Some [(''fields'', JArr (map field_error_json (ValidateBatch events)))]) w)
      else (case batch_loop publish now (OrgIDToUint64 (OrgIDFromContext (rq_Ctx r))) 0 events
                    st 0 0 [] of (st', acc, rej, errs) \<Rightarrow>
              (st', writeJSON 202
                 (accepted_json (rq_Ctx r) now
                    ([(''accepted'', JInt (int acc)), (''rejected'', JInt (int rej))]
                     @ (if errs \<noteq> [] then [(''errors'', JArr errs)] else []))) w)))"
  by (simp add: HandleBatch_def)

lemma js_Publish_up:
  assumes "\<forall>n. \<not> js_fails js n" and "marshals e"
  shows "snd (Publish js k e) \<and> (\<forall>n. \<not> js_fails (fst (Publish js k e)) n)"
  using assms by (simp add: Publish_def js_Publish_def Let_def)

text \<open>
  C6: A batch request either answers 202 and has then appended to the queue a subsequence of its
  valid events, in request order, each one built from its request for the organisation of the
  authenticated key, and reports as accepted exactly the number it queued and as rejected the
  rest of the batch; or it answers 400 or 405 and the queue is as it was.
\<close>

theorem HandleBatch_accounts:
  "case HandleBatch Publish now (Some events) js r w of (js', w') \<Rightarrow>
     if rs_Status w' = 202
     then (\<exists>new extra. js_queued js' = js_queued js @ new
            \<and> subseq new (built now (OrgIDToUint64 (OrgIDFromContext (rq_Ctx r))) events)
            \<and> rs_Body w' = accepted_json (rq_Ctx r) now
                 ([(''accepted'', JInt (int (length new))),
                   (''rejected'', JInt (int (length events) - int (length new)))] @ extra))
     else rs_Status w' \<in> {400, 405} \<and> js' = js"
proof -
  let ?org = "OrgIDToUint64 (OrgIDFromContext (rq_Ctx r))"
  obtain js' acc rej errs where b: "batch_loop Publish now ?org 0 events js 0 0 [] = (js', acc, rej, errs)"
    by (cases "batch_loop Publish now ?org 0 events js 0 0 []") auto
  from nats.batch_loop_spec [OF b] obtain new where
    "js_queued js' = js_queued js @ new" "subseq new (built now ?org events)"
    "acc = length new" "int rej = int (length events) - int (length new)" by auto
  with b show ?thesis by (auto simp: HandleBatch_cases)
qed

text \<open>
  While no publication fails, a well-formed batch queues exactly its valid events, in the
  order of the request, when each can be encoded.
\<close>

lemma HandleBatch_queues_all_valid:
  assumes "\<forall>n. \<not> js_fails js n" and "rq_Method r = ''POST''" and "ValidateBatch events = []"
    and "\<forall>x \<in> set (built now (OrgIDToUint64 (OrgIDFromContext (rq_Ctx r))) events). marshals (snd x)"
  shows "js_queued (fst (HandleBatch Publish now (Some events) js r w)) =
           js_queued js @ built now (OrgIDToUint64 (OrgIDFromContext (rq_Ctx r))) events"
proof -
  let ?org = "OrgIDToUint64 (OrgIDFromContext (rq_Ctx r))"
  obtain js' acc rej errs where b: "batch_loop Publish now ?org 0 events js 0 0 [] = (js', acc, rej, errs)"
    by (cases "batch_loop Publish now ?org 0 events js 0 0 []") auto
  have "js_queued js' = js_queued js @ built now ?org events"
    by (rule nats.batch_loop_all [OF b, where up = "\<lambda>s. \<forall>n. \<not> js_fails s n" and good = marshals])
      (use assms(1,4) js_Publish_up in auto)
  with b assms(2,3) show ?thesis by (simp add: HandleBatch_cases)
qed

text \<open>
  POST /v1/events answers 202 only after the one event of the request, valid and built for
  the organisation of the key, is at the end of the queue; every other answer is a 400, 405 or
  503 and leaves the queue unchanged.
\<close>

lemma HandleEvent_queues:
  "case HandleEvent Publish now body js r w of (js', w') \<Rightarrow>
     if rs_Status w' = 202
     then (\<exists>req. body = Some req \<and> valid_event now req
            \<and> js_queued js' = js_queued js @
                [(OrgIDToUint64 (OrgIDFromContext (rq_Ctx r)),
                  buildProtoEvent now (OrgIDToUint64 (OrgIDFromContext (rq_Ctx r)))
                    (snd (ValidateEvent now req)))])
     else rs_Status w' \<in> {400, 405, 503} \<and> js_queued js' = js_queued js"
  by (cases "HandleEvent Publish now body js r w") (use nats.HandleEvent_spec in fastforce)

text \<open>A request with one valid and one invalid event, and a queue that is up.\<close>

definition sample_event :: EventRequest where
  "sample_event =
     \<lparr>er_IdempotencyKey = ''0190a5b3-7f4e-7d3a-9c1b-2f6e8d4a5b6c'',
      er_Timestamp = ''2024-05-01T12:00:00Z'', er_Model = ''gpt-4o'', er_Provider = ''openai'',
      er_PromptTokens = Some 100, er_CompletionTokens = Some 50, er_LatencyMs = Some 800,
      er_StatusCode = Some 200, er_Tags = None, er_Prompt = None, er_Response = None\<rparr>"

definition sample_request :: request where
  "sample_request =
     \<lparr>rq_Method = ''POST'', rq_Path = ''/v1/events/batch'', rq_Header = (\<lambda>_. []), rq_Cookies = [],
      rq_Query = (\<lambda>_. []), rq_RemoteAddr = [], rq_Ctx = empty_ctx\<rparr>"

definition sample_now :: gotime where
  "sample_now = \<lparr>t_ns = 1714564800 * second, t_off = 0\<rparr>"

end
