(* ===== verification/Redis_Store.thy ===== *)
theory Redis_Store
  imports Go_HTTP
begin

text \<open>
  Package \<open>storage\<close>, \<open>redis.go\<close>: the API key cache, the rate limiter and the dashboard cache.

  Redis itself is not part of the repository. Its documented behaviour is a map from keys to
  values with an optional expiry instant; a command on a key whose instant has passed sees no
  key. Which commands fail is an arbitrary schedule. A value is kept as what was marshalled
  into it.
\<close>

section \<open>Errors of the stores\<close>

datatype store_error = RedisError | PostgresError | ClickHouseError | ObjectStoreError | DecodeError

type_synonym 'a result = "store_error + 'a"

section \<open>The server\<close>

record cachedAPIKey =
  ca_ID :: string
  ca_OrgID :: string
  ca_KeyPrefix :: string
  ca_Name :: string
  ca_Scopes :: "string list"
  ca_Tier :: OrgTier
  ca_RevokedAt :: "gotime option"

datatype redis_value = RKey cachedAPIKey | RCount int | RBytes json

record redis =
  rd_data :: "string \<rightharpoonup> redis_value \<times> int option"
  rd_cmds :: nat
  rd_fails :: "nat \<Rightarrow> bool"

text \<open>The value that a command at instant \<open>now\<close> sees.\<close>

definition rd_live :: "redis \<Rightarrow> gotime \<Rightarrow> string \<Rightarrow> redis_value option" where
  "rd_live s now k =
     (case rd_data s k of
        None \<Rightarrow> None
      | Some (v, None) \<Rightarrow> Some v
      | Some (v, Some e) \<Rightarrow> if t_ns now < e then Some v else None)"

definition rd_exec :: "(redis \<Rightarrow> redis \<times> 'a result) \<Rightarrow> redis \<Rightarrow> redis \<times> 'a result" where
  "rd_exec f s =
     (let s' = s\<lparr>rd_cmds := rd_cmds s + 1\<rparr>
      in if rd_fails s (rd_cmds s) then (s', Inl RedisError) else f s')"

definition rd_Get :: "redis \<Rightarrow> gotime \<Rightarrow> string \<Rightarrow> redis \<times> redis_value option result" where
  "rd_Get s now k = rd_exec (\<lambda>s. (s, Inr (rd_live s now k))) s"

definition rd_Set :: "redis \<Rightarrow> gotime \<Rightarrow> string \<Rightarrow> redis_value \<Rightarrow> int \<Rightarrow> redis \<times> unit result" where
  "rd_Set s now k v ttl =
     rd_exec (\<lambda>s. (s\<lparr>rd_data := (rd_data s)(k \<mapsto> (v, if ttl = 0 then None else Some (t_ns now + ttl)))\<rparr>,
                   Inr ())) s"

definition rd_Del :: "redis \<Rightarrow> string \<Rightarrow> redis \<times> unit result" where
  "rd_Del s k = rd_exec (\<lambda>s. (s\<lparr>rd_data := (rd_data s)(k := None)\<rparr>, Inr ())) s"

text \<open>
  The pipeline of INCR and EXPIRE. INCR treats an absent key as 0 and fails on a value that is
  not a number.
\<close>

definition rd_IncrExpire :: "redis \<Rightarrow> gotime \<Rightarrow> string \<Rightarrow> int \<Rightarrow> redis \<times> int result" where
  "rd_IncrExpire s now k window =
     rd_exec (\<lambda>s.
       case rd_live s now k of
         None \<Rightarrow> (s\<lparr>rd_data := (rd_data s)(k \<mapsto> (RCount 1, Some (t_ns now + window)))\<rparr>, Inr 1)
       | Some (RCount c) \<Rightarrow>
           (s\<lparr>rd_data := (rd_data s)(k \<mapsto> (RCount (c + 1), Some (t_ns now + window)))\<rparr>, Inr (c + 1))
       | Some _ \<Rightarrow> (s, Inl RedisError)) s"

lemmas rd_defs = rd_exec_def rd_Get_def rd_Set_def rd_Del_def rd_IncrExpire_def Let_def

section \<open>The API key cache\<close>

definition apiKeyCacheKey :: "string \<Rightarrow> string" where
  "apiKeyCacheKey keyHash = ''apikey:'' @ keyHash"

definition cached_of :: "APIKey \<Rightarrow> cachedAPIKey" where
  "cached_of key =
     \<lparr>ca_ID = key_ID key, ca_OrgID = key_OrgID key, ca_KeyPrefix = key_KeyPrefix key,
      ca_Name = key_Name key, ca_Scopes = key_Scopes key, ca_Tier = key_Tier key,
      ca_RevokedAt = key_RevokedAt key\<rparr>"

definition of_cached :: "string \<Rightarrow> cachedAPIKey \<Rightarrow> APIKey" where
  "of_cached keyHash c =
     \<lparr>key_ID = ca_ID c, key_OrgID = ca_OrgID c, key_ProjectID = None,
      key_KeyPrefix = ca_KeyPrefix c, key_KeyHash = keyHash, key_Name = ca_Name c,
      key_Scopes = ca_Scopes c, key_LastUsedAt = None, key_CreatedAt = zero_time,
      key_RevokedAt = ca_RevokedAt c, key_Tier = ca_Tier c\<rparr>"

definition GetCachedAPIKey :: "redis \<Rightarrow> gotime \<Rightarrow> string \<Rightarrow> redis \<times> APIKey option result" where
  "GetCachedAPIKey s now keyHash =
     (case rd_Get s now (apiKeyCacheKey keyHash) of
        (s', Inl e) \<Rightarrow> (s', Inl e)
      | (s', Inr None) \<Rightarrow> (s', Inr None)
      | (s', Inr (Some (RKey c))) \<Rightarrow> (s', Inr (Some (of_cached keyHash c)))
      | (s', Inr (Some _)) \<Rightarrow> (s', Inl DecodeError))"

definition SetCachedAPIKey ::
    "redis \<Rightarrow> gotime \<Rightarrow> string \<Rightarrow> APIKey \<Rightarrow> int \<Rightarrow> redis \<times> unit result" where
  "SetCachedAPIKey s now keyHash key ttl =
     rd_Set s now (apiKeyCacheKey keyHash) (RKey (cached_of key)) ttl"

definition DeleteCachedAPIKey :: "redis \<Rightarrow> string \<Rightarrow> redis \<times> unit result" where
  "DeleteCachedAPIKey s keyHash = rd_Del s (apiKeyCacheKey keyHash)"

section \<open>The rate limiter\<close>

definition checkRateLimit ::
    "redis \<Rightarrow> gotime \<Rightarrow> string \<Rightarrow> int \<Rightarrow> int \<Rightarrow> redis \<times> (bool \<times> int \<times> gotime) result" where
  "checkRateLimit s now key limit window =
     (case rd_IncrExpire s now key window of
        (s', Inl e) \<Rightarrow> (s', Inl e)
      | (s', Inr count) \<Rightarrow>
          let remaining = limit - count;
              remaining = (if remaining < 0 then 0 else remaining);
              resetAt = Add now window
          in (s', Inr (count \<le> limit, remaining, resetAt)))"

definition AllowIP ::
    "redis \<Rightarrow> gotime \<Rightarrow> string \<Rightarrow> int \<Rightarrow> int \<Rightarrow> redis \<times> (bool \<times> int \<times> gotime) result" where
  "AllowIP s now ip limit window = checkRateLimit s now (''rl:ip:'' @ ip) limit window"

definition AllowOrg ::
    "redis \<Rightarrow> gotime \<Rightarrow> string \<Rightarrow> int \<Rightarrow> int \<Rightarrow> redis \<times> (bool \<times> int \<times> gotime) result" where
  "AllowOrg s now orgID limit window =
     checkRateLimit s now (''rl:org:'' @ orgID @ '':ingestion'') limit window"

section \<open>The dashboard cache\<close>

definition GetCached :: "redis \<Rightarrow> gotime \<Rightarrow> string \<Rightarrow> redis \<times> json option result" where
  "GetCached s now key =
     (case rd_Get s now key of
        (s', Inl e) \<Rightarrow> (s', Inl e)
      | (s', Inr None) \<Rightarrow> (s', Inr None)
      | (s', Inr (Some (RBytes b))) \<Rightarrow> (s', Inr (Some b))
      | (s', Inr (Some _)) \<Rightarrow> (s', Inl DecodeError))"

definition SetCached :: "redis \<Rightarrow> gotime \<Rightarrow> string \<Rightarrow> json \<Rightarrow> int \<Rightarrow> redis \<times> unit result" where
  "SetCached s now key data ttl = rd_Set s now key (RBytes data) ttl"

section \<open>The cache interface\<close>

text \<open>
  What the authentication relies on (\<open>APIKeyCache\<close>): the entries that a lookup can return at or
  after an instant. A lookup returns only entries and creates none; storing a key adds at most
  that key, under that hash, until its time to live is over; deleting adds none.
\<close>

locale api_key_cache =
  fixes get_cached :: "'s \<Rightarrow> gotime \<Rightarrow> string \<Rightarrow> 's \<times> APIKey option result"
    and set_cached :: "'s \<Rightarrow> gotime \<Rightarrow> string \<Rightarrow> APIKey \<Rightarrow> int \<Rightarrow> 's \<times> unit result"
    and del_cached :: "'s \<Rightarrow> string \<Rightarrow> 's \<times> unit result"
    and entry :: "'s \<Rightarrow> gotime \<Rightarrow> string \<Rightarrow> APIKey option"
    and stored :: "string \<Rightarrow> APIKey \<Rightarrow> APIKey"
  assumes get_hit: "get_cached s now h = (s', Inr (Some k)) \<Longrightarrow> entry s now h = Some k"
    and get_entry: "entry (fst (get_cached s now h)) = entry s"
    and set_entry: "0 < ttl \<Longrightarrow> entry (fst (set_cached s now h k ttl)) t h' = Some k' \<Longrightarrow>
          entry s t h' = Some k' \<or> (h' = h \<and> k' = stored h k \<and> t_ns t < t_ns now + ttl)"
    and del_entry: "entry (fst (del_cached s h)) t h' = Some k' \<Longrightarrow> entry s t h' = Some k'"

definition key_entry :: "redis \<Rightarrow> gotime \<Rightarrow> string \<Rightarrow> APIKey option" where
  "key_entry s t h =
     (case rd_live s t (apiKeyCacheKey h) of Some (RKey c) \<Rightarrow> Some (of_cached h c) | _ \<Rightarrow> None)"

definition stored_key :: "string \<Rightarrow> APIKey \<Rightarrow> APIKey" where
  "stored_key h k = of_cached h (cached_of k)"

interpretation redis_keys:
  api_key_cache GetCachedAPIKey SetCachedAPIKey DeleteCachedAPIKey key_entry stored_key
proof unfold_locales
  fix s now h s' k
  assume "GetCachedAPIKey s now h = (s', Inr (Some k))"
  then show "key_entry s now h = Some k"
    by (auto simp: GetCachedAPIKey_def rd_defs key_entry_def rd_live_def
        split: if_splits option.splits redis_value.splits prod.splits)
next
  fix s now h
  show "key_entry (fst (GetCachedAPIKey s now h)) = key_entry s"
    by (auto simp: GetCachedAPIKey_def rd_defs key_entry_def rd_live_def fun_eq_iff
        split: option.split redis_value.split)
next
  fix ttl s now h k t h' k'
  assume "(0 :: int) < ttl" "key_entry (fst (SetCachedAPIKey s now h k ttl)) t h' = Some k'"
  then show "key_entry s t h' = Some k' \<or> h' = h \<and> k' = stored_key h k \<and> t_ns t < t_ns now + ttl"
    by (auto simp: SetCachedAPIKey_def rd_defs key_entry_def stored_key_def rd_live_def apiKeyCacheKey_def
        split: if_splits option.splits)
next
  fix s h t h' k'
  assume "key_entry (fst (DeleteCachedAPIKey s h)) t h' = Some k'"
  then show "key_entry s t h' = Some k'"
    by (auto simp: DeleteCachedAPIKey_def rd_defs key_entry_def rd_live_def split: if_splits)
qed

section \<open>The rate limit over a sequence of requests\<close>

text \<open>The outcomes of a sequence of requests: admitted, or refused or failed.\<close>

fun ip_run :: "redis \<Rightarrow> int \<Rightarrow> int \<Rightarrow> (gotime \<times> string) list \<Rightarrow> redis \<times> bool list" where
  "ip_run s limit window [] = (s, [])"
| "ip_run s limit window ((now, ip) # rs) =
     (case AllowIP s now ip limit window of (s', res) \<Rightarrow>
        (case ip_run s' limit window rs of (s'', oks) \<Rightarrow>
          (s'', (case res of Inl _ \<Rightarrow> False | Inr (ok, _) \<Rightarrow> ok) # oks)))"

definition admitted :: "string \<Rightarrow> (gotime \<times> string) list \<Rightarrow> bool list \<Rightarrow> nat" where
  "admitted ip rs oks = length (filter (\<lambda>((_, ip'), ok). ip' = ip \<and> ok) (zip rs oks))"

lemma ip_run_append:
  "ip_run s limit window (xs @ ys) =
     (case ip_run s limit window xs of (s', oks) \<Rightarrow>
       (case ip_run s' limit window ys of (s'', oks') \<Rightarrow> (s'', oks @ oks')))"
  by (induction xs arbitrary: s) (auto split: prod.splits)

lemma ip_run_length: "length (snd (ip_run s limit window rs)) = length rs"
  by (induction rs arbitrary: s) (auto simp: case_prod_unfold)

text \<open>Counters are never negative.\<close>

definition counts_ok :: "redis \<Rightarrow> bool" where
  "counts_ok s \<longleftrightarrow> (\<forall>k c e. rd_data s k = Some (RCount c, e) \<longrightarrow> 0 \<le> c)"

lemma AllowIP_counts:
  assumes "counts_ok s" shows "counts_ok (fst (AllowIP s now ip limit window))"
  using assms
  by (auto simp: AllowIP_def checkRateLimit_def rd_defs counts_ok_def rd_live_def
      split: option.splits redis_value.splits if_splits) force+

lemma ip_run_counts:
  "counts_ok s \<Longrightarrow> counts_ok (fst (ip_run s limit window rs))"
proof (induction rs arbitrary: s)
  case (Cons r rs)
  obtain now ip where r: "r = (now, ip)" by fastforce
  show ?case
    using Cons.IH [OF AllowIP_counts [OF Cons.prems]] r by (simp add: case_prod_unfold)
qed simp

text \<open>What one request does to the counter of an address.\<close>

definition ip_counter :: "redis \<Rightarrow> string \<Rightarrow> (redis_value \<times> int option) option" where
  "ip_counter s ip = rd_data s (''rl:ip:'' @ ip)"

lemma AllowIP_other:
  "ip' \<noteq> ip \<Longrightarrow> ip_counter (fst (AllowIP s now ip' limit window)) ip = ip_counter s ip"
  by (auto simp: AllowIP_def checkRateLimit_def rd_defs ip_counter_def
      split: option.splits redis_value.splits)

lemma AllowIP_live:
  assumes "ip_counter s ip = Some (RCount c, Some e)" "t_ns now < e"
    and "AllowIP s now ip limit window = (s', res)"
  shows "(res = Inl RedisError \<and> ip_counter s' ip = Some (RCount c, Some e))
       \<or> (\<exists>rem rst. res = Inr (c + 1 \<le> limit, rem, rst)
            \<and> ip_counter s' ip = Some (RCount (c + 1), Some (t_ns now + window)))"
  using assms
  by (auto simp: AllowIP_def checkRateLimit_def rd_defs ip_counter_def rd_live_def split: if_splits)

text \<open>Once the counter stands until \<open>T\<close>, the requests before \<open>T\<close> use up what is left of the limit.\<close>

lemma ip_run_live:
  assumes "ip_counter s ip = Some (RCount c, Some e)" "0 \<le> c"
    and "\<forall>r \<in> set rs. t_ns (fst r) < T \<and> T \<le> t_ns (fst r) + window" "T \<le> e"
  shows "int (admitted ip rs (snd (ip_run s limit window rs))) \<le> max 0 (limit - c)"
  using assms
proof (induction rs arbitrary: s c e)
  case Nil
  then show ?case by (simp add: admitted_def)
next
  case (Cons r rs)
  obtain now ip' where r: "r = (now, ip')" by fastforce
  obtain s' res where a: "AllowIP s now ip' limit window = (s', res)" by fastforce
  obtain s'' oks where n: "ip_run s' limit window rs = (s'', oks)" by fastforce
  show ?case
  proof (cases "ip' = ip")
    case False
    with AllowIP_other [OF False, of s now limit window] a Cons.prems(1)
    have "ip_counter s' ip = Some (RCount c, Some e)" by simp
    from Cons.IH [OF this] Cons.prems n False r a show ?thesis by (simp add: admitted_def)
  next
    case True
    have "t_ns now < e" using Cons.prems r by simp
    from AllowIP_live [OF Cons.prems(1) this a [unfolded True]] show ?thesis
    proof (elim disjE conjE exE)
      assume "res = Inl RedisError" "ip_counter s' ip = Some (RCount c, Some e)"
      with Cons.IH [of s' c e] Cons.prems n True r a show ?thesis by (simp add: admitted_def)
    next
      fix rem rst
      assume res: "res = Inr (c + 1 \<le> limit, rem, rst)"
        and s': "ip_counter s' ip = Some (RCount (c + 1), Some (t_ns now + window))"
      have "T \<le> t_ns now + window" using Cons.prems(3) r by simp
      with Cons.IH [OF s'] Cons.prems have
        "int (admitted ip rs (snd (ip_run s' limit window rs))) \<le> max 0 (limit - (c + 1))" by simp
      with n True r a res show ?thesis by (auto simp: admitted_def)
    qed
  qed
qed

lemma AllowIP_step:
  assumes "AllowIP s now ip limit window = (s', res)" "counts_ok s"
  shows "(\<exists>e. res = Inl e)
       \<or> (\<exists>c rem rst. 1 \<le> c \<and> res = Inr (c \<le> limit, rem, rst)
            \<and> ip_counter s' ip = Some (RCount c, Some (t_ns now + window)))"
  using assms
  by (auto simp: AllowIP_def checkRateLimit_def rd_defs ip_counter_def rd_live_def counts_ok_def
      split: if_splits option.splits redis_value.splits) (metis zero_le_one add_increasing)+

lemma ip_run_burst:
  assumes "counts_ok s" "sorted (map (t_ns \<circ> fst) rs)"
    and "\<forall>r \<in> set rs. t0 \<le> t_ns (fst r) \<and> t_ns (fst r) < t0 + window"
  shows "int (admitted ip rs (snd (ip_run s limit window rs))) \<le> max 0 limit"
  using assms
proof (induction rs arbitrary: s)
  case Nil
  then show ?case by (simp add: admitted_def)
next
  case (Cons r rs)
  obtain now ip' where r: "r = (now, ip')" by fastforce
  obtain s' res where a: "AllowIP s now ip' limit window = (s', res)" by fastforce
  obtain s'' oks where n: "ip_run s' limit window rs = (s'', oks)" by fastforce
  have s': "counts_ok s'" using AllowIP_counts [OF Cons.prems(1), of now ip' limit window] a by simp
  have IH: "int (admitted ip rs oks) \<le> max 0 limit" using Cons.IH [OF s'] Cons.prems n by simp
  show ?case
  proof (cases "ip' = ip \<and> (\<exists>x. res = Inr x)")
    case False
    with IH r a n show ?thesis by (cases res) (auto simp: admitted_def)
  next
    case True
    with AllowIP_step [OF a Cons.prems(1)] obtain c rem rst where
      c: "1 \<le> c" "res = Inr (c \<le> limit, rem, rst)"
        "ip_counter s' ip = Some (RCount c, Some (t_ns now + window))" by auto
    have "int (admitted ip rs (snd (ip_run s' limit window rs))) \<le> max 0 (limit - c)"
      by (rule ip_run_live [OF c(3)]) (use c(1) Cons.prems(2,3) r in auto)
    with c True r a n show ?thesis by (auto simp: admitted_def)
  qed
qed



text \<open>
  Each request also moves the expiry of the counter, so an address that never pauses for a whole
  window is admitted \<open>limit\<close> times altogether, however slow it is.
\<close>

lemma rd_live_cmds [simp]: "rd_live (s\<lparr>rd_cmds := n\<rparr>) = rd_live s"
  by (simp add: rd_live_def fun_eq_iff)

lemma steady_live:
  assumes "\<forall>n. \<not> rd_fails s n" "ip_counter s ip = Some (RCount c, Some e)"
    and "successively (\<lambda>t u. t_ns u < t_ns t + window) ts" "ts = [] \<or> t_ns (hd ts) < e"
  shows "snd (ip_run s limit window (map (\<lambda>t. (t, ip)) ts)) = map (\<lambda>i. c + int i < limit) [0..<length ts]"
  using assms
proof (induction ts arbitrary: s c e)
  case (Cons t ts)
  obtain s' res where a: "AllowIP s t ip limit window = (s', res)" by fastforce
  have f: "rd_fails s' = rd_fails s" and r: "\<exists>rem rst. res = Inr (c + 1 \<le> limit, rem, rst)"
    and s': "ip_counter s' ip = Some (RCount (c + 1), Some (t_ns t + window))"
    using Cons.prems a
    by (auto simp: AllowIP_def checkRateLimit_def rd_defs ip_counter_def rd_live_def split: if_splits)
  have "snd (ip_run s' limit window (map (\<lambda>t. (t, ip)) ts))
      = map (\<lambda>i. c + 1 + int i < limit) [0..<length ts]"
    by (rule Cons.IH [OF _ s']) (use f Cons.prems in \<open>auto simp: successively_Cons\<close>)
  with a r show ?case
    by (auto simp: map_upt_Suc add.assoc split: prod.splits simp del: upt_Suc)
qed simp

text \<open>
  The comments announce a sliding window, but a client of an idle address that sends its
  requests less than a window apart is refused from request number \<open>limit\<close> on, for ever.
\<close>

lemma AllowIP_steady_client_blocked:
  assumes "\<forall>n. \<not> rd_fails s n" and "rd_live s (hd ts) (''rl:ip:'' @ ip) = None"
    and "successively (\<lambda>t u. t_ns u < t_ns t + window) ts"
  shows "snd (ip_run s limit window (map (\<lambda>t. (t, ip)) ts)) = map (\<lambda>i. int i < limit) [0..<length ts]"
proof (cases ts)
  case (Cons t us)
  obtain s' res where a: "AllowIP s t ip limit window = (s', res)" by fastforce
  have f: "rd_fails s' = rd_fails s" and r: "\<exists>rem rst. res = Inr (1 \<le> limit, rem, rst)"
    and s': "ip_counter s' ip = Some (RCount 1, Some (t_ns t + window))"
    using assms(1,2) Cons a
    by (auto simp: AllowIP_def checkRateLimit_def rd_defs ip_counter_def rd_live_cmds)
  have "snd (ip_run s' limit window (map (\<lambda>t. (t, ip)) us)) = map (\<lambda>i. 1 + int i < limit) [0..<length us]"
    by (rule steady_live [OF _ s']) (use f assms Cons in \<open>auto simp: successively_Cons\<close>)
  with a r Cons show ?thesis
    by (auto simp: map_upt_Suc split: prod.splits simp del: upt_Suc)
qed simp

end
