(* ===== verification/Postgres_Store.thy ===== *)
theory Postgres_Store
  imports Redis_Store "HOL-Library.List_Lexorder" "HOL-Library.Char_ord" "HOL-Library.Product_Lexorder"
begin

text \<open>
  Package \<open>storage\<close>, \<open>postgres.go\<close>: users, refresh tokens, organisations, projects, API keys and
  model prices, with the constraints of the migrations under \<open>migrate/sql/postgres\<close>.

  PostgreSQL is not part of the repository: a table is the list of its rows, a statement is the
  relational operation it denotes, \<open>now()\<close> is an argument, \<open>gen_random_uuid()\<close> reads an arbitrary
  sequence, and which statements fail is an arbitrary schedule. A violated constraint is an
  error and changes nothing.
\<close>

record pgdb =
  pg_organizations :: "Organization list"
  pg_users :: "User list"
  pg_org_members :: "(string \<times> string \<times> string) list"
  pg_projects :: "Project list"
  pg_api_keys :: "APIKey list"
  pg_refresh_tokens :: "RefreshToken list"
  pg_model_prices :: "ModelPrice list"
  pg_stmts :: nat
  pg_uuid :: "nat \<Rightarrow> string"
  pg_fails :: "nat \<Rightarrow> bool"

text \<open>One statement. Its number also names the UUID that it may generate.\<close>

definition pg_exec :: "(string \<Rightarrow> pgdb \<Rightarrow> pgdb \<times> 'a result) \<Rightarrow> pgdb \<Rightarrow> pgdb \<times> 'a result" where
  "pg_exec f db =
     (let db' = db\<lparr>pg_stmts := pg_stmts db + 1\<rparr>
      in if pg_fails db (pg_stmts db) then (db', Inl PostgresError)
         else f (pg_uuid db (pg_stmts db)) db')"

definition pg_query :: "(pgdb \<Rightarrow> 'a) \<Rightarrow> pgdb \<Rightarrow> pgdb \<times> 'a result" where
  "pg_query q = pg_exec (\<lambda>_ db. (db, Inr (q db)))"

text \<open>\<open>UPDATE t SET f WHERE p\<close>.\<close>

definition update_where :: "('a \<Rightarrow> bool) \<Rightarrow> ('a \<Rightarrow> 'a) \<Rightarrow> 'a list \<Rightarrow> 'a list" where
  "update_where p f xs = map (\<lambda>x. if p x then f x else x) xs"

lemma update_where_col:
  assumes "\<And>x. c (f x) = c x"
  shows "map c (update_where p f xs) = map c xs" "c ` set (update_where p f xs) = c ` set xs"
proof -
  show "map c (update_where p f xs) = map c xs" using assms by (simp add: update_where_def)
  then show "c ` set (update_where p f xs) = c ` set xs" by (metis set_map)
qed

section \<open>API keys for the authentication\<close>

text \<open>
  The join with \<open>organizations\<close> yields the tier; \<open>project_id\<close> is not selected. The key hash is
  unique, so \<open>QueryRow\<close> sees the only row.
\<close>

definition api_key_row :: "pgdb \<Rightarrow> string \<Rightarrow> APIKey option" where
  "api_key_row db keyHash =
     (case find (\<lambda>k. key_KeyHash k = keyHash) (pg_api_keys db) of
        None \<Rightarrow> None
      | Some ak \<Rightarrow>
          (case find (\<lambda>org. org_ID org = key_OrgID ak) (pg_organizations db) of
             None \<Rightarrow> None
           | Some org \<Rightarrow> Some (ak\<lparr>key_ProjectID := None, key_Tier := org_Tier org\<rparr>)))"

definition GetAPIKeyByHash :: "pgdb \<Rightarrow> string \<Rightarrow> pgdb \<times> APIKey option result" where
  "GetAPIKeyByHash db keyHash = pg_query (\<lambda>db. api_key_row db keyHash) db"

section \<open>Model prices\<close>

definition price_order :: "ModelPrice \<Rightarrow> string \<times> string \<times> int" where
  "price_order p = (mp_Provider p, mp_ModelName p, - t_ns (mp_EffectiveFrom p))"

definition GetAllPrices :: "pgdb \<Rightarrow> pgdb \<times> ModelPrice list result" where
  "GetAllPrices db = pg_query (\<lambda>db. sort_key price_order (pg_model_prices db)) db"

section \<open>Users\<close>

definition CreateOrGetUser ::
    "pgdb \<Rightarrow> gotime \<Rightarrow> string \<Rightarrow> string \<Rightarrow> string \<Rightarrow> pgdb \<times> (User \<times> bool) result" where
  "CreateOrGetUser db now email name avatarURL =
     (case pg_query (\<lambda>db. find (\<lambda>u. user_Email u = email) (pg_users db)) db of
        (db, Inl e) \<Rightarrow> (db, Inl e)
      | (db, Inr (Some user)) \<Rightarrow> (db, Inr (user, False))
      | (db, Inr None) \<Rightarrow>
          (case pg_exec (\<lambda>uuid db.
                  if email \<in> user_Email ` set (pg_users db) then (db, Inl PostgresError)
                  else let user = \<lparr>user_ID = uuid, user_Email = email, user_Name = name,
                                   user_AvatarURL = avatarURL, user_CreatedAt = now\<rparr>
                       in (db\<lparr>pg_users := pg_users db @ [user]\<rparr>, Inr user)) db of
             (db, Inl e) \<Rightarrow> (db, Inl e)
           | (db, Inr user) \<Rightarrow> (db, Inr (user, True))))"

definition GetUserByID :: "pgdb \<Rightarrow> string \<Rightarrow> pgdb \<times> User option result" where
  "GetUserByID db userID = pg_query (\<lambda>db. find (\<lambda>u. user_ID u = userID) (pg_users db)) db"

section \<open>Refresh tokens\<close>

definition CreateRefreshToken ::
    "pgdb \<Rightarrow> gotime \<Rightarrow> string \<Rightarrow> string \<Rightarrow> gotime \<Rightarrow> pgdb \<times> RefreshToken result" where
  "CreateRefreshToken db now userID tokenHash expiresAt =
     pg_exec (\<lambda>uuid db.
       if userID \<notin> user_ID ` set (pg_users db)
          \<or> tokenHash \<in> rt_TokenHash ` set (pg_refresh_tokens db)
       then (db, Inl PostgresError)
       else let rt = \<lparr>rt_ID = uuid, rt_UserID = userID, rt_TokenHash = tokenHash,
                      rt_ExpiresAt = expiresAt, rt_RevokedAt = None, rt_CreatedAt = now\<rparr>
            in (db\<lparr>pg_refresh_tokens := pg_refresh_tokens db @ [rt]\<rparr>, Inr rt)) db"

definition GetRefreshTokenByHash :: "pgdb \<Rightarrow> string \<Rightarrow> pgdb \<times> RefreshToken option result" where
  "GetRefreshTokenByHash db tokenHash =
     pg_query (\<lambda>db. find (\<lambda>t. rt_TokenHash t = tokenHash) (pg_refresh_tokens db)) db"

definition revoke_where :: "(RefreshToken \<Rightarrow> bool) \<Rightarrow> gotime \<Rightarrow> RefreshToken list \<Rightarrow> RefreshToken list" where
  "revoke_where p now ts = update_where p (\<lambda>t. t\<lparr>rt_RevokedAt := Some now\<rparr>) ts"

definition RevokeRefreshToken :: "pgdb \<Rightarrow> gotime \<Rightarrow> string \<Rightarrow> pgdb \<times> unit result" where
  "RevokeRefreshToken db now tokenID =
     pg_exec (\<lambda>_ db.
       (db\<lparr>pg_refresh_tokens := revoke_where (\<lambda>t. rt_ID t = tokenID) now (pg_refresh_tokens db)\<rparr>,
        Inr ())) db"

definition RevokeAllUserTokens :: "pgdb \<Rightarrow> gotime \<Rightarrow> string \<Rightarrow> pgdb \<times> unit result" where
  "RevokeAllUserTokens db now userID =
     pg_exec (\<lambda>_ db.
       (db\<lparr>pg_refresh_tokens :=
             revoke_where (\<lambda>t. rt_UserID t = userID \<and> rt_RevokedAt t = None) now (pg_refresh_tokens db)\<rparr>,
        Inr ())) db"

section \<open>Organisations\<close>

definition GetOrg :: "pgdb \<Rightarrow> string \<Rightarrow> pgdb \<times> Organization option result" where
  "GetOrg db orgID = pg_query (\<lambda>db. find (\<lambda>org. org_ID org = orgID) (pg_organizations db)) db"

definition UpdateOrg :: "pgdb \<Rightarrow> gotime \<Rightarrow> Organization \<Rightarrow> pgdb \<times> unit result" where
  "UpdateOrg db now new =
     pg_exec (\<lambda>_ db.
       (db\<lparr>pg_organizations :=
             update_where (\<lambda>org. org_ID org = org_ID new)
               (\<lambda>org. org\<lparr>org_Name := org_Name new, org_Timezone := org_Timezone new,
                           org_PIIEnabled := org_PIIEnabled new,
                           org_SlackWebhookURL := org_SlackWebhookURL new, org_UpdatedAt := now\<rparr>)
               (pg_organizations db)\<rparr>,
        Inr ())) db"

text \<open>The join has no ORDER BY: which membership LIMIT 1 selects is left to the table's order.\<close>

definition GetOrgByUserID :: "pgdb \<Rightarrow> string \<Rightarrow> pgdb \<times> Organization option result" where
  "GetOrgByUserID db userID =
     pg_query (\<lambda>db.
       case concat (map (\<lambda>(o_id, u_id, _).
              if u_id = userID then filter (\<lambda>org. org_ID org = o_id) (pg_organizations db) else [])
              (pg_org_members db)) of
         [] \<Rightarrow> None | org # _ \<Rightarrow> Some org) db"

definition CreateOrg :: "pgdb \<Rightarrow> gotime \<Rightarrow> string \<Rightarrow> string \<Rightarrow> pgdb \<times> Organization result" where
  "CreateOrg db now name slug =
     pg_exec (\<lambda>uuid db.
       if slug \<in> org_Slug ` set (pg_organizations db) then (db, Inl PostgresError)
       else let org = \<lparr>org_ID = uuid, org_Name = name, org_Slug = slug, org_Tier = TierFree,
                       org_Timezone = ''UTC'', org_PIIEnabled = True, org_SlackWebhookURL = None,
                       org_StripeCustomerID = None, org_StripeSubscriptionID = None,
                       org_CreatedAt = now, org_UpdatedAt = now\<rparr>
            in (db\<lparr>pg_organizations := pg_organizations db @ [org]\<rparr>, Inr org)) db"

definition AddOrgMember :: "pgdb \<Rightarrow> string \<Rightarrow> string \<Rightarrow> string \<Rightarrow> pgdb \<times> unit result" where
  "AddOrgMember db orgID userID role =
     pg_exec (\<lambda>_ db.
       if orgID \<notin> org_ID ` set (pg_organizations db) \<or> userID \<notin> user_ID ` set (pg_users db)
       then (db, Inl PostgresError)
       else if \<exists>(o_id, u_id, _) \<in> set (pg_org_members db). o_id = orgID \<and> u_id = userID
       then (db, Inr ())
       else (db\<lparr>pg_org_members := pg_org_members db @ [(orgID, userID, role)]\<rparr>, Inr ())) db"

definition CountOrgs :: "pgdb \<Rightarrow> pgdb \<times> int result" where
  "CountOrgs db = pg_query (\<lambda>db. int (length (pg_organizations db))) db"

section \<open>Projects\<close>

definition ListProjects :: "pgdb \<Rightarrow> string \<Rightarrow> pgdb \<times> Project list result" where
  "ListProjects db orgID =
     pg_query (\<lambda>db.
       sort_key (\<lambda>p. (\<not> prj_IsDefault p, prj_Name p))
         (filter (\<lambda>p. prj_OrgID p = orgID \<and> prj_ArchivedAt p = None) (pg_projects db))) db"

text \<open>The id and the two instants are scanned back into the argument, which is returned.\<close>

definition CreateProject :: "pgdb \<Rightarrow> gotime \<Rightarrow> Project \<Rightarrow> pgdb \<times> Project result" where
  "CreateProject db now project =
     pg_exec (\<lambda>uuid db.
       if prj_OrgID project \<notin> org_ID ` set (pg_organizations db)
          \<or> (prj_OrgID project, prj_Slug project)
               \<in> (\<lambda>p. (prj_OrgID p, prj_Slug p)) ` set (pg_projects db)
       then (db, Inl PostgresError)
       else let p = project\<lparr>prj_ID := uuid, prj_CreatedAt := now, prj_UpdatedAt := now\<rparr>
            in (db\<lparr>pg_projects := pg_projects db @ [p\<lparr>prj_ArchivedAt := None\<rparr>]\<rparr>, Inr p)) db"

section \<open>API key management\<close>

definition CreateAPIKey ::
    "pgdb \<Rightarrow> gotime \<Rightarrow> string \<Rightarrow> string \<Rightarrow> string \<Rightarrow> string \<Rightarrow> string list \<Rightarrow> string option
     \<Rightarrow> pgdb \<times> APIKey result" where
  "CreateAPIKey db now orgID name keyPrefix keyHash scopes projectID =
     pg_exec (\<lambda>uuid db.
       if orgID \<notin> org_ID ` set (pg_organizations db)
          \<or> keyHash \<in> key_KeyHash ` set (pg_api_keys db)
          \<or> (case projectID of None \<Rightarrow> False | Some p \<Rightarrow> p \<notin> prj_ID ` set (pg_projects db))
       then (db, Inl PostgresError)
       else let key = \<lparr>key_ID = uuid, key_OrgID = orgID, key_ProjectID = projectID,
                       key_KeyPrefix = keyPrefix, key_KeyHash = keyHash, key_Name = name,
                       key_Scopes = scopes, key_LastUsedAt = None, key_CreatedAt = now,
                       key_RevokedAt = None, key_Tier = []\<rparr>
            in (db\<lparr>pg_api_keys := pg_api_keys db @ [key]\<rparr>, Inr key)) db"

definition ListAPIKeys :: "pgdb \<Rightarrow> string \<Rightarrow> pgdb \<times> APIKey list result" where
  "ListAPIKeys db orgID =
     pg_query (\<lambda>db.
       map (\<lambda>k. k\<lparr>key_KeyHash := [], key_Tier := []\<rparr>)
         (sort_key (\<lambda>k. - t_ns (key_CreatedAt k))
           (filter (\<lambda>k. key_OrgID k = orgID) (pg_api_keys db)))) db"

definition revokes :: "string \<Rightarrow> string \<Rightarrow> APIKey \<Rightarrow> bool" where
  "revokes orgID keyID k \<longleftrightarrow> key_ID k = keyID \<and> key_OrgID k = orgID \<and> key_RevokedAt k = None"

definition RevokeAPIKey :: "pgdb \<Rightarrow> gotime \<Rightarrow> string \<Rightarrow> string \<Rightarrow> pgdb \<times> unit result" where
  "RevokeAPIKey db now orgID keyID =
     pg_exec (\<lambda>_ db.
       if \<exists>k \<in> set (pg_api_keys db). revokes orgID keyID k
       then (db\<lparr>pg_api_keys :=
                  update_where (revokes orgID keyID) (\<lambda>k. k\<lparr>key_RevokedAt := Some now\<rparr>)
                    (pg_api_keys db)\<rparr>, Inr ())
       else (db, Inl PostgresError)) db"

section \<open>The constraints as an invariant\<close>

lemmas pg_op_defs =
  GetAPIKeyByHash_def GetAllPrices_def CreateOrGetUser_def GetUserByID_def CreateRefreshToken_def
  GetRefreshTokenByHash_def RevokeRefreshToken_def RevokeAllUserTokens_def GetOrg_def UpdateOrg_def
  GetOrgByUserID_def CreateOrg_def AddOrgMember_def CountOrgs_def ListProjects_def CreateProject_def
  CreateAPIKey_def ListAPIKeys_def RevokeAPIKey_def

text \<open>Unique columns hold no value twice, and references point to rows.\<close>

definition pg_wf :: "pgdb \<Rightarrow> bool" where
  "pg_wf db \<longleftrightarrow>
     distinct (map user_Email (pg_users db))
     \<and> distinct (map rt_TokenHash (pg_refresh_tokens db))
     \<and> distinct (map key_KeyHash (pg_api_keys db))
     \<and> distinct (map org_Slug (pg_organizations db))
     \<and> distinct (map (\<lambda>p. (prj_OrgID p, prj_Slug p)) (pg_projects db))
     \<and> distinct (map (\<lambda>(o_id, u_id, _). (o_id, u_id)) (pg_org_members db))
     \<and> rt_UserID ` set (pg_refresh_tokens db) \<subseteq> user_ID ` set (pg_users db)
     \<and> key_OrgID ` set (pg_api_keys db) \<subseteq> org_ID ` set (pg_organizations db)
     \<and> prj_OrgID ` set (pg_projects db) \<subseteq> org_ID ` set (pg_organizations db)
     \<and> (\<lambda>(o_id, _, _). o_id) ` set (pg_org_members db) \<subseteq> org_ID ` set (pg_organizations db)
     \<and> (\<lambda>(_, u_id, _). u_id) ` set (pg_org_members db) \<subseteq> user_ID ` set (pg_users db)"

lemma pg_query_state: "fst (pg_query q db) = db\<lparr>pg_stmts := pg_stmts db + 1\<rparr>"
  by (simp add: pg_query_def pg_exec_def Let_def)

text \<open>
  One call of a store operation, with any arguments. The queries only count as statements
  (\<open>pg_query_state\<close>).
\<close>

inductive pg_step :: "pgdb \<Rightarrow> pgdb \<Rightarrow> bool" where
  user: "pg_step db (fst (CreateOrGetUser db now email name avatar))"
| token: "pg_step db (fst (CreateRefreshToken db now userID tokenHash expiresAt))"
| revoke_token: "pg_step db (fst (RevokeRefreshToken db now tokenID))"
| revoke_all: "pg_step db (fst (RevokeAllUserTokens db now userID))"
| update_org: "pg_step db (fst (UpdateOrg db now org))"
| create_org: "pg_step db (fst (CreateOrg db now name slug))"
| member: "pg_step db (fst (AddOrgMember db orgID userID role))"
| project: "pg_step db (fst (CreateProject db now prj))"
| create_key: "pg_step db (fst (CreateAPIKey db now orgID name pre hash scopes projectID))"
| revoke_key: "pg_step db (fst (RevokeAPIKey db now orgID keyID))"
| query: "pg_step db (db\<lparr>pg_stmts := pg_stmts db + 1\<rparr>)"

inductive_cases pg_stepE: "pg_step db db'"

definition pg_empty :: "(nat \<Rightarrow> string) \<Rightarrow> (nat \<Rightarrow> bool) \<Rightarrow> ModelPrice list \<Rightarrow> pgdb" where
  "pg_empty uuids fails prices =
     \<lparr>pg_organizations = [], pg_users = [], pg_org_members = [], pg_projects = [], pg_api_keys = [],
      pg_refresh_tokens = [], pg_model_prices = prices, pg_stmts = 0, pg_uuid = uuids,
      pg_fails = fails\<rparr>"

lemma pg_wf_stmts [simp]: "pg_wf (db\<lparr>pg_stmts := n\<rparr>) = pg_wf db"
  by (simp add: pg_wf_def)

lemma pg_wf_exec:
  assumes "pg_wf db" "\<And>uuid db. pg_wf db \<Longrightarrow> pg_wf (fst (f uuid db))"
  shows "pg_wf (fst (pg_exec f db))"
  using assms by (simp add: pg_exec_def Let_def)

lemma pg_wf_query: "pg_wf db \<Longrightarrow> pg_wf (fst (pg_query q db))"
  by (simp add: pg_query_def pg_wf_exec)

lemma pg_wf_tokens:
  "pg_wf db \<Longrightarrow> pg_wf (db\<lparr>pg_refresh_tokens := revoke_where p now (pg_refresh_tokens db)\<rparr>)"
  by (simp add: pg_wf_def revoke_where_def update_where_col)

lemma pg_wf_revoke_key:
  "pg_wf db \<Longrightarrow> pg_wf (db\<lparr>pg_api_keys :=
      update_where (revokes orgID keyID) (\<lambda>k. k\<lparr>key_RevokedAt := Some now\<rparr>) (pg_api_keys db)\<rparr>)"
  by (simp add: pg_wf_def update_where_col)

lemma pg_wf_update_org:
  "pg_wf db \<Longrightarrow> pg_wf (fst (UpdateOrg db now new))"
  unfolding UpdateOrg_def by (rule pg_wf_exec) (simp_all add: pg_wf_def update_where_col)

lemma pg_wf_user:
  assumes "pg_wf db" shows "pg_wf (fst (CreateOrGetUser db now email name avatar))"
proof -
  have "pg_wf (fst (pg_exec (\<lambda>uuid db.
                  if email \<in> user_Email ` set (pg_users db) then (db, Inl PostgresError)
                  else let user = \<lparr>user_ID = uuid, user_Email = email, user_Name = name,
                                   user_AvatarURL = avatar, user_CreatedAt = now\<rparr>
                       in (db\<lparr>pg_users := pg_users db @ [user]\<rparr>, Inr user)) db))"
    if "pg_wf db" for db
    by (rule pg_wf_exec [OF that]) (auto simp: pg_wf_def Let_def)
  then show ?thesis
    using pg_wf_query [OF assms, of "\<lambda>db. find (\<lambda>u. user_Email u = email) (pg_users db)"]
    by (cases "pg_query (\<lambda>db. find (\<lambda>u. user_Email u = email) (pg_users db)) db")
      (fastforce simp: CreateOrGetUser_def case_prod_unfold split: sum.split option.split)
qed

lemma pg_step_wf:
  assumes "pg_step db db'" "pg_wf db" shows "pg_wf db'"
  using assms
proof (induction rule: pg_step.induct)
  case (user db now email name avatar)
  then show ?case by (rule pg_wf_user)
next
  case (token db now userID tokenHash expiresAt)
  then show ?case unfolding CreateRefreshToken_def
    by (intro pg_wf_exec) (auto simp: pg_wf_def Let_def)
next
  case (revoke_token db now tokenID)
  then show ?case unfolding RevokeRefreshToken_def by (intro pg_wf_exec) (auto simp: pg_wf_tokens)
next
  case (revoke_all db now userID)
  then show ?case unfolding RevokeAllUserTokens_def by (intro pg_wf_exec) (auto simp: pg_wf_tokens)
next
  case (update_org db now org)
  then show ?case by (rule pg_wf_update_org)
next
  case (create_org db now name slug)
  then show ?case unfolding CreateOrg_def by (intro pg_wf_exec) (auto simp: pg_wf_def Let_def)
next
  case (member db orgID userID role)
  then show ?case unfolding AddOrgMember_def
    by (intro pg_wf_exec) (auto simp: pg_wf_def)
next
  case (project db now prj)
  then show ?case unfolding CreateProject_def
    by (intro pg_wf_exec) (auto simp: pg_wf_def Let_def)
next
  case (create_key db now orgID name pre hash scopes projectID)
  then show ?case unfolding CreateAPIKey_def
    by (intro pg_wf_exec) (auto simp: pg_wf_def Let_def)
next
  case (revoke_key db now orgID keyID)
  then show ?case unfolding RevokeAPIKey_def by (intro pg_wf_exec) (auto simp: pg_wf_revoke_key)
next
  case (query db)
  then show ?case by simp
qed

text \<open>
  After any sequence of store operations on a freshly migrated database, with any failures,
  no email, token hash, key hash, organisation slug or membership occurs twice and every
  reference points to a row.
\<close>

lemma pg_constraints_hold:
  assumes "pg_step\<^sup>*\<^sup>* (pg_empty uuids fails prices) db"
  shows "pg_wf db"
  using assms
proof (induction rule: rtranclp_induct)
  case base
  show ?case by (simp add: pg_wf_def pg_empty_def)
next
  case (step y z)
  then show ?case by (blast intro: pg_step_wf)
qed

end
