(* ===== verification/Auth.thy ===== *)
theory Auth
  imports Go_Crypto Domain
begin

text \<open>
  Package \<open>auth\<close>: API keys (\<open>apikey.go\<close>), JWT session tokens (\<open>jwt.go\<close>) and opaque refresh
  tokens (\<open>refresh.go\<close>). What \<open>crypto/rand\<close> returns is an argument: \<^const>\<open>None\<close> for an
  error, otherwise the bytes read. The clock is an argument as well. The JSON form of the
  claims (\<open>encoding/json\<close>) is an argument \<open>marshal\<close>/\<open>unmarshal\<close> of the JWT functions; theory \<open>Auth_JSON\<close>
  defines it.
\<close>

section \<open>apikey.go\<close>

definition PrefixLive :: string where "PrefixLive = ''pm_live_''"
definition PrefixTest :: string where "PrefixTest = ''pm_test_''"
definition keyLength :: nat where "keyLength = 32"

definition base62Chars :: string where
  "base62Chars = ''0123456789ABCDEFGHIJKLMNOPQRSTUVWXYZabcdefghijklmnopqrstuvwxyz''"

datatype KeyError = InvalidPrefix | RandError | WrongLength | NotBase62

definition HashKey :: "string \<Rightarrow> string" where
  "HashKey key = EncodeToString (sha256 (bytes_of key))"

text \<open>\<open>randomBase62(n)\<close> on the bytes that \<open>rand.Read\<close> put into the \<open>n\<close>-byte buffer.\<close>

definition randomBase62 :: "u8 list option \<Rightarrow> nat \<Rightarrow> KeyError + string" where
  "randomBase62 rnd n =
     (case rnd of None \<Rightarrow> Inl RandError
      | Some buf \<Rightarrow> Inr (map (\<lambda>i. base62Chars ! (unat (buf ! i) mod length base62Chars)) [0..<n]))"

definition GenerateKey :: "u8 list option \<Rightarrow> string \<Rightarrow> KeyError + string \<times> string \<times> string" where
  "GenerateKey rnd pfx =
     (if pfx \<noteq> PrefixLive \<and> pfx \<noteq> PrefixTest then Inl InvalidPrefix
      else (case randomBase62 rnd keyLength of
              Inl e \<Rightarrow> Inl e
            | Inr body \<Rightarrow>
                let plaintext = pfx @ body in
                Inr (plaintext, HashKey plaintext, pfx @ take 4 body)))"

definition ContainsRune :: "string \<Rightarrow> nat \<Rightarrow> bool" where
  "ContainsRune s r \<longleftrightarrow> r \<in> set (runes s)"

definition ValidateFormat :: "string \<Rightarrow> KeyError option" where
  "ValidateFormat key =
     (if \<not> HasPrefix key PrefixLive \<and> \<not> HasPrefix key PrefixTest then Some InvalidPrefix
      else
        let body = (if HasPrefix key PrefixLive then TrimPrefix key PrefixLive
                    else TrimPrefix key PrefixTest) in
        if length body \<noteq> keyLength then Some WrongLength
        else if list_ex (\<lambda>c. \<not> ContainsRune base62Chars c) (runes body) then Some NotBase62
        else None)"

definition ExtractPrefix :: "string \<Rightarrow> string" where
  "ExtractPrefix key =
     (if HasPrefix key PrefixLive \<and> 4 \<le> length (TrimPrefix key PrefixLive)
      then PrefixLive @ take 4 (TrimPrefix key PrefixLive)
      else if HasPrefix key PrefixTest \<and> 4 \<le> length (TrimPrefix key PrefixTest)
      then PrefixTest @ take 4 (TrimPrefix key PrefixTest)
      else [])"

lemma length_base62 [simp]: "length base62Chars = 62"
  by (simp add: base62Chars_def)

lemma base62_ascii: "c \<in> set base62Chars \<Longrightarrow> is_ascii c"
proof -
  have "list_all is_ascii base62Chars" by code_simp
  then show "c \<in> set base62Chars \<Longrightarrow> is_ascii c" by (simp add: list_all_iff)
qed

lemma runes_base62: "runes base62Chars = map of_char base62Chars"
  by (rule runes_ascii) (simp add: list_all_iff base62_ascii)

lemma Contains_base62: "ContainsRune base62Chars (of_char c) \<longleftrightarrow> c \<in> set base62Chars"
  by (auto simp: ContainsRune_def runes_base62)

lemma prefixes_differ: "\<not> (HasPrefix (PrefixTest @ b) PrefixLive)" "\<not> (HasPrefix (PrefixLive @ b) PrefixTest)"
  by (simp_all add: HasPrefix_def PrefixLive_def PrefixTest_def)

text \<open>Runes that are all base62 characters come from a string of such characters.\<close>

lemma runes_all_base62:
  "list_all (ContainsRune base62Chars) (runes s) \<longleftrightarrow> set s \<subseteq> set base62Chars"
proof
  assume "set s \<subseteq> set base62Chars"
  then have "runes s = map of_char s"
    by (intro runes_ascii) (auto simp: list_all_iff base62_ascii)
  then show "list_all (ContainsRune base62Chars) (runes s)"
    using \<open>set s \<subseteq> set base62Chars\<close> by (auto simp: list_all_iff Contains_base62)
next
  have ge: "\<not> ContainsRune base62Chars (fst (decode_rune (a # r)))" if a: "\<not> is_ascii a" for a r
  proof -
    have "ContainsRune base62Chars k \<Longrightarrow> k < 128" for k
      using base62_ascii by (auto simp: ContainsRune_def runes_base62 is_ascii_def)
    with decode_rune_nonascii [OF a] show ?thesis by (meson not_le)
  qed
  show "list_all (ContainsRune base62Chars) (runes s) \<Longrightarrow> set s \<subseteq> set base62Chars"
  proof (induction s)
    case (Cons a s)
    show ?case
    proof (cases "is_ascii a")
      case True
      with Cons show ?thesis by (auto simp: Contains_base62)
    next
      case False
      then have "\<not> ContainsRune base62Chars (fst (decode_rune (a # s)))"
        by (rule ge)
      then show ?thesis using Cons.prems by (subst (asm) runes.simps) simp
    qed
  qed simp
qed

lemma ValidateFormat_iff:
  "ValidateFormat key = None \<longleftrightarrow>
     (\<exists>pfx body. (pfx = PrefixLive \<or> pfx = PrefixTest) \<and> key = pfx @ body
        \<and> length body = keyLength \<and> set body \<subseteq> set base62Chars)"
proof -
  have ok: "ValidateFormat (pfx @ body) = None \<longleftrightarrow>
      length body = keyLength \<and> list_all (ContainsRune base62Chars) (runes body)"
    if "pfx = PrefixLive \<or> pfx = PrefixTest" for pfx body
    using that prefixes_differ
    by (auto simp: ValidateFormat_def Let_def list_ex_iff list_all_iff)
  show ?thesis
  proof
    assume v: "ValidateFormat key = None"
    then obtain pfx where p: "pfx = PrefixLive \<or> pfx = PrefixTest" "HasPrefix key pfx"
      by (auto simp: ValidateFormat_def split: if_splits)
    then have "key = pfx @ TrimPrefix key pfx" by (intro HasPrefix_split)
    with p v ok show "\<exists>pfx body. (pfx = PrefixLive \<or> pfx = PrefixTest) \<and> key = pfx @ body
        \<and> length body = keyLength \<and> set body \<subseteq> set base62Chars"
      by (metis runes_all_base62)
  qed (auto simp: ok runes_all_base62)
qed

lemma randomBase62_ok:
  "randomBase62 rnd n = Inr body \<Longrightarrow> length body = n \<and> set body \<subseteq> set base62Chars"
  by (auto simp: randomBase62_def split: option.splits)

section \<open>refresh.go\<close>

definition RefreshTokenPrefix :: string where "RefreshTokenPrefix = ''rt_''"

definition HashRefreshToken :: "string \<Rightarrow> string" where
  "HashRefreshToken token = EncodeToString (sha256 (bytes_of token))"

definition GenerateRefreshToken :: "u8 list option \<Rightarrow> KeyError + string \<times> string" where
  "GenerateRefreshToken rnd =
     (case rnd of None \<Rightarrow> Inl RandError
      | Some buf \<Rightarrow>
          let plaintext = RefreshTokenPrefix @ EncodeToString buf in
          Inr (plaintext, HashRefreshToken plaintext))"

section \<open>jwt.go\<close>

record JWTClaims =
  cl_Sub :: string
  cl_Org :: string
  cl_OrgNumeric :: u64
  cl_Role :: string
  cl_Tier :: string
  cl_Iat :: int
  cl_Exp :: int

datatype JWTError = ErrTokenExpired | ErrTokenInvalid | ErrTokenMalformed | ErrSignatureInvalid

text \<open>\<open>DefaultJWTExpiry\<close> is 15 minutes.\<close>

definition DefaultJWTExpiry :: int where "DefaultJWTExpiry = 900"

definition jwtHeaderB64 :: string where
  "jwtHeaderB64 = b64_encode (bytes_of
     (''{'' @ [CHR 0x22] @ ''alg'' @ [CHR 0x22] @ '':'' @ [CHR 0x22] @ ''HS256'' @ [CHR 0x22] @ '',''
      @ [CHR 0x22] @ ''typ'' @ [CHR 0x22] @ '':'' @ [CHR 0x22] @ ''JWT'' @ [CHR 0x22] @ ''}''))"

definition signHS256 :: "string \<Rightarrow> string \<Rightarrow> string" where
  "signHS256 input secret = b64_encode (hmac_sha256 (bytes_of secret) (bytes_of input))"

text \<open>The claims after \<open>SignJWT\<close> has filled in the two times, at Unix time \<open>now\<close>.\<close>

definition fill_times :: "int \<Rightarrow> JWTClaims \<Rightarrow> JWTClaims" where
  "fill_times now c =
     c\<lparr>cl_Iat := (if cl_Iat c = 0 then now else cl_Iat c),
       cl_Exp := (if cl_Exp c = 0 then now + DefaultJWTExpiry else cl_Exp c)\<rparr>"

definition SignJWT :: "(JWTClaims \<Rightarrow> string) \<Rightarrow> int \<Rightarrow> JWTClaims \<Rightarrow> string \<Rightarrow> string" where
  "SignJWT marshal now claims secret =
     (let payload = marshal (fill_times now claims);
          signingInput = jwtHeaderB64 @ ''.'' @ b64_encode (bytes_of payload)
      in signingInput @ ''.'' @ signHS256 signingInput secret)"

definition VerifyJWT ::
    "(string \<Rightarrow> JWTClaims option) \<Rightarrow> int \<Rightarrow> string \<Rightarrow> string \<Rightarrow> JWTError + JWTClaims" where
  "VerifyJWT unmarshal now token secret =
     (let parts = Split token (CHR ''.'') in
      if length parts \<noteq> 3 then Inl ErrTokenMalformed
      else
        let signingInput = parts ! 0 @ ''.'' @ parts ! 1 in
        if parts ! 2 \<noteq> signHS256 signingInput secret then Inl ErrSignatureInvalid
        else (case b64_decode (parts ! 1) of
                None \<Rightarrow> Inl ErrTokenMalformed
              | Some payload \<Rightarrow>
                  (case unmarshal (string_of payload) of
                     None \<Rightarrow> Inl ErrTokenMalformed
                   | Some claims \<Rightarrow>
                       if cl_Sub claims = [] \<or> cl_Org claims = [] then Inl ErrTokenInvalid
                       else if cl_Exp claims < now then Inl ErrTokenExpired
                       else Inr claims)))"

lemma jwtHeaderB64_no_dot [simp]: "CHR ''.'' \<notin> set jwtHeaderB64"
  unfolding jwtHeaderB64_def by (rule b64_encode_no_dot)

lemma signHS256_no_dot [simp]: "CHR ''.'' \<notin> set (signHS256 i s)"
  by (simp add: signHS256_def)

lemma Split_SignJWT:
  "Split (SignJWT marshal now c secret) (CHR ''.'') =
     [jwtHeaderB64, b64_encode (bytes_of (marshal (fill_times now c))),
      signHS256 (jwtHeaderB64 @ ''.'' @ b64_encode (bytes_of (marshal (fill_times now c)))) secret]"
  by (simp add: SignJWT_def Let_def Split_append)

lemma VerifyJWT_SignJWT:
  assumes "unmarshal (marshal (fill_times now c)) = Some (fill_times now c)"
  shows "VerifyJWT unmarshal now' (SignJWT marshal now c secret) secret =
     (if cl_Sub c = [] \<or> cl_Org c = [] then Inl ErrTokenInvalid
      else if cl_Exp (fill_times now c) < now' then Inl ErrTokenExpired
      else Inr (fill_times now c))"
  using assms by (simp add: VerifyJWT_def Split_SignJWT) (simp add: fill_times_def)

section \<open>Properties\<close>

text \<open>
  \<open>ValidateFormat\<close> accepts exactly the strings that are one of the two prefixes followed by
  32 bytes of the base62 alphabet, for every byte string, UTF-8 or not.
\<close>

lemma ValidateFormat_exact:
  "ValidateFormat key = None \<longleftrightarrow>
     (\<exists>pfx body. (pfx = PrefixLive \<or> pfx = PrefixTest) \<and> key = pfx @ body
        \<and> length body = keyLength \<and> set body \<subseteq> set base62Chars)"
  by (rule ValidateFormat_iff)

lemma GenerateKey_facts:
  assumes "GenerateKey rnd pfx = Inr (plaintext, hash, display)"
  shows "ValidateFormat plaintext = None \<and> ExtractPrefix plaintext = display
    \<and> hash = HashKey plaintext \<and> length hash = 64"
proof (intro conjI)
  from assms obtain body where b: "randomBase62 rnd keyLength = Inr body"
    and p: "pfx = PrefixLive \<or> pfx = PrefixTest" and eq: "plaintext = pfx @ body"
    "hash = HashKey plaintext" "display = pfx @ take 4 body"
    by (auto simp: GenerateKey_def Let_def split: if_splits sum.splits)
  from randomBase62_ok [OF b] have body: "length body = 32" "set body \<subseteq> set base62Chars"
    by (simp_all add: keyLength_def)
  show "ValidateFormat plaintext = None"
    using p eq body by (auto simp: ValidateFormat_iff keyLength_def)
  show "ExtractPrefix plaintext = display"
    using p eq body prefixes_differ by (auto simp: ExtractPrefix_def)
  show "hash = HashKey plaintext" by (rule eq)
  show "length hash = 64" by (simp add: eq HashKey_def)
qed

text \<open>
  A generated API key passes \<open>ValidateFormat\<close>, its display prefix is what
  \<open>ExtractPrefix\<close> recovers from the plaintext, and its stored hash is the 64-digit \<open>HashKey\<close>
  of the plaintext, the one the ingestion middleware looks up.
\<close>

lemma GenerateKey_valid:
  assumes "GenerateKey rnd pfx = Inr (plaintext, hash, display)"
  shows "ValidateFormat plaintext = None \<and> ExtractPrefix plaintext = display
    \<and> hash = HashKey plaintext \<and> length hash = 64"
  using assms by (rule GenerateKey_facts)

lemma VerifyJWT_parts:
  assumes "VerifyJWT unmarshal now token secret = Inr c"
  shows "\<exists>hdr body payload. token = hdr @ ''.'' @ body @ ''.'' @ signHS256 (hdr @ ''.'' @ body) secret
           \<and> b64_decode body = Some payload \<and> unmarshal (string_of payload) = Some c
           \<and> cl_Sub c \<noteq> [] \<and> cl_Org c \<noteq> [] \<and> now \<le> cl_Exp c"
proof -
  from assms have len: "length (Split token (CHR ''.'')) = 3"
    by (auto simp: VerifyJWT_def Let_def split: if_splits)
  then obtain a b d where sp: "Split token (CHR ''.'') = [a, b, d]"
    by (auto simp: length_Suc_conv numeral_3_eq_3)
  then have t: "token = a @ ''.'' @ b @ ''.'' @ d" by (auto dest: Split_join)
  from assms sp have "d = signHS256 (a @ ''.'' @ b) secret"
    and "\<exists>payload. b64_decode b = Some payload \<and> unmarshal (string_of payload) = Some c
           \<and> cl_Sub c \<noteq> [] \<and> cl_Org c \<noteq> [] \<and> now \<le> cl_Exp c"
    by (auto simp: VerifyJWT_def split: if_splits option.splits)
  with t show ?thesis by blast
qed

text \<open>
  \<open>VerifyJWT\<close> accepts only tokens whose third part is the HMAC of the first two under the
  server's secret, whatever algorithm their header names, and only unexpired claims with a
  subject and an organisation: claims cannot be changed without the secret.
\<close>

lemma VerifyJWT_sound:
  assumes "VerifyJWT unmarshal now token secret = Inr c"
  shows "\<exists>hdr body payload. token = hdr @ ''.'' @ body @ ''.'' @ signHS256 (hdr @ ''.'' @ body) secret
           \<and> b64_decode body = Some payload \<and> unmarshal (string_of payload) = Some c
           \<and> cl_Sub c \<noteq> [] \<and> cl_Org c \<noteq> [] \<and> now \<le> cl_Exp c"
  using assms by (rule VerifyJWT_parts)

end
