(* ===== verification/Ingest_Middleware.thy ===== *)
theory Ingest_Middleware
  imports Ingest_Handler Postgres_Store Auth
begin

text \<open>
  Package \<open>ingestion\<close>, \<open>middleware.go\<close> and \<open>server.go\<close>: rate limits, authentication by API key
  and the server's handler chain. A request is handled at one instant \<open>now\<close>. Logging and recovery from
  panics are added in theory \<open>Server_Run\<close>; the body limit is part of the decoding of a body, whose result
  is an argument here (theory \<open>Ingest_Body\<close>).
\<close>

section \<open>The state of the servers\<close>

record backends =
  be_redis :: redis
  be_pg :: pgdb

definition on_redis :: "(redis \<Rightarrow> redis \<times> 'r) \<Rightarrow> 'z backends_scheme \<Rightarrow> 'z backends_scheme \<times> 'r" where
  "on_redis f st = (case f (be_redis st) of (rd, r) \<Rightarrow> (st\<lparr>be_redis := rd\<rparr>, r))"

definition on_pg :: "(pgdb \<Rightarrow> pgdb \<times> 'r) \<Rightarrow> 'z backends_scheme \<Rightarrow> 'z backends_scheme \<times> 'r" where
  "on_pg f st = (case f (be_pg st) of (db, r) \<Rightarrow> (st\<lparr>be_pg := db\<rparr>, r))"

section \<open>Helpers\<close>

definition setRateLimitHeaders :: "int \<Rightarrow> int \<Rightarrow> gotime \<Rightarrow> response \<Rightarrow> response" where
  "setRateLimitHeaders limit remaining resetAt w =
     SetHeader ''X-RateLimit-Reset'' (dec_int (Unix resetAt))
       (SetHeader ''X-RateLimit-Remaining'' (dec_int remaining)
         (SetHeader ''X-RateLimit-Limit'' (dec_int limit) w))"

definition clientIP :: "request \<Rightarrow> string" where
  "clientIP r =
     (let xff = rq_Header r ''X-Forwarded-For''; xri = rq_Header r ''X-Real-Ip'' in
      if xff \<noteq> [] then TrimSpace (Split xff (CHR '','') ! 0)
      else if xri \<noteq> [] then xri
      else (case before_last (rq_RemoteAddr r) (CHR '':'') of
              Some a \<Rightarrow> a | None \<Rightarrow> rq_RemoteAddr r))"

definition generateRequestID :: "u8 list \<Rightarrow> string" where
  "generateRequestID b = ''req_'' @ take 6 (EncodeToString b)"

definition RequestIDMiddleware :: "u8 list \<Rightarrow> 's handler \<Rightarrow> 's handler" where
  "RequestIDMiddleware b next_h st r w =
     (let reqID = generateRequestID b
      in next_h st (r\<lparr>rq_Ctx := (rq_Ctx r)\<lparr>ctx_RequestID := Some reqID\<rparr>\<rparr>)
           (SetHeader ''X-Request-Id'' reqID w))"

section \<open>Rate limits\<close>

type_synonym 's limiter = "'s \<Rightarrow> gotime \<Rightarrow> string \<Rightarrow> int \<Rightarrow> int \<Rightarrow> 's \<times> (bool \<times> int \<times> gotime) result"

definition rate_limited :: "gotime \<Rightarrow> int \<Rightarrow> int \<Rightarrow> response \<Rightarrow> response" where
  "rate_limited now limit retryAfter w =
     writeError now 429 ''RATE_LIMIT_EXCEEDED'' ''Rate limit exceeded''
       (Some [(''limit'', JInt limit), (''retry_after_ms'', JInt (retryAfter * 1000))])
       (SetHeader ''Retry-After'' (dec_int retryAfter) w)"

definition IPRateLimitMiddleware ::
    "'s limiter \<Rightarrow> gotime \<Rightarrow> int \<Rightarrow> int \<Rightarrow> 's handler \<Rightarrow> 's handler" where
  "IPRateLimitMiddleware allowIP now limit window next_h st r w =
     (case allowIP st now (clientIP r) limit window of
        (st, Inl _) \<Rightarrow> next_h st r w
      | (st, Inr (allowed, remaining, resetAt)) \<Rightarrow>
          let w = setRateLimitHeaders limit remaining resetAt w in
          if \<not> allowed
          then let retryAfter = Sub resetAt now div second + 1
               in (st, rate_limited now limit retryAfter w)
          else next_h st r w)"

definition OrgRateLimitMiddleware :: "'s limiter \<Rightarrow> gotime \<Rightarrow> 's handler \<Rightarrow> 's handler" where
  "OrgRateLimitMiddleware allowOrg now next_h st r w =
     (let orgID = OrgIDFromContext (rq_Ctx r);
          tier = OrgTierFromContext (rq_Ctx r);
          limit = RateLimitForTier tier;
          window = 1 * second
      in case allowOrg st now orgID limit window of
           (st, Inl _) \<Rightarrow> next_h st r w
         | (st, Inr (allowed, remaining, resetAt)) \<Rightarrow>
             let w = setRateLimitHeaders limit remaining resetAt w in
             if \<not> allowed then (st, rate_limited now limit 1 w)
             else next_h st r w)"

section \<open>Authentication\<close>

definition cacheTTL :: int where "cacheTTL = 5 * minute"

definition unauthorized :: "gotime \<Rightarrow> response \<Rightarrow> response" where
  "unauthorized now w = writeError now 401 ''UNAUTHORIZED'' ''Invalid or missing API key'' None w"

text \<open>The lookup in the cache, with its fall-back to the database.\<close>

definition auth_lookup ::
    "('s \<Rightarrow> gotime \<Rightarrow> string \<Rightarrow> 's \<times> APIKey option result)
     \<Rightarrow> ('s \<Rightarrow> gotime \<Rightarrow> string \<Rightarrow> APIKey \<Rightarrow> int \<Rightarrow> 's \<times> unit result)
     \<Rightarrow> ('s \<Rightarrow> string \<Rightarrow> 's \<times> APIKey option result)
     \<Rightarrow> gotime \<Rightarrow> string \<Rightarrow> 's \<Rightarrow> 's \<times> APIKey option result" where
  "auth_lookup get_cached set_cached by_hash now keyHash st =
     (case get_cached st now keyHash of
        (st, Inr (Some apiKey)) \<Rightarrow> (st, Inr (Some apiKey))
      | (st, _) \<Rightarrow>
          (case by_hash st keyHash of
             (st, Inl e) \<Rightarrow> (st, Inl e)
           | (st, Inr None) \<Rightarrow> (st, Inr None)
           | (st, Inr (Some apiKey)) \<Rightarrow>
               (fst (set_cached st now keyHash apiKey cacheTTL), Inr (Some apiKey))))"

definition AuthMiddleware ::
    "('s \<Rightarrow> gotime \<Rightarrow> string \<Rightarrow> 's \<times> APIKey option result)
     \<Rightarrow> ('s \<Rightarrow> gotime \<Rightarrow> string \<Rightarrow> APIKey \<Rightarrow> int \<Rightarrow> 's \<times> unit result)
     \<Rightarrow> ('s \<Rightarrow> string \<Rightarrow> 's \<times> APIKey option result)
     \<Rightarrow> gotime \<Rightarrow> 's handler \<Rightarrow> 's handler" where
  "AuthMiddleware get_cached set_cached by_hash now next_h st r w =
     (let authHeader = rq_Header r ''Authorization'' in
      if authHeader = [] then (st, unauthorized now w)
      else let token = TrimPrefix authHeader ''Bearer '' in
      if token = authHeader then (st, unauthorized now w)
      else if ValidateFormat token \<noteq> None then (st, unauthorized now w)
      else (case auth_lookup get_cached set_cached by_hash now (HashKey token) st of
              (st, Inl _) \<Rightarrow>
                (st, writeError now 500 ''INTERNAL_ERROR'' ''Internal server error'' None w)
            | (st, Inr None) \<Rightarrow> (st, unauthorized now w)
            | (st, Inr (Some apiKey)) \<Rightarrow>
                if IsRevoked apiKey then (st, unauthorized now w)
                else if \<not> HasScope apiKey ''write''
                then (st, writeError now 403 ''FORBIDDEN'' ''Insufficient permissions'' None w)
                else next_h st
                       (r\<lparr>rq_Ctx := (rq_Ctx r)\<lparr>ctx_OrgID := Some (key_OrgID apiKey),
                                             ctx_OrgTier := Some (key_Tier apiKey)\<rparr>\<rparr>) w))"

section \<open>server.go\<close>

record ingest = backends +
  in_nats :: jetstream

definition in_publish :: "ingest \<Rightarrow> u64 \<Rightarrow> LLMEvent \<Rightarrow> ingest \<times> bool" where
  "in_publish st org e = (case Publish (in_nats st) org e of (js, ok) \<Rightarrow> (st\<lparr>in_nats := js\<rparr>, ok))"

definition get_key :: "'z backends_scheme \<Rightarrow> gotime \<Rightarrow> string \<Rightarrow> 'z backends_scheme \<times> APIKey option result" where
  "get_key st now h = on_redis (\<lambda>rd. GetCachedAPIKey rd now h) st"

definition set_key ::
    "'z backends_scheme \<Rightarrow> gotime \<Rightarrow> string \<Rightarrow> APIKey \<Rightarrow> int \<Rightarrow> 'z backends_scheme \<times> unit result" where
  "set_key st now h k ttl = on_redis (\<lambda>rd. SetCachedAPIKey rd now h k ttl) st"

definition del_key :: "'z backends_scheme \<Rightarrow> string \<Rightarrow> 'z backends_scheme \<times> unit result" where
  "del_key st h = on_redis (\<lambda>rd. DeleteCachedAPIKey rd h) st"

definition key_by_hash :: "'z backends_scheme \<Rightarrow> string \<Rightarrow> 'z backends_scheme \<times> APIKey option result" where
  "key_by_hash st h = on_pg (\<lambda>db. GetAPIKeyByHash db h) st"

definition authedHandler ::
    "gotime \<Rightarrow> EventRequest option \<Rightarrow> EventRequest list option \<Rightarrow> ingest handler" where
  "authedHandler now body batch =
     IPRateLimitMiddleware (\<lambda>st now ip l d. on_redis (\<lambda>rd. AllowIP rd now ip l d) st) now 200 (1 * minute)
       (AuthMiddleware get_key set_key key_by_hash now
         (OrgRateLimitMiddleware (\<lambda>st now org l d. on_redis (\<lambda>rd. AllowOrg rd now org l d) st) now
           (ServeMux
             [(Some ''POST'', ''/v1/events'', \<lambda>_. HandleEvent in_publish now body),
              (Some ''POST'', ''/v1/events/batch'', \<lambda>_. HandleBatch in_publish now batch)])))"

text \<open>\<open>NewServer\<close>: one request with its decoded body and the bytes of its random id.\<close>

definition NewServer ::
    "gotime \<Rightarrow> u8 list \<Rightarrow> EventRequest option \<Rightarrow> EventRequest list option \<Rightarrow> ingest handler" where
  "NewServer now b body batch =
     RequestIDMiddleware b
       (ServeMux
         [(Some ''GET'', ''/health'', \<lambda>_. HandleHealth),
          (None, ''/v1/'', \<lambda>_. authedHandler now body batch)])"

section \<open>What a lookup returns\<close>

context api_key_cache
begin

lemma auth_lookup_sound:
  assumes "auth_lookup get_cached set_cached by_hash now h st = (st', Inr (Some k))"
  shows "entry st now h = Some k \<or> snd (by_hash (fst (get_cached st now h)) h) = Inr (Some k)"
proof (cases "\<exists>k. snd (get_cached st now h) = Inr (Some k)")
  case True
  then obtain k' where k': "get_cached st now h = (fst (get_cached st now h), Inr (Some k'))"
    by (metis prod.collapse)
  with assms have "k' = k" by (simp add: auth_lookup_def split: prod.splits)
  with get_hit [OF k'] show ?thesis by simp
next
  case False
  with assms show ?thesis
    by (auto simp: auth_lookup_def case_prod_unfold split: sum.splits option.splits)
qed

text \<open>
  After a lookup the cache holds what it held before, and possibly the key that the database
  returned, for \<open>cacheTTL\<close>.
\<close>

lemma auth_lookup_entry:
  assumes keep: "\<And>s h. entry (fst (by_hash s h)) = entry s"
    and "entry (fst (auth_lookup get_cached set_cached by_hash now h st)) t h' = Some k'"
  shows "entry st t h' = Some k'
       \<or> (h' = h \<and> t_ns t < t_ns now + cacheTTL
          \<and> (\<exists>k. snd (by_hash (fst (get_cached st now h)) h) = Inr (Some k) \<and> k' = stored h k))"
proof -
  obtain s1 r1 where g: "get_cached st now h = (s1, r1)" by fastforce
  obtain s2 r2 where b: "by_hash s1 h = (s2, r2)" by fastforce
  have e1: "entry s1 = entry st" using get_entry [of st now h] g by simp
  have e2: "entry s2 = entry st" using keep [of s1 h] b e1 by simp
  have ttl: "0 < cacheTTL" by (simp add: cacheTTL_def)
  show ?thesis
  proof (cases "\<exists>k. r1 \<noteq> Inr (Some k) \<and> r2 = Inr (Some k) \<and> (\<nexists>k. r1 = Inr (Some k))")
    case True
    then obtain k where "r2 = Inr (Some k)" "\<nexists>k. r1 = Inr (Some k)" by blast
    with assms(2) g b have "entry (fst (set_cached s2 now h k cacheTTL)) t h' = Some k'"
      by (auto simp: auth_lookup_def split: sum.splits option.splits)
    from set_entry [OF ttl this] e2 g b \<open>r2 = _\<close> show ?thesis by auto
  next
    case False
    with assms(2) g b e1 e2 show ?thesis
      by (auto simp: auth_lookup_def split: sum.splits option.splits)
  qed
qed

end

text \<open>The interface on the state of the server.\<close>

definition be_entry :: "'z backends_scheme \<Rightarrow> gotime \<Rightarrow> string \<Rightarrow> APIKey option" where
  "be_entry st = key_entry (be_redis st)"

interpretation keys: api_key_cache get_key set_key del_key be_entry stored_key
proof unfold_locales
  fix s :: "'z backends_scheme" and now h s' k
  assume "get_key s now h = (s', Inr (Some k))"
  then show "be_entry s now h = Some k"
    by (auto simp: get_key_def on_redis_def be_entry_def split: prod.splits dest: redis_keys.get_hit)
next
  fix s :: "'z backends_scheme" and now h
  show "be_entry (fst (get_key s now h)) = be_entry s"
    using redis_keys.get_entry [of "be_redis s" now h]
    by (simp add: get_key_def on_redis_def be_entry_def case_prod_unfold)
next
  fix ttl t h' k' now h k and s :: "'z backends_scheme"
  assume "(0 :: int) < ttl" "be_entry (fst (set_key s now h k ttl)) t h' = Some k'"
  then show "be_entry s t h' = Some k' \<or> h' = h \<and> k' = stored_key h k \<and> t_ns t < t_ns now + ttl"
    using redis_keys.set_entry [of ttl "be_redis s" now h k t h' k']
    by (simp add: set_key_def on_redis_def be_entry_def case_prod_unfold)
next
  fix s :: "'z backends_scheme" and h t h' k'
  assume "be_entry (fst (del_key s h)) t h' = Some k'"
  then show "be_entry s t h' = Some k'"
    using redis_keys.del_entry [of "be_redis s" h t h' k']
    by (simp add: del_key_def on_redis_def be_entry_def case_prod_unfold)
qed

lemma key_by_hash_entry: "be_entry (fst (key_by_hash st h)) = be_entry st"
  by (simp add: key_by_hash_def on_pg_def be_entry_def case_prod_unfold)

lemma key_by_hash_row:
  assumes "snd (key_by_hash st h) = Inr (Some k)"
  shows "\<exists>row \<in> set (pg_api_keys (be_pg st)). key_KeyHash row = h \<and> key_OrgID row = key_OrgID k
           \<and> key_Scopes row = key_Scopes k \<and> key_RevokedAt row = key_RevokedAt k
           \<and> key_KeyHash k = h"
  using assms
  by (auto simp: key_by_hash_def on_pg_def GetAPIKeyByHash_def pg_query_def pg_exec_def Let_def
      api_key_row_def find_Some_iff case_prod_unfold split: if_splits option.splits)

end
