(* ===== verification/Key_Revocation.thy ===== *)
theory Key_Revocation
  imports Ingest_Middleware
begin

text \<open>
  The life of an API key across PostgreSQL, the Redis cache and the authentication of the
  ingestion API: how long a revoked key is still accepted. A state is the instant and the two
  stores; the steps are the operations of both servers, in any order and with any failures.
\<close>

inductive key_step :: "gotime \<times> 'z backends_scheme \<Rightarrow> gotime \<times> 'z backends_scheme \<Rightarrow> bool" where
  authenticate: "key_step (now, st) (now, fst (auth_lookup get_key set_key key_by_hash now h st))"
| create: "key_step (now, st)
             (now, fst (on_pg (\<lambda>db. CreateAPIKey db now org name pre h scopes prj) st))"
| revoke: "key_step (now, st) (now, fst (on_pg (\<lambda>db. RevokeAPIKey db now org keyID) st))"
| invalidate: "key_step (now, st) (now, fst (del_key st h))"
| elsewhere: "be_entry st' = be_entry st \<Longrightarrow> pg_api_keys (be_pg st') = pg_api_keys (be_pg st)
                \<Longrightarrow> key_step (now, st) (now, st')"
| tick: "t_ns now \<le> t_ns now' \<Longrightarrow> key_step (now, st) (now', st)"

inductive_cases key_stepE: "key_step (now, st) (now', st')"

definition keys_initial :: "'z backends_scheme \<Rightarrow> bool" where
  "keys_initial st \<longleftrightarrow> rd_data (be_redis st) = Map.empty"

text \<open>
  The rows that back a cache entry at an instant: same hash, organisation and scopes, and not
  revoked longer than the time to live.
\<close>

definition backed :: "APIKey list \<Rightarrow> gotime \<Rightarrow> string \<Rightarrow> APIKey \<Rightarrow> bool" where
  "backed rows t h k \<longleftrightarrow>
     (\<exists>row \<in> set rows. key_KeyHash row = h \<and> key_OrgID row = key_OrgID k
        \<and> key_Scopes row = key_Scopes k
        \<and> (case key_RevokedAt row of None \<Rightarrow> True | Some rv \<Rightarrow> t_ns t < t_ns rv + cacheTTL))"

definition cache_fresh :: "gotime \<times> 'z backends_scheme \<Rightarrow> bool" where
  "cache_fresh s \<longleftrightarrow>
     (\<forall>t h k. t_ns (fst s) \<le> t_ns t \<longrightarrow> be_entry (snd s) t h = Some k \<longrightarrow>
        t_ns t < t_ns (fst s) + cacheTTL
        \<and> (key_RevokedAt k = None \<longrightarrow> backed (pg_api_keys (be_pg (snd s))) t h k))"

lemma cache_freshI:
  assumes "\<And>t h k. t_ns now \<le> t_ns t \<Longrightarrow> be_entry st t h = Some k \<Longrightarrow>
      t_ns t < t_ns now + cacheTTL \<and> (key_RevokedAt k = None \<longrightarrow> backed (pg_api_keys (be_pg st)) t h k)"
  shows "cache_fresh (now, st)"
  using assms by (simp add: cache_fresh_def)

lemma cache_freshD:
  assumes "cache_fresh (now, st)" "t_ns now \<le> t_ns t" "be_entry st t h = Some k"
  shows "t_ns t < t_ns now + cacheTTL" "key_RevokedAt k = None \<Longrightarrow> backed (pg_api_keys (be_pg st)) t h k"
  using assms by (auto simp: cache_fresh_def)

lemma stored_key_simps [simp]:
  "key_RevokedAt (stored_key h k) = key_RevokedAt k" "key_OrgID (stored_key h k) = key_OrgID k"
  "key_Scopes (stored_key h k) = key_Scopes k" "key_KeyHash (stored_key h k) = h"
  by (simp_all add: stored_key_def of_cached_def cached_of_def)

text \<open>Rows are only added, or revoked now.\<close>

lemma create_rows:
  "set (pg_api_keys (be_pg st))
     \<subseteq> set (pg_api_keys (be_pg (fst (on_pg (\<lambda>db. CreateAPIKey db now org name pre h scopes prj) st))))"
  by (auto simp: on_pg_def CreateAPIKey_def pg_exec_def Let_def case_prod_unfold)

lemma RevokeAPIKey_rows:
  "pg_api_keys (fst (RevokeAPIKey db now org keyID)) =
     (if pg_fails db (pg_stmts db) then pg_api_keys db
      else update_where (revokes org keyID) (\<lambda>k. k\<lparr>key_RevokedAt := Some now\<rparr>) (pg_api_keys db))"
proof -
  have "update_where p f xs = xs" if "\<forall>x \<in> set xs. \<not> p x" for p f and xs :: "APIKey list"
    using that by (simp add: update_where_def map_idI)
  then show ?thesis by (simp add: RevokeAPIKey_def pg_exec_def Let_def)
qed

lemma in_update_where:
  "x \<in> set xs \<Longrightarrow> (if p x then f x else x) \<in> set (update_where p f xs)"
  by (auto simp: update_where_def)

lemma revoke_rows:
  assumes "row \<in> set (pg_api_keys (be_pg st))"
  obtains row' where
    "row' \<in> set (pg_api_keys (be_pg (fst (on_pg (\<lambda>db. RevokeAPIKey db now org keyID) st))))"
    "row' = row \<or> (key_RevokedAt row = None \<and> row' = row\<lparr>key_RevokedAt := Some now\<rparr>)"
proof (cases "pg_fails (be_pg st) (pg_stmts (be_pg st)) \<or> \<not> revokes org keyID row")
  case True
  with in_update_where [OF assms, of "revokes org keyID" "\<lambda>k. k\<lparr>key_RevokedAt := Some now\<rparr>"] assms
  show ?thesis
    by (intro that [of row]) (auto simp: on_pg_def case_prod_unfold RevokeAPIKey_rows)
next
  case False
  with in_update_where [OF assms, of "revokes org keyID" "\<lambda>k. k\<lparr>key_RevokedAt := Some now\<rparr>"] that
  show ?thesis by (simp add: on_pg_def case_prod_unfold RevokeAPIKey_rows revokes_def)
qed

lemma lookup_rows:
  "pg_api_keys (be_pg (fst (auth_lookup get_key set_key key_by_hash now h st))) = pg_api_keys (be_pg st)"
  by (auto simp: auth_lookup_def get_key_def set_key_def key_by_hash_def on_redis_def on_pg_def
      GetAPIKeyByHash_def pg_query_def pg_exec_def Let_def case_prod_unfold
      split: sum.split option.split)

lemma get_key_pg: "be_pg (fst (get_key st now h)) = be_pg st"
  by (simp add: get_key_def on_redis_def case_prod_unfold)

lemma key_step_fresh:
  assumes "key_step s s'" "cache_fresh s"
  shows "cache_fresh s'"
  using assms
proof (induction rule: key_step.induct)
  case (authenticate now st h)
  show ?case
  proof (rule cache_freshI)
    fix t h' k'
    assume t: "t_ns now \<le> t_ns t"
      and e: "be_entry (fst (auth_lookup get_key set_key key_by_hash now h st)) t h' = Some k'"
    from keys.auth_lookup_entry [OF _ e] key_by_hash_entry
    consider "be_entry st t h' = Some k'"
      | k where "h' = h" "t_ns t < t_ns now + cacheTTL"
        "snd (key_by_hash (fst (get_key st now h)) h) = Inr (Some k)" "k' = stored_key h k" by blast
    then show "t_ns t < t_ns now + cacheTTL
        \<and> (key_RevokedAt k' = None \<longrightarrow>
            backed (pg_api_keys (be_pg (fst (auth_lookup get_key set_key key_by_hash now h st)))) t h' k')"
    proof cases
      case 1
      with authenticate t show ?thesis by (simp add: lookup_rows cache_freshD)
    next
      case 2
      with key_by_hash_row [OF 2(3)] show ?thesis
        by (auto simp: lookup_rows get_key_pg backed_def split: option.split)
    qed
  qed
next
  case (create now st org name pre h scopes prj)
  then show ?case
    using create_rows
    by (intro cache_freshI) (fastforce simp: on_pg_def be_entry_def case_prod_unfold backed_def
        dest: cache_freshD)
next
  case (revoke now st org keyID)
  show ?case
  proof (rule cache_freshI)
    fix t h k
    let ?st' = "fst (on_pg (\<lambda>db. RevokeAPIKey db now org keyID) st)"
    assume t: "t_ns now \<le> t_ns t" and e: "be_entry ?st' t h = Some k"
    then have e: "be_entry st t h = Some k" by (simp add: on_pg_def be_entry_def case_prod_unfold)
    have ttl: "t_ns t < t_ns now + cacheTTL" by (rule cache_freshD [OF revoke t e])
    moreover have "backed (pg_api_keys (be_pg ?st')) t h k" if "key_RevokedAt k = None"
    proof -
      from cache_freshD(2) [OF revoke t e that] obtain row where
        row: "row \<in> set (pg_api_keys (be_pg st))" "key_KeyHash row = h" "key_OrgID row = key_OrgID k"
          "key_Scopes row = key_Scopes k"
          "case key_RevokedAt row of None \<Rightarrow> True | Some rv \<Rightarrow> t_ns t < t_ns rv + cacheTTL"
        by (auto simp: backed_def)
      obtain row' where "row' \<in> set (pg_api_keys (be_pg ?st'))"
        "row' = row \<or> (key_RevokedAt row = None \<and> row' = row\<lparr>key_RevokedAt := Some now\<rparr>)"
        by (rule revoke_rows [OF row(1), of now org keyID])
      with row(2-) ttl show ?thesis
        unfolding backed_def by (intro bexI [of _ row']) auto
    qed
    ultimately show "t_ns t < t_ns now + cacheTTL
        \<and> (key_RevokedAt k = None \<longrightarrow> backed (pg_api_keys (be_pg ?st')) t h k)" by blast
  qed
next
  case (invalidate now st h)
  then show ?case
    using keys.del_entry [of st h]
    by (intro cache_freshI)
      (auto simp: del_key_def on_redis_def case_prod_unfold dest: cache_freshD)
next
  case (elsewhere st' st now)
  then show ?case by (intro cache_freshI) (auto dest: cache_freshD)
next
  case (tick now now' st)
  show ?case
  proof (rule cache_freshI)
    fix t h k
    assume "t_ns now' \<le> t_ns t" "be_entry st t h = Some k"
    with tick cache_freshD [of now st t h k]
    show "t_ns t < t_ns now' + cacheTTL
        \<and> (key_RevokedAt k = None \<longrightarrow> backed (pg_api_keys (be_pg st)) t h k)" by auto
  qed
qed

lemma reachable_fresh:
  assumes "key_step\<^sup>*\<^sup>* (now0, st0) s" "keys_initial st0"
  shows "cache_fresh s"
  using assms
proof (induction rule: rtranclp_induct)
  case base
  then show ?case
    by (intro cache_freshI) (simp add: keys_initial_def be_entry_def key_entry_def rd_live_def)
next
  case (step y z)
  then show ?case by (blast intro: key_step_fresh)
qed

section \<open>Who gets in\<close>

lemma lookup_backed:
  assumes "cache_fresh (now, st)"
    and l: "auth_lookup get_key set_key key_by_hash now h st = (st', Inr (Some k))"
    and n: "key_RevokedAt k = None"
  shows "backed (pg_api_keys (be_pg st)) now h k"
proof -
  from keys.auth_lookup_sound [OF l]
  consider "be_entry st now h = Some k" | "snd (key_by_hash (fst (get_key st now h)) h) = Inr (Some k)"
    by blast
  then show ?thesis
  proof cases
    case 1
    with cache_freshD(2) [OF assms(1) _ 1 n] show ?thesis by simp
  next
    case 2
    from key_by_hash_row [OF this] n show ?thesis by (auto simp: get_key_pg backed_def)
  qed
qed

lemma TrimPrefix_changed: "TrimPrefix s p \<noteq> s \<Longrightarrow> s = p @ TrimPrefix s p"
  by (auto simp: TrimPrefix_def HasPrefix_def prefix_def split: if_splits)

lemma AuthMiddleware_pass:
  assumes "rq_Header r ''Authorization'' \<noteq> []"
    and "TrimPrefix (rq_Header r ''Authorization'') ''Bearer '' = token"
    and "token \<noteq> rq_Header r ''Authorization''" "ValidateFormat token = None"
    and "auth_lookup get_cached set_cached by_hash now (HashKey token) st = (st1, Inr (Some k))"
    and "\<not> IsRevoked k" "HasScope k ''write''"
  shows "AuthMiddleware get_cached set_cached by_hash now next_h st r w =
     next_h st1 (r\<lparr>rq_Ctx := (rq_Ctx r)\<lparr>ctx_OrgID := Some (key_OrgID k),
                                       ctx_OrgTier := Some (key_Tier k)\<rparr>\<rparr>) w"
  unfolding AuthMiddleware_def Let_def assms(2) using assms(1,3-) by simp

lemma AuthMiddleware_stop:
  assumes "TrimPrefix (rq_Header r ''Authorization'') ''Bearer '' = token"
    and "auth_lookup get_cached set_cached by_hash now (HashKey token) st = (st1, res)"
    and "\<not> (rq_Header r ''Authorization'' \<noteq> [] \<and> token \<noteq> rq_Header r ''Authorization''
           \<and> ValidateFormat token = None
           \<and> (\<exists>k. res = Inr (Some k) \<and> \<not> IsRevoked k \<and> HasScope k ''write''))"
  shows "\<exists>st1 w1. rs_Status w1 \<in> {401, 403, 500}
            \<and> (\<forall>next_h. AuthMiddleware get_cached set_cached by_hash now next_h st r w = (st1, w1))"
proof -
  let ?hd = "rq_Header r ''Authorization''"
  consider "?hd = []" | "?hd \<noteq> []" "token = ?hd" | "?hd \<noteq> []" "token \<noteq> ?hd" "ValidateFormat token \<noteq> None"
    | e where "?hd \<noteq> []" "token \<noteq> ?hd" "ValidateFormat token = None" "res = Inl e"
    | "?hd \<noteq> []" "token \<noteq> ?hd" "ValidateFormat token = None" "res = Inr None"
    | k where "?hd \<noteq> []" "token \<noteq> ?hd" "ValidateFormat token = None" "res = Inr (Some k)"
        "IsRevoked k"
    | k where "?hd \<noteq> []" "token \<noteq> ?hd" "ValidateFormat token = None" "res = Inr (Some k)"
        "\<not> IsRevoked k" "\<not> HasScope k ''write''"
    using assms(3) by (cases res) (fastforce simp: not_None_eq)+
  then show ?thesis
    unfolding AuthMiddleware_def Let_def assms(1)
    by cases (use assms(2) in \<open>auto simp: unauthorized_def\<close>)
qed

lemma AuthMiddleware_cases:
  assumes "cache_fresh (now, st)"
  shows "(\<exists>st1 w1. rs_Status w1 \<in> {401, 403, 500}
            \<and> (\<forall>next_h. AuthMiddleware get_key set_key key_by_hash now next_h st r w = (st1, w1)))
       \<or> (\<exists>token row tier st1.
            rq_Header r ''Authorization'' = ''Bearer '' @ token \<and> ValidateFormat token = None
            \<and> row \<in> set (pg_api_keys (be_pg st)) \<and> key_KeyHash row = HashKey token
            \<and> ''write'' \<in> set (key_Scopes row)
            \<and> (case key_RevokedAt row of None \<Rightarrow> True | Some rv \<Rightarrow> t_ns now < t_ns rv + 5 * minute)
            \<and> (\<forall>next_h. AuthMiddleware get_key set_key key_by_hash now next_h st r w =
                 next_h st1
                   (r\<lparr>rq_Ctx := (rq_Ctx r)\<lparr>ctx_OrgID := Some (key_OrgID row),
                                         ctx_OrgTier := Some tier\<rparr>\<rparr>) w))"
proof -
  define token where token: "token = TrimPrefix (rq_Header r ''Authorization'') ''Bearer ''"
  obtain st1 res where l: "auth_lookup get_key set_key key_by_hash now (HashKey token) st = (st1, res)"
    by fastforce
  show ?thesis
  proof (cases "rq_Header r ''Authorization'' \<noteq> [] \<and> token \<noteq> rq_Header r ''Authorization''
      \<and> ValidateFormat token = None \<and> (\<exists>k. res = Inr (Some k) \<and> \<not> IsRevoked k \<and> HasScope k ''write'')")
    case True
    then obtain k where k: "res = Inr (Some k)" "\<not> IsRevoked k" "HasScope k ''write''" by blast
    then have "backed (pg_api_keys (be_pg st)) now (HashKey token) k"
      using lookup_backed [OF assms, of "HashKey token" st1 k] l by (simp add: IsRevoked_def)
    then obtain row where row: "row \<in> set (pg_api_keys (be_pg st))" "key_KeyHash row = HashKey token"
      "key_OrgID row = key_OrgID k" "key_Scopes row = key_Scopes k"
      "case key_RevokedAt row of None \<Rightarrow> True | Some rv \<Rightarrow> t_ns now < t_ns rv + 5 * minute"
      unfolding backed_def cacheTTL_def by blast
    have hd: "rq_Header r ''Authorization'' = ''Bearer '' @ token"
      unfolding token by (rule TrimPrefix_changed) (use True token in blast)
    have "''write'' \<in> set (key_Scopes row)" using k(3) row(4) by (metis HasScope_iff)
    moreover have "AuthMiddleware get_key set_key key_by_hash now next_h st r w =
        next_h st1 (r\<lparr>rq_Ctx := (rq_Ctx r)\<lparr>ctx_OrgID := Some (key_OrgID row),
                                          ctx_OrgTier := Some (key_Tier k)\<rparr>\<rparr>) w" for next_h
      unfolding row(3) by (rule AuthMiddleware_pass) (use True token l k in blast)+
    ultimately show ?thesis using True hd row(1,2,5) by blast
  next
    case False
    from AuthMiddleware_stop [OF token [symmetric] l False, of w] show ?thesis by (rule disjI1)
  qed
qed

text \<open>
  C2: In every state that the two servers can reach from an empty cache, the authentication
  either answers 401, 403 or 500 without running the handler, or runs it for the organisation of
  a stored key with the hash of the presented well-formed token and the write scope, which is not
  revoked or was revoked less than five minutes ago.
\<close>

theorem AuthMiddleware_admits:
  assumes "key_step\<^sup>*\<^sup>* (now0, st0) (now, st)" and "keys_initial st0"
  shows "(\<exists>st1 w1. rs_Status w1 \<in> {401, 403, 500}
            \<and> (\<forall>next_h. AuthMiddleware get_key set_key key_by_hash now next_h st r w = (st1, w1)))
       \<or> (\<exists>token row tier st1.
            rq_Header r ''Authorization'' = ''Bearer '' @ token \<and> ValidateFormat token = None
            \<and> row \<in> set (pg_api_keys (be_pg st)) \<and> key_KeyHash row = HashKey token
            \<and> ''write'' \<in> set (key_Scopes row)
            \<and> (case key_RevokedAt row of None \<Rightarrow> True | Some rv \<Rightarrow> t_ns now < t_ns rv + 5 * minute)
            \<and> (\<forall>next_h. AuthMiddleware get_key set_key key_by_hash now next_h st r w =
                 next_h st1
                   (r\<lparr>rq_Ctx := (rq_Ctx r)\<lparr>ctx_OrgID := Some (key_OrgID row),
                                         ctx_OrgTier := Some tier\<rparr>\<rparr>) w))"
  by (rule AuthMiddleware_cases [OF reachable_fresh [OF assms]])

text \<open>A state one creation after the start: an organisation and its first key.\<close>

definition sample_backends :: backends where
  "sample_backends =
     \<lparr>be_redis = \<lparr>rd_data = Map.empty, rd_cmds = 0, rd_fails = \<lambda>_. False\<rparr>,
      be_pg = fst (CreateOrg (pg_empty (\<lambda>n. dec n) (\<lambda>_. False) []) zero_time ''Acme'' ''acme'')\<rparr>"

definition sample_key :: string where
  "sample_key = ''pm_live_'' @ replicate 32 (CHR ''x'')"

definition sample_state :: backends where
  "sample_state =
     fst (on_pg (\<lambda>db. CreateAPIKey db zero_time ''0'' ''Default'' ''pm_live_xxxx'' (HashKey sample_key)
                        [''read'', ''write''] None) sample_backends)"

theorem AuthMiddleware_admits_witness:
  "(\<exists>st1 w1. rs_Status w1 \<in> {401, 403, 500}
      \<and> (\<forall>next_h. AuthMiddleware get_key set_key key_by_hash zero_time next_h sample_state
            (sample_request\<lparr>rq_Header := (\<lambda>_. ''Bearer '' @ sample_key)\<rparr>) fresh_response = (st1, w1)))
   \<or> (\<exists>token row tier st1.
        rq_Header (sample_request\<lparr>rq_Header := (\<lambda>_. ''Bearer '' @ sample_key)\<rparr>) ''Authorization''
          = ''Bearer '' @ token
        \<and> ValidateFormat token = None
        \<and> row \<in> set (pg_api_keys (be_pg sample_state)) \<and> key_KeyHash row = HashKey token
        \<and> ''write'' \<in> set (key_Scopes row)
        \<and> (case key_RevokedAt row of None \<Rightarrow> True
            | Some rv \<Rightarrow> t_ns zero_time < t_ns rv + 5 * minute)
        \<and> (\<forall>next_h. AuthMiddleware get_key set_key key_by_hash zero_time next_h sample_state
              (sample_request\<lparr>rq_Header := (\<lambda>_. ''Bearer '' @ sample_key)\<rparr>) fresh_response =
             next_h st1
               ((sample_request\<lparr>rq_Header := (\<lambda>_. ''Bearer '' @ sample_key)\<rparr>)
                  \<lparr>rq_Ctx := (rq_Ctx (sample_request\<lparr>rq_Header := (\<lambda>_. ''Bearer '' @ sample_key)\<rparr>))
                     \<lparr>ctx_OrgID := Some (key_OrgID row), ctx_OrgTier := Some tier\<rparr>\<rparr>) fresh_response))"
proof (rule AuthMiddleware_admits)
  show "key_step\<^sup>*\<^sup>* (zero_time, sample_backends) (zero_time, sample_state)"
    unfolding sample_state_def by (rule r_into_rtranclp, rule key_step.create)
  show "keys_initial sample_backends" by (simp add: keys_initial_def sample_backends_def)
qed

end
