(* ===== verification/Worker_Cost.thy ===== *)
theory Worker_Cost
  imports Postgres_Store
begin

text \<open>
  Package \<open>worker\<close>, \<open>cost.go\<close>: the cache of model prices and the cost of an event. The map of
  the cache is built by appending in the order of the rows, which \<open>GetAllPrices\<close> sorts by
  descending date; \<open>CalculateCost\<close> takes the first row in force, and changes the tags of its
  event when it finds none.
\<close>

type_synonym priceKey = "string \<times> string"

record PriceCache =
  pc_prices :: "priceKey \<rightharpoonup> ModelPrice list"

definition NewPriceCache :: PriceCache where
  "NewPriceCache = \<lparr>pc_prices = Map.empty\<rparr>"

fun refresh_loop :: "ModelPrice list \<Rightarrow> (priceKey \<rightharpoonup> ModelPrice list) \<Rightarrow> (priceKey \<rightharpoonup> ModelPrice list)" where
  "refresh_loop [] m = m"
| "refresh_loop (p # ps) m =
     (let key = (mp_Provider p, mp_ModelName p);
          old = (case m key of None \<Rightarrow> [] | Some l \<Rightarrow> l)
      in refresh_loop ps (m(key \<mapsto> old @ [p])))"

text \<open>A failed query leaves the cache as it is.\<close>

definition refresh :: "ModelPrice list result \<Rightarrow> PriceCache \<Rightarrow> PriceCache \<times> unit result" where
  "refresh allPrices c =
     (case allPrices of
        Inl e \<Rightarrow> (c, Inl e)
      | Inr ps \<Rightarrow> (c\<lparr>pc_prices := refresh_loop ps Map.empty\<rparr>, Inr ()))"

fun match_loop :: "gotime \<Rightarrow> ModelPrice list \<Rightarrow> ModelPrice option" where
  "match_loop eventDate [] = None"
| "match_loop eventDate (p # ps) =
     (if \<not> After (mp_EffectiveFrom p) eventDate then Some p else match_loop eventDate ps)"

definition warn_unknown :: "Event \<Rightarrow> Event" where
  "warn_unknown e = e\<lparr>ev_Tags := (ev_Tags e)(''_warning'' \<mapsto> ''unknown_model'')\<rparr>"

definition CalculateCost :: "PriceCache \<Rightarrow> Event \<Rightarrow> Event \<times> f64" where
  "CalculateCost c event =
     (case pc_prices c (ev_Provider event, ev_Model event) of
        None \<Rightarrow> (warn_unknown event, 0)
      | Some prices \<Rightarrow>
          (case match_loop (ev_Timestamp event) prices of
             None \<Rightarrow> (warn_unknown event, 0)
           | Some matched \<Rightarrow>
               let inputCost = fdiv (fmul (f64_of_u32 (ev_PromptTokens event))
                                  (mp_InputPricePerMillion matched)) 1000000;
                   outputCost = fdiv (fmul (f64_of_u32 (ev_CompletionTokens event))
                                  (mp_OutputPricePerMillion matched)) 1000000
               in (event, fadd inputCost outputCost)))"

section \<open>The newest price in force\<close>

definition price_for :: "Event \<Rightarrow> ModelPrice \<Rightarrow> bool" where
  "price_for e p \<longleftrightarrow> mp_Provider p = ev_Provider e \<and> mp_ModelName p = ev_Model e
     \<and> t_ns (mp_EffectiveFrom p) \<le> t_ns (ev_Timestamp e)"

definition price_cost :: "ModelPrice \<Rightarrow> Event \<Rightarrow> f64" where
  "price_cost p e =
     fadd (fdiv (fmul (of_nat (unat (ev_PromptTokens e))) (mp_InputPricePerMillion p)) 1000000)
          (fdiv (fmul (of_nat (unat (ev_CompletionTokens e))) (mp_OutputPricePerMillion p)) 1000000)"

lemma refresh_loop_get:
  "refresh_loop ps m key =
     (let old = (case m key of None \<Rightarrow> [] | Some l \<Rightarrow> l);
          new = filter (\<lambda>p. (mp_Provider p, mp_ModelName p) = key) ps
      in if new = [] then m key else Some (old @ new))"
  by (induction ps arbitrary: m) (auto simp: Let_def split: option.splits)

lemma match_loop_Some:
  assumes "sorted (map (\<lambda>p. - t_ns (mp_EffectiveFrom p)) ps)" "match_loop d ps = Some p"
  shows "p \<in> set ps \<and> t_ns (mp_EffectiveFrom p) \<le> t_ns d
         \<and> (\<forall>q \<in> set ps. t_ns (mp_EffectiveFrom q) \<le> t_ns d \<longrightarrow>
              t_ns (mp_EffectiveFrom q) \<le> t_ns (mp_EffectiveFrom p))"
  using assms by (induction ps) (auto simp: After_def split: if_splits)

lemma match_loop_None:
  "match_loop d ps = None \<longleftrightarrow> (\<forall>q \<in> set ps. \<not> t_ns (mp_EffectiveFrom q) \<le> t_ns d)"
  by (induction ps) (auto simp: After_def)

text \<open>Restricted to one model, the order of the query is the order by descending date.\<close>

lemma filter_price_sorted:
  "sorted (map (\<lambda>p. - t_ns (mp_EffectiveFrom p))
     (filter (\<lambda>p. (mp_Provider p, mp_ModelName p) = key) (sort_key price_order ps)))"
proof -
  have "sorted (map price_order (filter (\<lambda>p. (mp_Provider p, mp_ModelName p) = key) (sort_key price_order ps)))"
    by (intro sorted_filter sorted_sort_key)
  then have "sorted_wrt (\<lambda>x y. price_order x \<le> price_order y)
      (filter (\<lambda>p. (mp_Provider p, mp_ModelName p) = key) (sort_key price_order ps))"
    by (simp add: sorted_map)
  then show ?thesis
    unfolding sorted_map
    by (rule sorted_wrt_mono_rel [rotated]) (auto simp: price_order_def less_eq_prod_def)
qed

lemma CalculateCost_prices:
  assumes "CalculateCost (fst (refresh (Inr (sort_key price_order ps)) c)) e = (e', cost)"
  shows "if \<exists>p \<in> set ps. price_for e p
     then e' = e \<and> (\<exists>p \<in> set ps. price_for e p \<and> cost = price_cost p e
            \<and> (\<forall>q \<in> set ps. price_for e q \<longrightarrow> t_ns (mp_EffectiveFrom q) \<le> t_ns (mp_EffectiveFrom p)))
     else e' = warn_unknown e \<and> cost = 0"
proof -
  let ?key = "(ev_Provider e, ev_Model e)"
  let ?ps = "filter (\<lambda>p. (mp_Provider p, mp_ModelName p) = ?key) (sort_key price_order ps)"
  have get: "pc_prices (fst (refresh (Inr (sort_key price_order ps)) c)) ?key
      = (if ?ps = [] then None else Some ?ps)"
    by (simp add: refresh_def refresh_loop_get Let_def)
  have set_ps: "set ?ps = {p \<in> set ps. mp_Provider p = ev_Provider e \<and> mp_ModelName p = ev_Model e}"
    by auto
  show ?thesis
  proof (cases "match_loop (ev_Timestamp e) ?ps")
    case None
    then have "\<not> (\<exists>p \<in> set ps. price_for e p)"
      unfolding match_loop_None set_ps price_for_def by blast
    with assms None show ?thesis by (auto simp: CalculateCost_def get split: if_splits)
  next
    case (Some p)
    note m = match_loop_Some [OF filter_price_sorted Some, unfolded set_ps]
    then have p: "p \<in> set ps" "price_for e p"
      "\<forall>q \<in> set ps. price_for e q \<longrightarrow> t_ns (mp_EffectiveFrom q) \<le> t_ns (mp_EffectiveFrom p)"
      by (auto simp: price_for_def)
    have ne: "?ps \<noteq> []" using Some by (cases ?ps) auto
    have "e' = e" "cost = price_cost p e"
      using assms ne Some by (auto simp: CalculateCost_def get Let_def price_cost_def)
    with p show ?thesis by auto
  qed
qed

text \<open>
  C7: After a refresh from the price table, an event is charged by the newest price of its
  provider and model that is in force at its timestamp, with its prompt and completion tokens;
  when the table has none, the cost is 0 and the event gets the warning tag.
\<close>

theorem CalculateCost_newest_price:
  "case CalculateCost (fst (refresh (Inr (sort_key price_order ps)) c)) e of (e', cost) \<Rightarrow>
     if filter (price_for e) ps = [] then e' = warn_unknown e \<and> cost = 0
     else e' = e \<and> (\<exists>p. p \<in> set (filter (price_for e) ps) \<and> cost = price_cost p e
            \<and> t_ns (mp_EffectiveFrom p)
                = Max (set (map (t_ns \<circ> mp_EffectiveFrom) (filter (price_for e) ps))))"
proof -
  obtain e' cost where r: "CalculateCost (fst (refresh (Inr (sort_key price_order ps)) c)) e = (e', cost)"
    by fastforce
  show ?thesis
  proof (cases "filter (price_for e) ps = []")
    case True
    with CalculateCost_prices [OF r] r show ?thesis by (auto simp: filter_empty_conv split: if_splits)
  next
    case False
    then have "\<exists>p \<in> set ps. price_for e p" by (auto simp: filter_empty_conv)
    with CalculateCost_prices [OF r] obtain p where p: "e' = e" "p \<in> set ps" "price_for e p"
      "cost = price_cost p e"
      "\<forall>q \<in> set ps. price_for e q \<longrightarrow> t_ns (mp_EffectiveFrom q) \<le> t_ns (mp_EffectiveFrom p)"
      by auto
    then have "t_ns (mp_EffectiveFrom p)
        = Max (set (map (t_ns \<circ> mp_EffectiveFrom) (filter (price_for e) ps)))"
      by (intro Max_eqI [symmetric]) auto
    with p r False show ?thesis by auto
  qed
qed

section \<open>The rounding error of a cost\<close>

definition exact_cost :: "ModelPrice \<Rightarrow> Event \<Rightarrow> rat" where
  "exact_cost p e =
     (of_nat (unat (ev_PromptTokens e)) * mp_InputPricePerMillion p
      + of_nat (unat (ev_CompletionTokens e)) * mp_OutputPricePerMillion p) / 1000000"

text \<open>A price of at least one billionth of a dollar, or none.\<close>

definition sane_price :: "f64 \<Rightarrow> bool" where
  "sane_price x \<longleftrightarrow> x = 0 \<or> 1 / 1000000000 \<le> x"

text \<open>One product and one division lose at most two roundings.\<close>

lemma term_error:
  assumes "sane_price c"
  shows "\<bar>fdiv (fmul (of_nat n) c) 1000000 - of_nat n * c / 1000000\<bar>
           \<le> of_nat n * c / 1000000 * (5 / 2 * 2 powi (- 53))"
    "fdiv (fmul (of_nat n) c) 1000000 = 0 \<or> 1 / 10 ^ 17 \<le> fdiv (fmul (of_nat n) c) 1000000"
proof -
  let ?u = "2 powi (- 53) :: rat"
  let ?x = "of_nat n * c"
  let ?y = "fl ?x / 1000000"
  have u: "0 \<le> ?u" "?u \<le> 1 / 2" by (simp_all add: power_int_minus)
  have x: "?x = 0 \<or> 1 / 10 ^ 9 \<le> ?x"
  proof (cases "n = 0 \<or> c = 0")
    case False
    then have "1 / 10 ^ 9 \<le> c" "1 \<le> (of_nat n :: rat)" "0 \<le> c" using assms by (auto simp: sane_price_def)
    with mult_mono [of 1 "of_nat n" "1 / 10 ^ 9" c] show ?thesis by simp
  qed auto
  then have x0: "0 \<le> ?x" by auto
  have rx: "\<bar>fl ?x - ?x\<bar> \<le> ?x * ?u" and hx: "fl ?x = 0 \<or> ?x / 2 \<le> fl ?x"
    using fl_rel [of ?x] x by auto
  have y: "?y = 0 \<or> 1 / 10 ^ 16 \<le> ?y" using hx x by auto
  then have y20: "?y = 0 \<or> 1 / 10 ^ 20 \<le> ?y" by auto
  note ry = fl_rel [OF y20]
  have scaled: "F / 1000000 \<le> X / 1000000 * (1 + w) \<and> \<bar>F / 1000000 - X / 1000000\<bar> \<le> X / 1000000 * w"
    if "\<bar>F - X\<bar> \<le> X * w" for F X w :: rat
    using that by (simp add: abs_le_iff field_simps)
  have yx: "?y \<le> ?x / 1000000 * (1 + ?u)" "\<bar>?y - ?x / 1000000\<bar> \<le> ?x / 1000000 * ?u"
    using scaled [OF rx] by auto
  have "?y * ?u \<le> ?x / 1000000 * (1 + ?u) * ?u" by (rule mult_right_mono [OF yx(1) u(1)])
  also have "\<dots> \<le> ?x / 1000000 * (3 / 2) * ?u"
    by (intro mult_right_mono mult_left_mono) (use u x0 in auto)
  finally have "\<bar>fl ?y - ?y\<bar> \<le> ?x / 1000000 * (3 / 2) * ?u" using ry(1) by linarith
  moreover have "\<bar>Z - V\<bar> \<le> V * (5 / 2 * w)" if "\<bar>Z - Y\<bar> \<le> V * (3 / 2) * w" "\<bar>Y - V\<bar> \<le> V * w"
    for Z Y V w :: rat
    using that unfolding abs_le_iff by (simp add: algebra_simps)
  ultimately show "\<bar>fdiv (fmul (of_nat n) c) 1000000 - ?x / 1000000\<bar> \<le> ?x / 1000000 * (5 / 2 * ?u)"
    unfolding fdiv_def fmul_def using yx(2) by blast
  show "fdiv (fmul (of_nat n) c) 1000000 = 0 \<or> 1 / 10 ^ 17 \<le> fdiv (fmul (of_nat n) c) 1000000"
    using ry(2) y unfolding fdiv_def fmul_def by auto
qed


text \<open>The first row of the seeded price table.\<close>

definition sample_price :: ModelPrice where
  "sample_price =
     \<lparr>mp_ID = ''1'', mp_Provider = ''openai'', mp_ModelName = ''gpt-4o'',
      mp_InputPricePerMillion = 5 / 2, mp_OutputPricePerMillion = 10,
      mp_EffectiveFrom = \<lparr>t_ns = 1715558400 * second, t_off = 0\<rparr>, mp_CreatedAt = zero_time\<rparr>"


end
