(* ===== verification/Worker_Batch.thy ===== *)
theory Worker_Batch
  imports Redis_Store "HOL-Library.Multiset"
begin

text \<open>
  Package \<open>worker\<close>, \<open>batchwriter.go\<close>: the buffer between the consumers and ClickHouse. \<open>Flush\<close>
  gives up its lock while it inserts, so it is two steps here, \<open>Flush_begin\<close> and \<open>Flush_end\<close>,
  with any steps of other goroutines between them; \<open>Flush\<close> is their composition. An ack function
  is the number of the message it acknowledges. The clock is an argument.
\<close>

section \<open>The writer\<close>

definition defaultBatchSize :: int where "defaultBatchSize = 10000"
definition defaultFlushInterval :: int where "defaultFlushInterval = 5 * second"
definition defaultMaxMemoryMB :: int where "defaultMaxMemoryMB = 50"

record BatchWriter =
  bw_batchSize :: int
  bw_flushInterval :: int
  bw_maxMemBytes :: int
  bw_buffer :: "Event list"
  bw_memBytes :: int
  bw_firstAt :: gotime
  bw_ackFuncs :: "nat list"

definition NewBatchWriter :: "int \<Rightarrow> int \<Rightarrow> BatchWriter" where
  "NewBatchWriter batchSize flushInterval =
     (let batchSize = (if batchSize \<le> 0 then defaultBatchSize else batchSize);
          flushInterval = (if flushInterval \<le> 0 then defaultFlushInterval else flushInterval)
      in \<lparr>bw_batchSize = batchSize, bw_flushInterval = flushInterval,
          bw_maxMemBytes = defaultMaxMemoryMB * 1024 * 1024, bw_buffer = [], bw_memBytes = 0,
          bw_firstAt = zero_time, bw_ackFuncs = []\<rparr>)"

text \<open>The size of the structure on a 64-bit machine, and the texts and tags it points to.\<close>

definition sizeof_Event :: int where "sizeof_Event = 248"

definition estimateEventSize :: "Event \<Rightarrow> int" where
  "estimateEventSize e =
     sizeof_Event
     + int (length (ev_EventID e) + length (ev_Model e) + length (ev_Provider e) + length (ev_Prompt e)
            + length (ev_Response e) + length (ev_S3Key e) + length (ev_PromptHash e))
     + (\<Sum>k \<in> dom (ev_Tags e). int (length k + length (the (ev_Tags e k))))"

definition shouldFlush :: "BatchWriter \<Rightarrow> gotime \<Rightarrow> bool" where
  "shouldFlush bw now =
     (if bw_batchSize bw \<le> int (length (bw_buffer bw)) then True
      else if bw_maxMemBytes bw \<le> bw_memBytes bw then True
      else if \<not> IsZero (bw_firstAt bw) \<and> bw_flushInterval bw \<le> Sub now (bw_firstAt bw) then True
      else False)"

definition Add_event :: "BatchWriter \<Rightarrow> gotime \<Rightarrow> Event \<Rightarrow> nat \<Rightarrow> BatchWriter \<times> bool" where
  "Add_event bw now event ackFn =
     (let bw = (if length (bw_buffer bw) = 0 then bw\<lparr>bw_firstAt := now\<rparr> else bw);
          bw = bw\<lparr>bw_buffer := bw_buffer bw @ [event], bw_ackFuncs := bw_ackFuncs bw @ [ackFn],
                  bw_memBytes := bw_memBytes bw + estimateEventSize event\<rparr>
      in (bw, shouldFlush bw now))"

text \<open>The first critical section of \<open>Flush\<close>: \<^const>\<open>None\<close> when there is nothing to write.\<close>

definition Flush_begin :: "BatchWriter \<Rightarrow> (BatchWriter \<times> Event list \<times> nat list) option" where
  "Flush_begin bw =
     (if length (bw_buffer bw) = 0 then None
      else Some (bw\<lparr>bw_buffer := [], bw_ackFuncs := [], bw_memBytes := 0\<rparr>, bw_buffer bw, bw_ackFuncs bw))"

text \<open>
  After the insertion: on an error the batch goes back in front of what has arrived meanwhile,
  otherwise its messages are acknowledged.
\<close>

definition Flush_end :: "BatchWriter \<Rightarrow> Event list \<Rightarrow> nat list \<Rightarrow> bool \<Rightarrow> BatchWriter \<times> nat list" where
  "Flush_end bw events ackFuncs inserted =
     (if \<not> inserted
      then (bw\<lparr>bw_buffer := events @ bw_buffer bw, bw_ackFuncs := ackFuncs @ bw_ackFuncs bw,
               bw_memBytes := foldl (\<lambda>m e. m + estimateEventSize e) (bw_memBytes bw) events\<rparr>, [])
      else (bw, ackFuncs))"

definition Flush ::
    "(gotime \<Rightarrow> 's \<Rightarrow> Event list \<Rightarrow> 's \<times> unit result) \<Rightarrow> gotime \<Rightarrow> 's \<Rightarrow> BatchWriter
     \<Rightarrow> 's \<times> BatchWriter \<times> nat list" where
  "Flush insert_events now st bw =
     (case Flush_begin bw of
        None \<Rightarrow> (st, bw, [])
      | Some (bw, events, ackFuncs) \<Rightarrow>
          (case insert_events now st events of
             (st, Inl _) \<Rightarrow> (st, Flush_end bw events ackFuncs False)
           | (st, Inr _) \<Rightarrow> (st, Flush_end bw events ackFuncs True)))"

section \<open>The writer among other goroutines\<close>

text \<open>
  What the writer relies on (\<open>EventWriter\<close>): a successful insertion adds exactly the batch; one
  that reports an error adds the batch (the connection broke after the commit) or nothing.
\<close>

locale event_writer =
  fixes insert_events :: "gotime \<Rightarrow> 's \<Rightarrow> Event list \<Rightarrow> 's \<times> unit result"
    and rows :: "'s \<Rightarrow> 'r multiset"
    and row_of :: "Event \<Rightarrow> 'r"
  assumes insert_ok: "insert_events now s es = (s', Inr u) \<Longrightarrow> rows s' = rows s + mset (map row_of es)"
    and insert_err: "insert_events now s es = (s', Inl err) \<Longrightarrow>
          rows s' = rows s \<or> rows s' = rows s + mset (map row_of es)"

text \<open>
  The writer, the batches that are being inserted, the store, the messages handed over so far
  (number and event) and the acknowledged ones.
\<close>

record 's batch_sys =
  bs_writer :: BatchWriter
  bs_flushing :: "(Event list \<times> nat list) list"
  bs_store :: 's
  bs_added :: "(nat \<times> Event) list"
  bs_acked :: "nat list"

inductive batch_step ::
    "(gotime \<Rightarrow> 's \<Rightarrow> Event list \<Rightarrow> 's \<times> unit result) \<Rightarrow> 's batch_sys \<Rightarrow> 's batch_sys \<Rightarrow> bool"
  for insert_events where
  add: "batch_step insert_events s
          (s\<lparr>bs_writer := fst (Add_event (bs_writer s) now e n), bs_added := bs_added s @ [(n, e)]\<rparr>)"
| flush_begin: "Flush_begin (bs_writer s) = Some (bw, events, acks) \<Longrightarrow>
     batch_step insert_events s
       (s\<lparr>bs_writer := bw, bs_flushing := bs_flushing s @ [(events, acks)]\<rparr>)"
| flush_fail: "bs_flushing s = xs @ (events, acks) # ys \<Longrightarrow>
     insert_events now (bs_store s) events = (st, Inl err) \<Longrightarrow>
     batch_step insert_events s
       (s\<lparr>bs_writer := fst (Flush_end (bs_writer s) events acks False), bs_flushing := xs @ ys,
          bs_store := st, bs_acked := bs_acked s @ snd (Flush_end (bs_writer s) events acks False)\<rparr>)"
| flush_ok: "bs_flushing s = xs @ (events, acks) # ys \<Longrightarrow>
     insert_events now (bs_store s) events = (st, Inr u) \<Longrightarrow>
     batch_step insert_events s
       (s\<lparr>bs_writer := fst (Flush_end (bs_writer s) events acks True), bs_flushing := xs @ ys,
          bs_store := st, bs_acked := bs_acked s @ snd (Flush_end (bs_writer s) events acks True)\<rparr>)"

inductive_cases batch_stepE: "batch_step insert_events s s'"

section \<open>What is in memory\<close>

definition in_writer :: "BatchWriter \<Rightarrow> (nat \<times> Event) multiset" where
  "in_writer bw = mset (zip (bw_ackFuncs bw) (bw_buffer bw))"

definition in_flight :: "(Event list \<times> nat list) list \<Rightarrow> (nat \<times> Event) multiset" where
  "in_flight fs = (\<Sum>(es, as) \<leftarrow> fs. mset (zip as es))"

definition sizes :: "Event list \<Rightarrow> int" where
  "sizes es = (\<Sum>e \<leftarrow> es. estimateEventSize e)"

definition writer_ok :: "BatchWriter \<Rightarrow> bool" where
  "writer_ok bw \<longleftrightarrow>
     length (bw_ackFuncs bw) = length (bw_buffer bw) \<and> bw_memBytes bw = sizes (bw_buffer bw)"

definition flights_ok :: "(Event list \<times> nat list) list \<Rightarrow> bool" where
  "flights_ok fs \<longleftrightarrow> list_all (\<lambda>(es, as). length as = length es) fs"

lemma sizes_simps [simp]:
  "sizes [] = 0" "sizes (es @ es') = sizes es + sizes es'" "sizes (e # es) = estimateEventSize e + sizes es"
  by (simp_all add: sizes_def)

lemma foldl_sizes: "foldl (\<lambda>m e. m + estimateEventSize e) m es = m + sizes es"
  by (induction es arbitrary: m) auto

lemma in_flight_simps [simp]:
  "in_flight [] = {#}" "in_flight (fs @ gs) = in_flight fs + in_flight gs"
  "in_flight ((es, as) # fs) = mset (zip as es) + in_flight fs"
  by (simp_all add: in_flight_def)

lemma flights_ok_simps [simp]:
  "flights_ok []" "flights_ok (fs @ gs) \<longleftrightarrow> flights_ok fs \<and> flights_ok gs"
  "flights_ok ((es, as) # fs) \<longleftrightarrow> length as = length es \<and> flights_ok fs"
  by (auto simp: flights_ok_def)

lemma Add_event_ok:
  assumes "writer_ok bw"
  shows "writer_ok (fst (Add_event bw now e n))"
    "in_writer (fst (Add_event bw now e n)) = in_writer bw + {#(n, e)#}"
  using assms by (auto simp: Add_event_def writer_ok_def in_writer_def Let_def zip_append)

lemma Flush_begin_ok:
  assumes "Flush_begin bw = Some (bw', events, acks)" "writer_ok bw"
  shows "writer_ok bw'" "in_writer bw' = {#}" "mset (zip acks events) = in_writer bw"
    "length acks = length events"
  using assms by (auto simp: Flush_begin_def writer_ok_def in_writer_def split: if_splits)

lemma Flush_end_ok:
  assumes "writer_ok bw" "length acks = length events"
  shows "writer_ok (fst (Flush_end bw events acks ins))"
    "in_writer (fst (Flush_end bw events acks False)) = mset (zip acks events) + in_writer bw"
    "in_writer (fst (Flush_end bw events acks True)) = in_writer bw"
    "snd (Flush_end bw events acks True) = acks" "snd (Flush_end bw events acks False) = []"
  using assms by (auto simp: Flush_end_def writer_ok_def in_writer_def foldl_sizes zip_append)

section \<open>Conservation of messages\<close>

text \<open>
  Every message handed over is in the buffer, or in a batch that is being inserted, or done: then
  it is acknowledged and its event is in the store, besides the rows \<open>R\<close> of the start.
\<close>

definition batch_inv ::
    "('s \<Rightarrow> 'r multiset) \<Rightarrow> (Event \<Rightarrow> 'r) \<Rightarrow> 'r multiset \<Rightarrow> 's batch_sys \<Rightarrow> bool" where
  "batch_inv rows row_of R s \<longleftrightarrow>
     writer_ok (bs_writer s) \<and> flights_ok (bs_flushing s)
     \<and> (\<exists>finished. mset (bs_added s) = in_writer (bs_writer s) + in_flight (bs_flushing s) + mset finished
            \<and> bs_acked s = map fst finished \<and> R + mset (map (row_of \<circ> snd) finished) \<subseteq># rows (bs_store s))"

lemma batch_invI:
  assumes "writer_ok (bs_writer s)" "flights_ok (bs_flushing s)"
    and "mset (bs_added s) = in_writer (bs_writer s) + in_flight (bs_flushing s) + mset fin"
    and "bs_acked s = map fst fin" "R + mset (map (row_of \<circ> snd) fin) \<subseteq># rows (bs_store s)"
  shows "batch_inv rows row_of R s"
  using assms by (auto simp: batch_inv_def)

lemma batch_invE:
  assumes "batch_inv rows row_of R s"
  obtains fin where "writer_ok (bs_writer s)" "flights_ok (bs_flushing s)"
    "mset (bs_added s) = in_writer (bs_writer s) + in_flight (bs_flushing s) + mset fin"
    "bs_acked s = map fst fin" "R + mset (map (row_of \<circ> snd) fin) \<subseteq># rows (bs_store s)"
  using assms by (auto simp: batch_inv_def)

definition batch_start :: "BatchWriter \<Rightarrow> 's \<Rightarrow> 's batch_sys" where
  "batch_start bw st =
     \<lparr>bs_writer = bw, bs_flushing = [], bs_store = st, bs_added = [], bs_acked = []\<rparr>"

context event_writer
begin

lemma batch_step_inv:
  assumes "batch_step insert_events s s'" "batch_inv rows row_of R s"
  shows "batch_inv rows row_of R s'"
  using assms
proof (induction rule: batch_step.induct)
  case (add s now e n)
  from add obtain fin where i: "writer_ok (bs_writer s)" "flights_ok (bs_flushing s)"
    "mset (bs_added s) = in_writer (bs_writer s) + in_flight (bs_flushing s) + mset fin"
    "bs_acked s = map fst fin" "R + mset (map (row_of \<circ> snd) fin) \<subseteq># rows (bs_store s)" by (rule batch_invE)
  then show ?case by (intro batch_invI [of _ fin]) (simp_all add: Add_event_ok)
next
  case (flush_begin s bw events acks)
  from flush_begin.prems obtain fin where i: "writer_ok (bs_writer s)" "flights_ok (bs_flushing s)"
    "mset (bs_added s) = in_writer (bs_writer s) + in_flight (bs_flushing s) + mset fin"
    "bs_acked s = map fst fin" "R + mset (map (row_of \<circ> snd) fin) \<subseteq># rows (bs_store s)" by (rule batch_invE)
  with Flush_begin_ok [OF flush_begin.hyps i(1)] show ?case
    by (intro batch_invI [of _ fin]) simp_all
next
  case (flush_fail s xs events acks ys now st err)
  from flush_fail.prems obtain fin where i: "writer_ok (bs_writer s)" "flights_ok (bs_flushing s)"
    "mset (bs_added s) = in_writer (bs_writer s) + in_flight (bs_flushing s) + mset fin"
    "bs_acked s = map fst fin" "R + mset (map (row_of \<circ> snd) fin) \<subseteq># rows (bs_store s)" by (rule batch_invE)
  have l: "length acks = length events" using i(2) flush_fail.hyps(1) by simp
  have "rows (bs_store s) \<subseteq># rows st" using insert_err [OF flush_fail.hyps(2)] by auto
  with i l flush_fail.hyps(1) show ?case
    by (intro batch_invI [of _ fin]) (auto simp: Flush_end_ok intro: subset_mset.order_trans)
next
  case (flush_ok s xs events acks ys now st u)
  from flush_ok.prems obtain fin where i: "writer_ok (bs_writer s)" "flights_ok (bs_flushing s)"
    "mset (bs_added s) = in_writer (bs_writer s) + in_flight (bs_flushing s) + mset fin"
    "bs_acked s = map fst fin" "R + mset (map (row_of \<circ> snd) fin) \<subseteq># rows (bs_store s)" by (rule batch_invE)
  have l: "length acks = length events" using i(2) flush_ok.hyps(1) by simp
  have "R + mset (map (row_of \<circ> snd) (fin @ zip acks events)) \<subseteq># rows st"
    using insert_ok [OF flush_ok.hyps(2)] i(5) map_snd_zip [OF l]
    by (simp add: subset_mset.add_right_mono flip: add.assoc map_map)
  with i l flush_ok.hyps(1) show ?case
    by (intro batch_invI [of _ "fin @ zip acks events"]) (simp_all add: Flush_end_ok)
qed

lemma batch_reach_inv:
  assumes "(batch_step insert_events)\<^sup>*\<^sup>* (batch_start (NewBatchWriter n d) st) s"
  shows "batch_inv rows row_of (rows st) s"
  using assms
proof (induction rule: rtranclp_induct)
  case base
  show ?case
    by (rule batch_invI [of _ "[]"])
      (simp_all add: batch_start_def NewBatchWriter_def writer_ok_def in_writer_def Let_def)
next
  case (step y z)
  then show ?case by (blast intro: batch_step_inv)
qed

text \<open>A flush on its own either empties the writer into the store or leaves it as it was.\<close>

lemma Flush_atomic:
  assumes "writer_ok bw" "Flush insert_events now st bw = (st', bw', acked)"
  shows "(bw_buffer bw' = [] \<and> bw_memBytes bw' = 0 \<and> acked = bw_ackFuncs bw
            \<and> rows st' = rows st + mset (map row_of (bw_buffer bw)))
       \<or> (bw' = bw \<and> acked = [] \<and> (rows st' = rows st \<or> rows st' = rows st + mset (map row_of (bw_buffer bw))))"
proof (cases "bw_buffer bw = []")
  case True
  with assms show ?thesis by (auto simp: Flush_def Flush_begin_def)
next
  case False
  let ?bw = "bw\<lparr>bw_buffer := [], bw_ackFuncs := [], bw_memBytes := 0\<rparr>"
  from False have b: "Flush_begin bw = Some (?bw, bw_buffer bw, bw_ackFuncs bw)"
    by (simp add: Flush_begin_def)
  show ?thesis
  proof (cases "insert_events now st (bw_buffer bw)")
    case (Pair s1 r)
    show ?thesis
    proof (cases r)
      case (Inl e)
      have "fst (Flush_end ?bw (bw_buffer bw) (bw_ackFuncs bw) False) = bw"
        using assms(1) by (simp add: Flush_end_def foldl_sizes writer_ok_def)
      with assms(2) b Pair Inl insert_err show ?thesis
        by (auto simp: Flush_def Flush_end_def)
    next
      case (Inr u)
      with assms(2) b Pair have "st' = s1" "bw' = ?bw" "acked = bw_ackFuncs bw"
        by (auto simp: Flush_def Flush_end_def)
      with insert_ok Pair Inr show ?thesis by auto
    qed
  qed
qed

end

end
