(* ===== verification/Click_Store.thy ===== *)
theory Click_Store
  imports Worker_Batch "HOL-Library.List_Lexorder" "HOL-Library.Char_ord"
begin

text \<open>
  Package \<open>storage\<close>, \<open>clickhouse.go\<close>, the writing half: inserting events, the events whose text is
  not yet in the object store, and changing their status; with the tables and materialized
  views of the migrations under \<open>migrate/sql/clickhouse\<close>.

  ClickHouse is not part of the repository. A table is the list of its rows. Inserting a block
  into \<open>events\<close> also runs every materialized view on that block and appends its groups to the
  view's target table; merging target rows later does not change any sum. How \<open>sum\<close> adds
  \<open>Float64\<close> values (\<open>ch_sum\<close>), which statements fail (\<open>ch_fails\<close>) and which failing insertions
  were committed all the same (\<open>ch_commits\<close>) are parameters, kept with the state. The third-party
  \<open>uuid.Parse\<close>, followed by \<open>String\<close>, is an argument of the insertion.
\<close>

section \<open>Tables\<close>

type_synonym u16 = "16 word"

record event_row =
  cr_org_id :: u64
  cr_event_id :: string
  cr_project_id :: string
  cr_timestamp :: gotime
  cr_inserted_at :: gotime
  cr_model :: string
  cr_provider :: string
  cr_prompt_tokens :: u32
  cr_completion_tokens :: u32
  cr_total_tokens :: u32
  cr_cost_usd :: f64
  cr_latency_ms :: u32
  cr_status_code :: u16
  cr_tags :: "(string \<times> string) list"
  cr_prompt_hash :: string
  cr_s3_key :: string
  cr_s3_status :: string
  cr_schema_version :: u8

text \<open>Rows of the target tables; in the tables without \<open>project_id\<close> that column is empty.\<close>

record model_row =
  mr_org :: u64
  mr_project :: string
  mr_date :: int
  mr_model :: string
  mr_provider :: string
  mr_cost :: f64
  mr_tokens :: u64
  mr_requests :: u64

record tag_row =
  tr_org :: u64
  tr_project :: string
  tr_date :: int
  tr_key :: string
  tr_value :: string
  tr_cost :: f64
  tr_requests :: u64

record hour_row =
  hr_org :: u64
  hr_project :: string
  hr_hour :: int
  hr_cost :: f64
  hr_tokens :: u64
  hr_requests :: u64
  hr_errors :: u64
  hr_latency :: "nat \<times> nat"

record clickhouse =
  ch_events :: "event_row list"
  ch_model :: "model_row list"
  ch_model_v2 :: "model_row list"
  ch_tag :: "tag_row list"
  ch_tag_v2 :: "tag_row list"
  ch_hour :: "hour_row list"
  ch_hour_v2 :: "hour_row list"
  ch_stmts :: nat
  ch_sum :: "f64 list \<Rightarrow> f64"
  ch_fails :: "nat \<Rightarrow> bool"
  ch_commits :: "nat \<Rightarrow> bool"

definition ch_exec :: "(clickhouse \<Rightarrow> clickhouse \<times> 'a result) \<Rightarrow> clickhouse \<Rightarrow> clickhouse \<times> 'a result" where
  "ch_exec f st =
     (let st' = st\<lparr>ch_stmts := ch_stmts st + 1\<rparr>
      in if ch_fails st (ch_stmts st) then (st', Inl ClickHouseError) else f st')"

definition ch_query :: "(clickhouse \<Rightarrow> 'a) \<Rightarrow> clickhouse \<Rightarrow> clickhouse \<times> 'a result" where
  "ch_query q = ch_exec (\<lambda>st. (st, Inr (q st)))"

section \<open>Materialized views\<close>

text \<open>\<open>GROUP BY\<close>: the groups of a list, each with its rows.\<close>

definition group_by :: "('a \<Rightarrow> 'k) \<Rightarrow> 'a list \<Rightarrow> ('k \<times> 'a list) list" where
  "group_by f xs = map (\<lambda>k. (k, filter (\<lambda>x. f x = k) xs)) (remdups (map f xs))"

text \<open>\<open>toDate\<close> and \<open>toStartOfHour\<close> count days and hours from the epoch, in UTC.\<close>

definition toDate :: "gotime \<Rightarrow> int" where "toDate t = t_ns t div (24 * hour)"
definition toStartOfHour :: "gotime \<Rightarrow> int" where "toStartOfHour t = t_ns t div hour"

definition count_u64 :: "'a list \<Rightarrow> u64" where "count_u64 xs = of_nat (length xs)"

definition sum_u64 :: "u32 list \<Rightarrow> u64" where "sum_u64 xs = (\<Sum>x \<leftarrow> xs. ucast x)"

definition mv_cost_by_model_daily :: "bool \<Rightarrow> (f64 list \<Rightarrow> f64) \<Rightarrow> event_row list \<Rightarrow> model_row list" where
  "mv_cost_by_model_daily v2 ssum block =
     map (\<lambda>((org, prj, date, model, prov), rs).
            \<lparr>mr_org = org, mr_project = prj, mr_date = date, mr_model = model, mr_provider = prov,
             mr_cost = ssum (map cr_cost_usd rs), mr_tokens = sum_u64 (map cr_total_tokens rs),
             mr_requests = count_u64 rs\<rparr>)
       (group_by (\<lambda>r. (cr_org_id r, if v2 then cr_project_id r else [], toDate (cr_timestamp r),
                       cr_model r, cr_provider r)) block)"

definition array_join_tags :: "event_row list \<Rightarrow> (event_row \<times> string \<times> string) list" where
  "array_join_tags block = concat (map (\<lambda>r. map (\<lambda>kv. (r, kv)) (cr_tags r)) block)"

definition mv_cost_by_tag_daily :: "bool \<Rightarrow> (f64 list \<Rightarrow> f64) \<Rightarrow> event_row list \<Rightarrow> tag_row list" where
  "mv_cost_by_tag_daily v2 ssum block =
     map (\<lambda>((org, prj, date, k, v), rs).
            \<lparr>tr_org = org, tr_project = prj, tr_date = date, tr_key = k, tr_value = v,
             tr_cost = ssum (map (cr_cost_usd \<circ> fst) rs), tr_requests = count_u64 rs\<rparr>)
       (group_by (\<lambda>(r, k, v). (cr_org_id r, if v2 then cr_project_id r else [],
                               toDate (cr_timestamp r), k, v)) (array_join_tags block))"

definition mv_cost_hourly :: "bool \<Rightarrow> (f64 list \<Rightarrow> f64) \<Rightarrow> event_row list \<Rightarrow> hour_row list" where
  "mv_cost_hourly v2 ssum block =
     map (\<lambda>((org, prj, h), rs).
            \<lparr>hr_org = org, hr_project = prj, hr_hour = h, hr_cost = ssum (map cr_cost_usd rs),
             hr_tokens = sum_u64 (map cr_total_tokens rs), hr_requests = count_u64 rs,
             hr_errors = count_u64 (filter (\<lambda>r. 400 \<le> cr_status_code r) rs),
             hr_latency = (\<Sum>r \<leftarrow> rs. unat (cr_latency_ms r), length rs)\<rparr>)
       (group_by (\<lambda>r. (cr_org_id r, if v2 then cr_project_id r else [],
                       toStartOfHour (cr_timestamp r))) block)"

definition insert_block :: "event_row list \<Rightarrow> clickhouse \<Rightarrow> clickhouse" where
  "insert_block block st =
     st\<lparr>ch_events := ch_events st @ block,
        ch_model := ch_model st @ mv_cost_by_model_daily False (ch_sum st) block,
        ch_model_v2 := ch_model_v2 st @ mv_cost_by_model_daily True (ch_sum st) block,
        ch_tag := ch_tag st @ mv_cost_by_tag_daily False (ch_sum st) block,
        ch_tag_v2 := ch_tag_v2 st @ mv_cost_by_tag_daily True (ch_sum st) block,
        ch_hour := ch_hour st @ mv_cost_hourly False (ch_sum st) block,
        ch_hour_v2 := ch_hour_v2 st @ mv_cost_hourly True (ch_sum st) block\<rparr>"

section \<open>Inserting events\<close>

text \<open>\<open>DateTime64(3)\<close> keeps milliseconds. A Go map is sent in some order of its keys.\<close>

definition DateTime64_3 :: "gotime \<Rightarrow> gotime" where
  "DateTime64_3 t = \<lparr>t_ns = t_ns t div 1000000 * 1000000, t_off = 0\<rparr>"

definition tag_entries :: "(string \<rightharpoonup> string) \<Rightarrow> (string \<times> string) list" where
  "tag_entries m = map (\<lambda>k. (k, the (m k))) (sorted_list_of_set (dom m))"

definition event_to_row :: "gotime \<Rightarrow> string \<Rightarrow> Event \<Rightarrow> event_row" where
  "event_to_row now eventUUID e =
     (let s3Status = (if ev_S3Status e = [] then S3StatusNone else ev_S3Status e)
      in \<lparr>cr_org_id = ev_OrgID e, cr_event_id = eventUUID, cr_project_id = ev_ProjectID e,
          cr_timestamp = DateTime64_3 (ev_Timestamp e), cr_inserted_at = DateTime64_3 now,
          cr_model = ev_Model e, cr_provider = ev_Provider e,
          cr_prompt_tokens = ev_PromptTokens e, cr_completion_tokens = ev_CompletionTokens e,
          cr_total_tokens = ev_TotalTokens e, cr_cost_usd = ev_CostUSD e,
          cr_latency_ms = ev_LatencyMs e, cr_status_code = ucast (ev_StatusCode e),
          cr_tags = tag_entries (ev_Tags e), cr_prompt_hash = ev_PromptHash e,
          cr_s3_key = ev_S3Key e, cr_s3_status = s3Status,
          cr_schema_version = ucast (ev_SchemaVersion e)\<rparr>)"

fun append_loop :: "(string \<Rightarrow> string option) \<Rightarrow> gotime \<Rightarrow> Event list \<Rightarrow> event_row list option" where
  "append_loop parse now [] = Some []"
| "append_loop parse now (e # es) =
     (case parse (ev_EventID e) of
        None \<Rightarrow> None
      | Some eventUUID \<Rightarrow>
          (case append_loop parse now es of
             None \<Rightarrow> None | Some rs \<Rightarrow> Some (event_to_row now eventUUID e # rs)))"

definition batch_Send :: "event_row list \<Rightarrow> clickhouse \<Rightarrow> clickhouse \<times> unit result" where
  "batch_Send rows st =
     (let n = ch_stmts st; st = st\<lparr>ch_stmts := n + 1\<rparr>
      in if ch_fails st n
         then (if ch_commits st n then insert_block rows st else st, Inl ClickHouseError)
         else (insert_block rows st, Inr ()))"

definition InsertEvents ::
    "(string \<Rightarrow> string option) \<Rightarrow> gotime \<Rightarrow> clickhouse \<Rightarrow> Event list \<Rightarrow> clickhouse \<times> unit result" where
  "InsertEvents parse now st events =
     (if length events = 0 then (st, Inr ())
      else (case ch_query (\<lambda>_. ()) st of
              (st, Inl e) \<Rightarrow> (st, Inl e)
            | (st, Inr _) \<Rightarrow>
                (case append_loop parse now events of
                   None \<Rightarrow> (st, Inl DecodeError)
                 | Some rows \<Rightarrow> batch_Send rows st)))"

section \<open>Pending texts\<close>

text \<open>
  The columns that the query does not select, among them the prompt and the response, which the
  table does not have, keep Go's zero values.
\<close>

definition row_to_event :: "event_row \<Rightarrow> Event" where
  "row_to_event r =
     \<lparr>ev_OrgID = cr_org_id r, ev_EventID = cr_event_id r, ev_ProjectID = cr_project_id r,
      ev_Timestamp = cr_timestamp r, ev_InsertedAt = zero_time, ev_Model = cr_model r,
      ev_Provider = cr_provider r, ev_PromptTokens = cr_prompt_tokens r,
      ev_CompletionTokens = cr_completion_tokens r, ev_TotalTokens = cr_total_tokens r,
      ev_CostUSD = cr_cost_usd r, ev_LatencyMs = cr_latency_ms r,
      ev_StatusCode = ucast (cr_status_code r), ev_Tags = map_of (cr_tags r), ev_Prompt = [],
      ev_Response = [], ev_PromptHash = cr_prompt_hash r, ev_S3Key = cr_s3_key r,
      ev_S3Status = cr_s3_status r, ev_SchemaVersion = 0\<rparr>"

definition GetPendingS3Events :: "clickhouse \<Rightarrow> nat \<Rightarrow> clickhouse \<times> Event list result" where
  "GetPendingS3Events st limit =
     ch_query (\<lambda>st. map row_to_event
       (take limit (filter (\<lambda>r. cr_s3_status r = S3StatusPending) (ch_events st)))) st"

text \<open>
  The statement looks the row up by its event id alone and inserts a newer version of it; without
  an ORDER BY, which of several rows it takes is the table's choice, here the first.
\<close>

definition UpdateS3Status ::
    "gotime \<Rightarrow> clickhouse \<Rightarrow> string \<Rightarrow> string \<Rightarrow> string \<Rightarrow> clickhouse \<times> unit result" where
  "UpdateS3Status now st eventID status s3Key =
     ch_exec (\<lambda>st.
       (insert_block
          (map (\<lambda>r. r\<lparr>cr_inserted_at := DateTime64_3 now, cr_s3_key := s3Key, cr_s3_status := status\<rparr>)
             (take 1 (filter (\<lambda>r. cr_event_id r = eventID) (ch_events st)))) st,
        Inr ())) st"

section \<open>Groups add up\<close>

lemma sum_over_keys:
  fixes g :: "'a \<Rightarrow> 'b::comm_monoid_add"
  assumes "finite K" "set (map f xs) \<subseteq> K"
  shows "(\<Sum>k \<in> K. if Q k then (\<Sum>x \<leftarrow> filter (\<lambda>x. f x = k) xs. g x) else 0) = (\<Sum>x \<leftarrow> filter (Q \<circ> f) xs. g x)"
  using assms(2)
proof (induction xs)
  case (Cons x xs)
  have "(\<Sum>k \<in> K. if Q k then (\<Sum>y \<leftarrow> filter (\<lambda>y. f y = k) (x # xs). g y) else 0)
      = (\<Sum>k \<in> K. (if k = f x then (if Q k then g x else 0) else 0)
             + (if Q k then (\<Sum>y \<leftarrow> filter (\<lambda>y. f y = k) xs. g y) else 0))"
    by (rule sum.cong) auto
  also have "\<dots> = (if Q (f x) then g x else 0) + (\<Sum>y \<leftarrow> filter (Q \<circ> f) xs. g y)"
    using Cons assms(1) by (simp add: sum.distrib comp_def)
  finally show ?case by (simp add: comp_def)
qed (simp cong: if_cong)

lemma sum_group_by:
  fixes g :: "'a \<Rightarrow> 'b::comm_monoid_add"
  shows "(\<Sum>(k, rs) \<leftarrow> group_by f xs. if Q k then (\<Sum>x \<leftarrow> rs. g x) else 0) = (\<Sum>x \<leftarrow> filter (Q \<circ> f) xs. g x)"
proof -
  have "(\<Sum>(k, rs) \<leftarrow> group_by f xs. if Q k then (\<Sum>x \<leftarrow> rs. g x) else 0)
      = (\<Sum>k \<leftarrow> remdups (map f xs). if Q k then (\<Sum>x \<leftarrow> filter (\<lambda>x. f x = k) xs. g x) else 0)"
    by (simp add: group_by_def comp_def)
  also have "\<dots> = (\<Sum>k \<in> set (map f xs). if Q k then (\<Sum>x \<leftarrow> filter (\<lambda>x. f x = k) xs. g x) else 0)"
    by (simp add: sum_list_distinct_conv_sum_set)
  finally show ?thesis using sum_over_keys [of "set (map f xs)" f xs Q g] by simp
qed

lemma sum_list_filter: "(\<Sum>x \<leftarrow> filter Q xs. g x) = (\<Sum>x \<leftarrow> xs. if Q x then g x else 0)"
  by (induction xs) auto

lemma count_u64_sum: "count_u64 xs = (\<Sum>x \<leftarrow> xs. 1)"
  by (induction xs) (auto simp: count_u64_def)

lemma group_by_keys: "map fst (group_by f xs) = remdups (map f xs)"
  by (simp add: group_by_def comp_def)

section \<open>The views count every row of the table\<close>

type_synonym model_group = "u64 \<times> string \<times> int \<times> string \<times> string"

definition model_key :: "bool \<Rightarrow> event_row \<Rightarrow> model_group" where
  "model_key v2 r = (cr_org_id r, if v2 then cr_project_id r else [], toDate (cr_timestamp r),
                     cr_model r, cr_provider r)"

definition mrow_key :: "model_row \<Rightarrow> model_group" where
  "mrow_key r = (mr_org r, mr_project r, mr_date r, mr_model r, mr_provider r)"

definition model_target :: "bool \<Rightarrow> clickhouse \<Rightarrow> model_row list" where
  "model_target v2 st = (if v2 then ch_model_v2 st else ch_model st)"

text \<open>
  For every set of keys, the requests and tokens of the target rows are those of the event rows,
  where an event counts once for every version of it.
\<close>

definition model_view_ok :: "clickhouse \<Rightarrow> bool" where
  "model_view_ok st \<longleftrightarrow>
     (\<forall>v2 Q. (\<Sum>r \<leftarrow> filter (Q \<circ> mrow_key) (model_target v2 st). mr_requests r)
               = count_u64 (filter (Q \<circ> model_key v2) (ch_events st))
           \<and> (\<Sum>r \<leftarrow> filter (Q \<circ> mrow_key) (model_target v2 st). mr_tokens r)
               = sum_u64 (map cr_total_tokens (filter (Q \<circ> model_key v2) (ch_events st))))"

lemma mv_model_sum:
  "(\<Sum>r \<leftarrow> filter (Q \<circ> mrow_key) (mv_cost_by_model_daily v2 ssum block). mr_requests r)
     = count_u64 (filter (Q \<circ> model_key v2) block)"
  "(\<Sum>r \<leftarrow> filter (Q \<circ> mrow_key) (mv_cost_by_model_daily v2 ssum block). mr_tokens r)
     = sum_u64 (map cr_total_tokens (filter (Q \<circ> model_key v2) block))"
proof -
  have k: "(\<lambda>r. (cr_org_id r, if v2 then cr_project_id r else [], toDate (cr_timestamp r),
               cr_model r, cr_provider r)) = model_key v2"
    by (simp add: model_key_def fun_eq_iff)
  have "count_u64 (filter (Q \<circ> model_key v2) block)
      = (\<Sum>(k, rs) \<leftarrow> group_by (model_key v2) block. if Q k then (\<Sum>x \<leftarrow> rs. 1) else 0)"
    unfolding count_u64_sum by (rule sum_group_by [symmetric])
  then show "(\<Sum>r \<leftarrow> filter (Q \<circ> mrow_key) (mv_cost_by_model_daily v2 ssum block). mr_requests r)
     = count_u64 (filter (Q \<circ> model_key v2) block)"
    by (simp add: mv_cost_by_model_daily_def k count_u64_sum sum_list_filter comp_def case_prod_unfold
        mrow_key_def cong: if_cong)
  have "sum_u64 (map cr_total_tokens (filter (Q \<circ> model_key v2) block))
      = (\<Sum>(k, rs) \<leftarrow> group_by (model_key v2) block.
           if Q k then (\<Sum>x \<leftarrow> rs. ucast (cr_total_tokens x)) else 0)"
    unfolding sum_u64_def map_map comp_def [of "ucast" cr_total_tokens]
    by (rule sum_group_by [symmetric])
  then show "(\<Sum>r \<leftarrow> filter (Q \<circ> mrow_key) (mv_cost_by_model_daily v2 ssum block). mr_tokens r)
     = sum_u64 (map cr_total_tokens (filter (Q \<circ> model_key v2) block))"
    by (simp add: mv_cost_by_model_daily_def k sum_u64_def sum_list_filter comp_def case_prod_unfold
        mrow_key_def cong: if_cong)
qed

lemma sum_u64_append: "sum_u64 (xs @ ys) = sum_u64 xs + sum_u64 ys"
  by (simp add: sum_u64_def)

lemma count_u64_append: "count_u64 (xs @ ys) = count_u64 xs + count_u64 ys"
  by (simp add: count_u64_def)

lemma model_target_insert:
  "model_target v2 (insert_block block st)
     = model_target v2 st @ mv_cost_by_model_daily v2 (ch_sum st) block"
  by (simp add: model_target_def insert_block_def)

lemma insert_events_rows: "ch_events (insert_block block st) = ch_events st @ block"
  by (simp add: insert_block_def)

lemma model_view_insert: "model_view_ok st \<Longrightarrow> model_view_ok (insert_block block st)"
  by (simp add: model_view_ok_def model_target_insert mv_model_sum insert_events_rows sum_u64_append
      count_u64_append)

definition ch_empty :: "(f64 list \<Rightarrow> f64) \<Rightarrow> (nat \<Rightarrow> bool) \<Rightarrow> (nat \<Rightarrow> bool) \<Rightarrow> clickhouse" where
  "ch_empty ssum fails commits =
     \<lparr>ch_events = [], ch_model = [], ch_model_v2 = [], ch_tag = [], ch_tag_v2 = [], ch_hour = [],
      ch_hour_v2 = [], ch_stmts = 0, ch_sum = ssum, ch_fails = fails, ch_commits = commits\<rparr>"

inductive ch_step :: "clickhouse \<Rightarrow> clickhouse \<Rightarrow> bool" where
  insert_events: "ch_step st (fst (InsertEvents parse now st events))"
| update: "ch_step st (fst (UpdateS3Status now st eventID status s3Key))"
| query: "ch_step st (st\<lparr>ch_stmts := ch_stmts st + 1\<rparr>)"

inductive_cases ch_stepE: "ch_step st st'"

lemma model_view_stmts [simp]: "model_view_ok (st\<lparr>ch_stmts := n\<rparr>) = model_view_ok st"
  by (simp add: model_view_ok_def model_target_def)

text \<open>Every operation changes the tables by inserting one block, or not at all.\<close>

lemma ch_step_block:
  assumes "ch_step st st'"
  shows "\<exists>n block. st' = (insert_block block st)\<lparr>ch_stmts := n\<rparr> \<or> st' = st\<lparr>ch_stmts := n\<rparr>"
proof -
  have ins: "insert_block b (st\<lparr>ch_stmts := n\<rparr>) = (insert_block b st)\<lparr>ch_stmts := n\<rparr>" for b n st
    by (simp add: insert_block_def)
  from assms show ?thesis
  proof cases
    case (insert_events parse now events)
    then show ?thesis
      by (cases "append_loop parse now events")
        (auto simp: InsertEvents_def ch_query_def ch_exec_def batch_Send_def Let_def ins
          intro: exI [of _ "ch_stmts st"])
  next
    case (update now eventID status s3Key)
    then show ?thesis by (auto simp: UpdateS3Status_def ch_exec_def Let_def ins)
  qed auto
qed

lemma ch_step_view: "ch_step st st' \<Longrightarrow> model_view_ok st \<Longrightarrow> model_view_ok st'"
  by (drule ch_step_block) (auto simp: model_view_insert)

lemma ch_reach_view:
  assumes "ch_step\<^sup>*\<^sup>* (ch_empty ssum fails commits) st"
  shows "model_view_ok st"
  using assms
proof (induction rule: rtranclp_induct)
  case base
  show ?case by (simp add: model_view_ok_def model_target_def ch_empty_def count_u64_def sum_u64_def)
next
  case (step y z)
  then show ?case by (blast intro: ch_step_view)
qed


text \<open>A store whose sums are exact and whose statements do not fail.\<close>

definition sample_store :: clickhouse where
  "sample_store = ch_empty sum_list (\<lambda>_. False) (\<lambda>_. False)"


section \<open>The writer's interface\<close>

text \<open>A row without its time of insertion, and the row of an event.\<close>

definition row_content :: "event_row \<Rightarrow> event_row" where
  "row_content r = r\<lparr>cr_inserted_at := zero_time\<rparr>"

definition event_content :: "(string \<Rightarrow> string option) \<Rightarrow> Event \<Rightarrow> event_row" where
  "event_content parse e = row_content (event_to_row zero_time (the (parse (ev_EventID e))) e)"

definition table_rows :: "clickhouse \<Rightarrow> event_row multiset" where
  "table_rows st = mset (map row_content (ch_events st))"

lemma append_loop_content:
  "append_loop parse now es = Some rs \<Longrightarrow> map row_content rs = map (event_content parse) es"
  by (induction es arbitrary: rs)
    (auto simp: event_content_def row_content_def event_to_row_def Let_def split: option.splits)

lemma table_rows_simps [simp]:
  "table_rows (st\<lparr>ch_stmts := n\<rparr>) = table_rows st"
  "table_rows (insert_block b st) = table_rows st + mset (map row_content b)"
  by (simp_all add: table_rows_def insert_block_def)

lemma batch_Send_rows:
  "table_rows (fst (batch_Send rs st)) = table_rows st
   \<or> table_rows (fst (batch_Send rs st)) = table_rows st + mset (map row_content rs)"
  "batch_Send rs st = (st', Inr u) \<Longrightarrow> table_rows st' = table_rows st + mset (map row_content rs)"
  by (auto simp: batch_Send_def Let_def split: if_splits)

lemma InsertEvents_cases:
  obtains n e where "InsertEvents parse now st es = (st\<lparr>ch_stmts := n\<rparr>, Inl e)"
  | "es = []" "InsertEvents parse now st es = (st, Inr ())"
  | n rs where "append_loop parse now es = Some rs"
      "InsertEvents parse now st es = batch_Send rs (st\<lparr>ch_stmts := n\<rparr>)"
proof (cases "es = []")
  case True
  then show thesis by (intro that(2)) (simp_all add: InsertEvents_def)
next
  case False
  show thesis
  proof (cases "ch_fails st (ch_stmts st) \<or> append_loop parse now es = None")
    case True
    with False show thesis
      by (cases "ch_fails st (ch_stmts st)")
        (auto simp: InsertEvents_def ch_query_def ch_exec_def Let_def
          intro: that(1) [of "ch_stmts st + 1"])
  next
    case F: False
    then obtain rs where "append_loop parse now es = Some rs" by auto
    with F False show thesis
      by (intro that(3) [of rs "ch_stmts st + 1"]) (auto simp: InsertEvents_def ch_query_def ch_exec_def Let_def)
  qed
qed

lemma InsertEvents_rows:
  "InsertEvents parse now st es = (st', Inr u) \<Longrightarrow>
     table_rows st' = table_rows st + mset (map (event_content parse) es)"
  "InsertEvents parse now st es = (st', Inl err) \<Longrightarrow>
     table_rows st' = table_rows st \<or> table_rows st' = table_rows st + mset (map (event_content parse) es)"
proof -
  assume "InsertEvents parse now st es = (st', Inr u)"
  then show "table_rows st' = table_rows st + mset (map (event_content parse) es)"
  proof (cases rule: InsertEvents_cases [of parse now st es])
    case (3 n rs)
    from 3(2) \<open>InsertEvents parse now st es = (st', Inr u)\<close>
    have "batch_Send rs (st\<lparr>ch_stmts := n\<rparr>) = (st', Inr u)" by simp
    from batch_Send_rows(2) [OF this] append_loop_content [OF 3(1)] show ?thesis by simp
  qed simp_all
next
  assume "InsertEvents parse now st es = (st', Inl err)"
  then show "table_rows st' = table_rows st \<or> table_rows st' = table_rows st + mset (map (event_content parse) es)"
  proof (cases rule: InsertEvents_cases [of parse now st es])
    case (3 n rs)
    from 3(2) \<open>InsertEvents parse now st es = (st', Inl err)\<close>
    have "st' = fst (batch_Send rs (st\<lparr>ch_stmts := n\<rparr>))" by (metis fst_conv)
    with batch_Send_rows(1) [of rs "st\<lparr>ch_stmts := n\<rparr>"] append_loop_content [OF 3(1)] show ?thesis by simp
  qed auto
qed

interpretation ch_writer: event_writer "InsertEvents parse" table_rows "event_content parse"
  for parse
  by unfold_locales (auto dest: InsertEvents_rows)

text \<open>
  C1: However flushes overlap, fail or report an error after committing, every event handed to
  the batch writer is exactly once in its buffer, in a batch being inserted, or acknowledged to
  the queue; and the acknowledged ones are in the events table, so none is lost.
\<close>

theorem batches_lose_no_event:
  assumes "(batch_step (InsertEvents parse))\<^sup>*\<^sup>* (batch_start (NewBatchWriter n d) st) s"
  shows "\<exists>finished.
      mset (bs_added s) = in_writer (bs_writer s) + in_flight (bs_flushing s) + mset finished
      \<and> bs_acked s = map fst finished
      \<and> table_rows st + mset (map (event_content parse \<circ> snd) finished) \<subseteq># table_rows (bs_store s)"
  using ch_writer.batch_reach_inv [OF assms] by (auto simp: batch_inv_def)

theorem batches_lose_no_event_witness:
  "\<exists>finished.
      mset (bs_added (batch_start (NewBatchWriter 0 0) sample_store\<lparr>
        bs_writer := fst (Add_event (NewBatchWriter 0 0) zero_time sample_llm_event 7),
        bs_added := [(7, sample_llm_event)]\<rparr>))
      = in_writer (fst (Add_event (NewBatchWriter 0 0) zero_time sample_llm_event 7))
        + in_flight [] + mset finished
      \<and> [] = map fst finished
      \<and> table_rows sample_store + mset (map (event_content Some \<circ> snd) finished) \<subseteq># table_rows sample_store"
proof -
  let ?start = "batch_start (NewBatchWriter 0 0) sample_store"
  let ?s = "?start\<lparr>bs_writer := fst (Add_event (NewBatchWriter 0 0) zero_time sample_llm_event 7),
                bs_added := [(7, sample_llm_event)]\<rparr>"
  have "(batch_step (InsertEvents Some))\<^sup>*\<^sup>* ?start ?s"
    by (rule r_into_rtranclp) (use batch_step.add [where insert_events = "InsertEvents Some" and s = ?start and now = zero_time
        and e = sample_llm_event and n = 7] in \<open>simp add: batch_start_def\<close>)
  from batches_lose_no_event [OF this] show ?thesis by (simp add: batch_start_def)
qed

text \<open>
  A flush on its own is all or nothing for the writer: it empties the buffer, having inserted
  and acknowledged all of it, or leaves the writer as it was, with nothing acknowledged.
\<close>

lemma Flush_all_or_nothing:
  assumes "writer_ok bw"
  shows "case Flush (InsertEvents parse) now st bw of (st', bw', acked) \<Rightarrow>
      (bw_buffer bw' = [] \<and> bw_memBytes bw' = 0 \<and> acked = bw_ackFuncs bw
         \<and> table_rows st' = table_rows st + mset (map (event_content parse) (bw_buffer bw)))
      \<or> (bw' = bw \<and> acked = [])"
  using ch_writer.Flush_atomic [OF assms, of parse now st]
  by (cases "Flush (InsertEvents parse) now st bw") auto

section \<open>Versions of an event\<close>

text \<open>\<open>FINAL\<close>: of the rows with the same sorting key, the one inserted last.\<close>

definition sort_columns :: "event_row \<Rightarrow> u64 \<times> int \<times> string" where
  "sort_columns r = (cr_org_id r, toDate (cr_timestamp r), cr_event_id r)"

definition newest :: "event_row list \<Rightarrow> event_row" where
  "newest vs = foldl (\<lambda>a b. if t_ns (cr_inserted_at a) \<le> t_ns (cr_inserted_at b) then b else a)
                 (hd vs) (tl vs)"

definition final_rows :: "event_row list \<Rightarrow> event_row list" where
  "final_rows rs = map (newest \<circ> snd) (group_by sort_columns rs)"

lemma length_final_rows: "length (final_rows rs) = card (sort_columns ` set rs)"
  by (simp add: final_rows_def group_by_def length_remdups_card_conv)

lemma UpdateS3Status_row:
  assumes "filter (\<lambda>r. cr_event_id r = eventID) (ch_events st) = r # rest"
    and "\<not> ch_fails st (ch_stmts st)"
  shows "fst (UpdateS3Status now st eventID status s3Key) =
     insert_block [r\<lparr>cr_inserted_at := DateTime64_3 now, cr_s3_key := s3Key, cr_s3_status := status\<rparr>]
       (st\<lparr>ch_stmts := ch_stmts st + 1\<rparr>)"
  using assms by (simp add: UpdateS3Status_def ch_exec_def Let_def)

text \<open>
  Marking the text of a stored event as uploaded inserts a second version of its row. The
  table still holds the same number of events, but the daily view counts this event once more,
  and the dashboard shows the views: every upload is charged to the organisation twice.
\<close>

lemma UpdateS3Status_counts_twice:
  assumes "model_view_ok st" and "\<not> ch_fails st (ch_stmts st)"
    and "filter (\<lambda>r. cr_event_id r = eventID) (ch_events st) = r # rest"
  shows "length (final_rows (ch_events (fst (UpdateS3Status now st eventID status s3Key))))
           = length (final_rows (ch_events st))
       \<and> (\<Sum>x \<leftarrow> filter ((\<lambda>k. k = model_key v2 r) \<circ> mrow_key)
              (model_target v2 (fst (UpdateS3Status now st eventID status s3Key))). mr_requests x)
         = (\<Sum>x \<leftarrow> filter ((\<lambda>k. k = model_key v2 r) \<circ> mrow_key) (model_target v2 st). mr_requests x) + 1"
proof -
  let ?r = "r\<lparr>cr_inserted_at := DateTime64_3 now, cr_s3_key := s3Key, cr_s3_status := status\<rparr>"
  let ?st = "fst (UpdateS3Status now st eventID status s3Key)"
  have u: "?st = insert_block [?r] (st\<lparr>ch_stmts := ch_stmts st + 1\<rparr>)"
    by (rule UpdateS3Status_row [OF assms(3,2)])
  have r: "r \<in> set (ch_events st)" using filter_is_subset [of "\<lambda>r. cr_event_id r = eventID" "ch_events st"] assms(3) by simp
  have e: "ch_events ?st = ch_events st @ [?r]" by (simp add: u insert_block_def)
  have "sort_columns ?r = sort_columns r" by (simp add: sort_columns_def)
  then have "sort_columns ` set (ch_events ?st) = sort_columns ` set (ch_events st)"
    using r by (auto simp: e)
  moreover have "model_view_ok ?st" using assms(1) by (simp add: u model_view_insert)
  moreover have "model_key v2 ?r = model_key v2 r" by (simp add: model_key_def)
  ultimately show ?thesis
    using assms(1) unfolding model_view_ok_def length_final_rows
    by (simp add: e count_u64_append) (simp add: count_u64_def)
qed

text \<open>The row of the event above, in a store that holds it.\<close>

definition sample_row :: event_row where
  "sample_row = event_to_row zero_time (ev_EventID sample_llm_event) sample_llm_event"

definition filled_store :: clickhouse where
  "filled_store = insert_block [sample_row] sample_store"

lemma filled_store_facts:
  "model_view_ok filled_store" "\<not> ch_fails filled_store (ch_stmts filled_store)"
  "ch_events filled_store = [sample_row]" "cr_event_id sample_row = ev_EventID sample_llm_event"
proof -
  have "model_view_ok sample_store" unfolding sample_store_def by (rule ch_reach_view [OF rtranclp.rtrancl_refl])
  then show "model_view_ok filled_store" by (simp add: filled_store_def model_view_insert)
qed (simp_all add: filled_store_def sample_store_def insert_block_def ch_empty_def sample_row_def
      event_to_row_def Let_def)

end
