(* ===== verification/Go_Encode.thy ===== *)
theory Go_Encode
  imports Go_UTF8
begin

text \<open>
  Writing runes: \<open>utf8.EncodeRune\<close>, the replacement of bytes that are not UTF-8, and how the decoding of
  \<open>Go_UTF8\<close> and this encoding fit together.
\<close>

section \<open>Encoding of runes\<close>

text \<open>\<open>utf8.EncodeRune\<close>; surrogates and numbers above the last code point become \<open>RuneError\<close>.\<close>

definition utf8_encode :: "nat \<Rightarrow> string" where
  "utf8_encode n =
     (let n = (if 55296 \<le> n \<and> n \<le> 57343 \<or> 1114111 < n then RuneError else n) in
      if n < 128 then [char_of n]
      else if n < 2048 then [char_of (192 + n div 64), char_of (128 + n mod 64)]
      else if n < 65536
      then [char_of (224 + n div 4096), char_of (128 + n div 64 mod 64), char_of (128 + n mod 64)]
      else [char_of (240 + n div 262144), char_of (128 + n div 4096 mod 64),
            char_of (128 + n div 64 mod 64), char_of (128 + n mod 64)])"

text \<open>\<open>strings.ToValidUTF8\<close> with the replacement character for every invalid byte.\<close>

definition to_valid :: "string \<Rightarrow> string" where
  "to_valid s = concat (map utf8_encode (runes s))"

definition valid_utf8 :: "string \<Rightarrow> bool" where
  "valid_utf8 s \<longleftrightarrow> to_valid s = s"

lemma div_mod_digit:
  fixes a b k :: nat
  assumes "b < k"
  shows "(a * k + b) div k = a" "(a * k + b) mod k = b"
  using assms by simp_all

lemma char_of_of_char [simp]: "char_of (of_char c :: nat) = c"
  by simp

lemma utf8_encode_ranges:
  "n < 128 \<Longrightarrow> utf8_encode n = [char_of n]"
  "128 \<le> n \<Longrightarrow> n < 2048 \<Longrightarrow> utf8_encode n = [char_of (192 + n div 64), char_of (128 + n mod 64)]"
  "2048 \<le> n \<Longrightarrow> n < 65536 \<Longrightarrow> \<not> (55296 \<le> n \<and> n \<le> 57343) \<Longrightarrow> utf8_encode n
     = [char_of (224 + n div 4096), char_of (128 + n div 64 mod 64), char_of (128 + n mod 64)]"
  "65536 \<le> n \<Longrightarrow> n \<le> 1114111 \<Longrightarrow> utf8_encode n
     = [char_of (240 + n div 262144), char_of (128 + n div 4096 mod 64), char_of (128 + n div 64 mod 64),
        char_of (128 + n mod 64)]"
  by (auto simp: utf8_encode_def Let_def)

lemma encode_two:
  assumes "194 \<le> (of_char a :: nat)" "of_char a \<le> (223 :: nat)" "cont_byte b"
  shows "utf8_encode ((of_char a - 192) * 64 + (of_char b - 128)) = [a, b]"
proof -
  define u v where "u = (of_char a :: nat) - 192" and "v = (of_char b :: nat) - 128"
  have u: "(of_char a :: nat) = 192 + u" "2 \<le> u" "u \<le> 31" "(of_char b :: nat) = 128 + v" "v < 64"
    using assms by (auto simp: u_def v_def cont_byte_def)
  then have c: "a = char_of (192 + u)" "b = char_of (128 + v)" by (metis char_of_of_char)+
  have n: "(u * 64 + v) div 64 = u" "(u * 64 + v) mod 64 = v" by (rule div_mod_digit [OF u(5)])+
  have "128 \<le> u * 64 + v" "u * 64 + v < 2048" using u by linarith+
  note utf8_encode_ranges(2) [OF this]
  then have "utf8_encode (u * 64 + v) = [a, b]" by (simp only: n c)
  then show ?thesis by (simp only: u_def v_def)
qed

lemma encode_three:
  assumes "224 \<le> (of_char a :: nat)" "of_char a \<le> (239 :: nat)"
    and "in_range b (if (of_char a :: nat) = 224 then 160 else 128) (if (of_char a :: nat) = 237 then 159 else 191)"
    and "cont_byte c"
  shows "utf8_encode ((of_char a - 224) * 4096 + (of_char b - 128) * 64 + (of_char c - 128)) = [a, b, c]"
proof -
  define u v w where "u = (of_char a :: nat) - 224" and "v = (of_char b :: nat) - 128"
    and "w = (of_char c :: nat) - 128"
  have u: "(of_char a :: nat) = 224 + u" "u \<le> 15" "(of_char b :: nat) = 128 + v" "v < 64"
    "(of_char c :: nat) = 128 + w" "w < 64" "u = 0 \<Longrightarrow> 32 \<le> v" "u = 13 \<Longrightarrow> v \<le> 31"
    using assms by (auto simp: u_def v_def w_def cont_byte_def in_range_def split: if_splits)
  then have c: "a = char_of (224 + u)" "b = char_of (128 + v)" "c = char_of (128 + w)"
    by (metis char_of_of_char)+
  define n where "n = u * 4096 + v * 64 + w"
  have m: "n = (u * 64 + v) * 64 + w" by (simp add: n_def)
  have n: "n div 64 = u * 64 + v" "n mod 64 = w" unfolding m by (rule div_mod_digit [OF u(6)])+
  have n2: "n div 4096 = u" "n div 64 mod 64 = v"
  proof -
    have "n div 4096 = n div 64 div 64" by (simp add: div_mult2_eq)
    with n(1) div_mod_digit [OF u(4), of u] show "n div 4096 = u" "n div 64 mod 64 = v" by simp_all
  qed
  have r: "2048 \<le> n" "n < 65536" "\<not> (55296 \<le> n \<and> n \<le> 57343)"
  proof -
    show "2048 \<le> n" using u(7) unfolding n_def by (cases "u = 0") simp_all
    show "n < 65536" using u unfolding n_def by linarith
    consider "u \<le> 12" | "u = 13" | "14 \<le> u" by linarith
    then show "\<not> (55296 \<le> n \<and> n \<le> 57343)"
      using u(4,6,8) unfolding n_def by cases linarith+
  qed
  have "utf8_encode n = [a, b, c]" using utf8_encode_ranges(3) [OF r] by (simp only: n n2(1) c div_mod_digit [OF u(4)])
  then show ?thesis by (simp only: n_def u_def v_def w_def)
qed

lemma encode_four:
  assumes "240 \<le> (of_char a :: nat)" "of_char a \<le> (244 :: nat)"
    and "in_range b (if (of_char a :: nat) = 240 then 144 else 128) (if (of_char a :: nat) = 244 then 143 else 191)"
    and "cont_byte c" "cont_byte d"
  shows "utf8_encode ((of_char a - 240) * 262144 + (of_char b - 128) * 4096 + (of_char c - 128) * 64
           + (of_char d - 128)) = [a, b, c, d]"
proof -
  define u v w x where "u = (of_char a :: nat) - 240" and "v = (of_char b :: nat) - 128"
    and "w = (of_char c :: nat) - 128" and "x = (of_char d :: nat) - 128"
  have u: "(of_char a :: nat) = 240 + u" "u \<le> 4" "(of_char b :: nat) = 128 + v" "v < 64"
    "(of_char c :: nat) = 128 + w" "w < 64" "(of_char d :: nat) = 128 + x" "x < 64"
    "u = 0 \<Longrightarrow> 16 \<le> v" "u = 4 \<Longrightarrow> v \<le> 15"
    using assms by (auto simp: u_def v_def w_def x_def cont_byte_def in_range_def split: if_splits)
  then have c: "a = char_of (240 + u)" "b = char_of (128 + v)" "c = char_of (128 + w)" "d = char_of (128 + x)"
    by (metis char_of_of_char)+
  define n where "n = u * 262144 + v * 4096 + w * 64 + x"
  have m: "n = ((u * 64 + v) * 64 + w) * 64 + x" by (simp add: n_def)
  have n: "n div 64 = (u * 64 + v) * 64 + w" "n mod 64 = x"
    unfolding m by (rule div_mod_digit [OF u(8)])+
  have n2: "n div 4096 = u * 64 + v" "n div 64 mod 64 = w"
  proof -
    have "n div 4096 = n div 64 div 64" by (simp add: div_mult2_eq)
    with n(1) div_mod_digit [OF u(6), of "u * 64 + v"]
    show "n div 4096 = u * 64 + v" "n div 64 mod 64 = w" by simp_all
  qed
  have n3: "n div 262144 = u" "n div 4096 mod 64 = v"
  proof -
    have "n div 262144 = n div 4096 div 64" by (simp add: div_mult2_eq)
    with n2(1) div_mod_digit [OF u(4), of u] show "n div 262144 = u" "n div 4096 mod 64 = v" by simp_all
  qed
  have "65536 \<le> n" using u(9) unfolding n_def by (cases "u = 0") simp_all
  moreover have "n \<le> 1114111"
    using u(2,4,6,8,10) unfolding n_def by (cases "u = 4") simp_all
  ultimately have "utf8_encode n = [a, b, c, d]" using utf8_encode_ranges(4) [of n] by (simp only: n n2(1) n3(1) c div_mod_digit [OF u(4)] div_mod_digit [OF u(6)])
  then show ?thesis by (simp only: n_def u_def v_def w_def x_def)
qed

lemma cont_byte_nonascii: "cont_byte c \<Longrightarrow> \<not> is_ascii c"
  by (simp add: cont_byte_def is_ascii_def)

text \<open>The bytes that one rune takes: ASCII, a broken byte, or an encoding of two to four bytes.\<close>

definition wide_rune :: "string \<Rightarrow> nat \<Rightarrow> bool" where
  "wide_rune p n \<longleftrightarrow>
     2 \<le> length p \<and> length p \<le> 4 \<and> list_all (\<lambda>c. \<not> is_ascii c) p \<and> utf8_encode n = p \<and> 128 \<le> n
     \<and> (\<forall>t. decode_rune (p @ t) = (n, length p))"

lemma wide_runeI:
  assumes "utf8_encode n = a # p" "\<And>t. decode_rune ((a # p) @ t) = (n, Suc (length p))"
    and "\<not> is_ascii a" "list_all (\<lambda>c. \<not> is_ascii c) p" "1 \<le> length p" "length p \<le> 3"
  shows "wide_rune (a # p) n"
  using assms decode_rune_nonascii [OF assms(3), of p] assms(2) [of "[]"] by (simp add: wide_rune_def)

lemma decode_two:
  assumes "194 \<le> (of_char a :: nat)" "of_char a \<le> (223 :: nat)"
  shows "(\<exists>b r'. r = b # r' \<and> wide_rune [a, b] (fst (decode_rune (a # r)))) \<or> decode_rune (a # r) = (RuneError, 1)"
proof (cases "\<exists>b r'. r = b # r' \<and> cont_byte b")
  case True
  then obtain b r' where r: "r = b # r'" "cont_byte b" by blast
  have d: "decode_rune ((a # [b]) @ t) = ((of_char a - 192) * 64 + (of_char b - 128), Suc (length [b]))" for t
    using assms r(2) by simp
  have "\<not> is_ascii a" using assms(1) by (simp add: is_ascii_def)
  with encode_two [OF assms r(2)] r(2) d d [of r'] have "wide_rune [a, b] (fst (decode_rune (a # r)))"
    by (intro wide_runeI) (simp_all add: r cont_byte_nonascii del: decode_rune.simps)
  with r show ?thesis by blast
next
  case False
  then show ?thesis using assms by (cases r) auto
qed

lemma decode_three:
  assumes "224 \<le> (of_char a :: nat)" "of_char a \<le> (239 :: nat)"
  shows "(\<exists>b c r'. r = b # c # r' \<and> wide_rune [a, b, c] (fst (decode_rune (a # r)))) \<or> decode_rune (a # r) = (RuneError, 1)"
proof -
  let ?ok = "\<lambda>b c. in_range b (if (of_char a :: nat) = 224 then 160 else 128) (if (of_char a :: nat) = 237 then 159 else 191)
      \<and> cont_byte c"
  show ?thesis
  proof (cases "\<exists>b c r'. r = b # c # r' \<and> ?ok b c")
    case True
    then obtain b c r' where r: "r = b # c # r'" "?ok b c" by blast
    have x: "\<not> (of_char a :: nat) < 128" "\<not> (194 \<le> (of_char a :: nat) \<and> of_char a \<le> (223 :: nat))"
      using assms by linarith+
    have d: "decode_rune ((a # [b, c]) @ t)
        = ((of_char a - 224) * 4096 + (of_char b - 128) * 64 + (of_char c - 128), Suc (length [b, c]))" for t
      using assms x r(2) by (simp add: Let_def)
    have n: "\<not> is_ascii a" "\<not> is_ascii b" "\<not> is_ascii c"
      using assms(1) r(2) by (auto simp: is_ascii_def cont_byte_def in_range_def split: if_splits)
    from encode_three [OF assms] r(2) n d d [of r'] have "wide_rune [a, b, c] (fst (decode_rune (a # r)))"
      by (intro wide_runeI) (simp_all add: r(1) del: decode_rune.simps)
    with r show ?thesis by blast
  next
    case False
    have x: "\<not> (of_char a :: nat) < 128" "\<not> (194 \<le> (of_char a :: nat) \<and> of_char a \<le> (223 :: nat))"
      using assms by linarith+
    show ?thesis
    proof (cases r)
      case (Cons b r1)
      with False x assms have "decode_rune (a # r) = (RuneError, 1)" by (cases r1) (auto simp: Let_def)
      then show ?thesis ..
    qed (use x assms in \<open>simp add: Let_def\<close>)
  qed
qed

lemma decode_four:
  assumes "240 \<le> (of_char a :: nat)" "of_char a \<le> (244 :: nat)"
  shows "(\<exists>b c d r'. r = b # c # d # r' \<and> wide_rune [a, b, c, d] (fst (decode_rune (a # r)))) \<or> decode_rune (a # r) = (RuneError, 1)"
proof -
  let ?ok = "\<lambda>b c d. in_range b (if (of_char a :: nat) = 240 then 144 else 128) (if (of_char a :: nat) = 244 then 143 else 191)
      \<and> cont_byte c \<and> cont_byte d"
  have x: "\<not> (of_char a :: nat) < 128" "\<not> (194 \<le> (of_char a :: nat) \<and> of_char a \<le> (223 :: nat))"
    "\<not> (224 \<le> (of_char a :: nat) \<and> of_char a \<le> (239 :: nat))"
    using assms by linarith+
  show ?thesis
  proof (cases "\<exists>b c d r'. r = b # c # d # r' \<and> ?ok b c d")
    case True
    then obtain b c d r' where r: "r = b # c # d # r'" "?ok b c d" by blast
    have e: "decode_rune ((a # [b, c, d]) @ t)
        = ((of_char a - 240) * 262144 + (of_char b - 128) * 4096 + (of_char c - 128) * 64 + (of_char d - 128),
           Suc (length [b, c, d]))" for t
      using assms x r(2) by (simp add: Let_def)
    have n: "\<not> is_ascii a" "\<not> is_ascii b" "\<not> is_ascii c" "\<not> is_ascii d"
      using assms(1) r(2) by (auto simp: is_ascii_def cont_byte_def in_range_def split: if_splits)
    from encode_four [OF assms] r(2) n e e [of r'] have "wide_rune [a, b, c, d] (fst (decode_rune (a # r)))"
      by (intro wide_runeI) (simp_all add: r(1) del: decode_rune.simps)
    with r show ?thesis by blast
  next
    case False
    show ?thesis
    proof (cases r)
      case (Cons b r1)
      show ?thesis
      proof (cases r1)
        case (Cons c r2)
        with \<open>r = b # r1\<close> False x assms have "decode_rune (a # r) = (RuneError, 1)"
          by (cases r2) (auto simp: Let_def)
        then show ?thesis ..
      qed (use Cons x assms in \<open>simp add: Let_def\<close>)
    qed (use x assms in \<open>simp add: Let_def\<close>)
  qed
qed

lemma decode_rune_cases:
  obtains (ascii) "is_ascii a" "decode_rune (a # r) = (of_char a, 1)"
  | (invalid) "\<not> is_ascii a" "decode_rune (a # r) = (RuneError, 1)"
  | (wide) p r' n where "a # r = p @ r'" "wide_rune p n" "decode_rune (a # r) = (n, length p)" "\<not> is_ascii a"
proof -
  let ?x = "of_char a :: nat"
  have w: thesis if "wide_rune p (fst (decode_rune (a # r)))" "a # r = p @ r'" "\<not> is_ascii a" for p r'
  proof (rule wide [OF that(2,1) _ that(3)])
    have "\<forall>t. decode_rune (p @ t) = (fst (decode_rune (a # r)), length p)"
      using that(1) unfolding wide_rune_def by blast
    then show "decode_rune (a # r) = (fst (decode_rune (a # r)), length p)" unfolding that(2) by blast
  qed
  show thesis
  proof (cases "is_ascii a")
    case True
    then show thesis by (intro ascii) (simp_all add: is_ascii_def)
  next
    case na: False
    consider "194 \<le> ?x" "?x \<le> 223" | "224 \<le> ?x" "?x \<le> 239" | "240 \<le> ?x" "?x \<le> 244" | "?x < 194 \<or> 244 < ?x"
      by linarith
    then show thesis
    proof cases
      case 1
      from decode_two [OF 1, of r] show thesis
      proof
        assume "\<exists>b r'. r = b # r' \<and> wide_rune [a, b] (fst (decode_rune (a # r)))"
        then obtain b r' where b: "r = b # r'" "wide_rune [a, b] (fst (decode_rune (a # r)))" by blast
        show thesis by (rule w [OF b(2) _ na, of r']) (simp add: b(1))
      qed (rule invalid [OF na])
    next
      case 2
      from decode_three [OF 2, of r] show thesis
      proof
        assume "\<exists>b c r'. r = b # c # r' \<and> wide_rune [a, b, c] (fst (decode_rune (a # r)))"
        then obtain b c r' where b: "r = b # c # r'" "wide_rune [a, b, c] (fst (decode_rune (a # r)))" by blast
        show thesis by (rule w [OF b(2) _ na, of r']) (simp add: b(1))
      qed (rule invalid [OF na])
    next
      case 3
      from decode_four [OF 3, of r] show thesis
      proof
        assume "\<exists>b c d r'. r = b # c # d # r' \<and> wide_rune [a, b, c, d] (fst (decode_rune (a # r)))"
        then obtain b c d r' where b: "r = b # c # d # r'" "wide_rune [a, b, c, d] (fst (decode_rune (a # r)))"
          by blast
        show thesis by (rule w [OF b(2) _ na, of r']) (simp add: b(1))
      qed (rule invalid [OF na])
    next
      case 4
      then have "decode_rune (a # r) = (RuneError, 1)" using na by (auto simp: Let_def is_ascii_def)
      then show thesis by (rule invalid [OF na])
    qed
  qed
qed

lemma to_valid_Nil [simp]: "to_valid [] = []"
  by (simp add: to_valid_def)

lemma to_valid_step: "decode_rune (c # r) = (n, k) \<Longrightarrow> to_valid (c # r) = utf8_encode n @ to_valid (drop k (c # r))"
  unfolding to_valid_def by (subst runes.simps) (simp del: decode_rune.simps)

lemma to_valid_ascii: "is_ascii c \<Longrightarrow> to_valid (c # r) = c # to_valid r"
  by (simp add: to_valid_def) (simp add: is_ascii_def utf8_encode_ranges)

lemma valid_ascii: "list_all is_ascii s \<Longrightarrow> valid_utf8 s"
  by (induction s) (simp_all add: valid_utf8_def to_valid_ascii)

end
