(* ===== verification/Go_JSON.thy ===== *)
theory Go_JSON
  imports Go_Encode Go_Time
begin

text \<open>
  Package \<open>encoding/json\<close>, as far as the server sends values to itself with it: the text of strings,
  numbers, arrays and objects with Go's escapes, the scanner that reads it back, and the decoding of an
  object into the fields of a structure.
\<close>

section \<open>String literals\<close>

definition QU :: char where "QU = CHR 0x22"
definition BS :: char where "BS = CHR 0x5C"

definition html_safe :: "char \<Rightarrow> bool" where
  "html_safe c \<longleftrightarrow> 32 \<le> (of_char c :: nat) \<and> c \<noteq> QU \<and> c \<noteq> BS \<and> c \<notin> {CHR ''<'', CHR ''>'', CHR ''&''}"

definition escape :: "char \<Rightarrow> string" where
  "escape c =
     (let n = (of_char c :: nat) in
      if c = QU \<or> c = BS then [BS, c]
      else if n = 8 then [BS, CHR ''b'']
      else if n = 12 then [BS, CHR ''f'']
      else if n = 10 then [BS, CHR ''n'']
      else if n = 13 then [BS, CHR ''r'']
      else if n = 9 then [BS, CHR ''t'']
      else BS # ''u00'' @ [hex_digit (n div 16), hex_digit (n mod 16)])"

text \<open>\<open>appendString\<close> of \<open>encode.go\<close> between the quotes, with the escapes for HTML.\<close>

function quote_body :: "string \<Rightarrow> string" where
  "quote_body s =
     (case s of
        [] \<Rightarrow> []
      | c # r \<Rightarrow>
          if is_ascii c then (if html_safe c then [c] else escape c) @ quote_body r
          else (case decode_rune s of (n, w) \<Rightarrow>
                 (if n = RuneError \<and> w = 1 then BS # ''ufffd''
                  else if n = 8232 \<or> n = 8233 then BS # ''u202'' @ [hex_digit (n mod 16)]
                  else take w s)
                 @ quote_body (drop w s)))"
  by pat_completeness auto
termination
proof (relation "measure length", goal_cases)
  case (3 s c r n w)
  then have "0 < w" using decode_rune_width [of s] by (metis list.distinct(1) snd_conv)
  with 3 show ?case by simp
qed auto

declare quote_body.simps [simp del]

text \<open>The scanner of a literal, after its opening quote: the raw text and what follows the closing quote.\<close>

definition is_hex :: "char \<Rightarrow> bool" where
  "is_hex c \<longleftrightarrow>
     (let n = (of_char c :: nat) in is_digit c \<or> (97 \<le> n \<and> n \<le> 102) \<or> (65 \<le> n \<and> n \<le> 70))"

definition cons_raw :: "string \<Rightarrow> (string \<times> string) option \<Rightarrow> (string \<times> string) option" where
  "cons_raw x res = (case res of None \<Rightarrow> None | Some (raw, rest) \<Rightarrow> Some (x @ raw, rest))"

fun scan_string :: "string \<Rightarrow> (string \<times> string) option" where
  "scan_string [] = None"
| "scan_string (c # s) =
     (if c = QU then Some ([], s)
      else if c = BS then
        (case s of
           [] \<Rightarrow> None
         | e # r \<Rightarrow>
             if e \<in> set ''bfnrt/'' \<or> e = BS \<or> e = QU then cons_raw [c, e] (scan_string r)
             else if e = CHR ''u'' then
               (case r of
                  a # b # d # g # r' \<Rightarrow>
                    if is_hex a \<and> is_hex b \<and> is_hex d \<and> is_hex g
                    then cons_raw [c, e, a, b, d, g] (scan_string r') else None
                | _ \<Rightarrow> None)
             else None)
      else if (of_char c :: nat) < 32 then None
      else cons_raw [c] (scan_string s))"

text \<open>\<open>unquote\<close> of \<open>decode.go\<close>, on a raw text; a lone surrogate becomes the replacement character.\<close>

definition hex_value :: "char \<Rightarrow> nat" where
  "hex_value c =
     (let n = of_char c in if is_digit c then n - 48 else if 97 \<le> n \<and> n \<le> 102 then n - 87 else n - 55)"

definition getu4 :: "string \<Rightarrow> nat option" where
  "getu4 s =
     (case s of
        x # u # a # b # c # d # _ \<Rightarrow>
          if x = BS \<and> u = CHR ''u'' \<and> is_hex a \<and> is_hex b \<and> is_hex c \<and> is_hex d
          then Some (hex_value a * 4096 + hex_value b * 256 + hex_value c * 16 + hex_value d) else None
      | _ \<Rightarrow> None)"

definition utf16_DecodeRune :: "nat \<Rightarrow> nat option \<Rightarrow> nat" where
  "utf16_DecodeRune r1 r2 =
     (case r2 of
        None \<Rightarrow> RuneError
      | Some r2 \<Rightarrow>
          if 55296 \<le> r1 \<and> r1 < 56320 \<and> 56320 \<le> r2 \<and> r2 < 57344
          then (r1 - 55296) * 1024 + (r2 - 56320) + 65536 else RuneError)"

definition prepend :: "string \<Rightarrow> string option \<Rightarrow> string option" where
  "prepend x res = map_option (\<lambda>t. x @ t) res"

definition simple_escape :: "char \<Rightarrow> char option" where
  "simple_escape e =
     (if e = QU \<or> e = BS \<or> e = CHR ''/'' \<or> e = CHR 0x27 then Some e
      else map_of [(CHR ''b'', char_of (8 :: nat)), (CHR ''f'', char_of (12 :: nat)), (CHR ''n'', char_of (10 :: nat)),
                   (CHR ''r'', char_of (13 :: nat)), (CHR ''t'', char_of (9 :: nat))] e)"

function unquote :: "string \<Rightarrow> string option" where
  "unquote s =
     (case s of
        [] \<Rightarrow> Some []
      | c # r \<Rightarrow>
          if c = BS then
            (case r of
               [] \<Rightarrow> None
             | e # r' \<Rightarrow>
                 if e = CHR ''u'' then
                   (case getu4 s of
                      None \<Rightarrow> None
                    | Some rr \<Rightarrow>
                        if 55296 \<le> rr \<and> rr < 57344 then
                          (let rune = utf16_DecodeRune rr (getu4 (drop 6 s)) in
                           if rune \<noteq> RuneError then prepend (utf8_encode rune) (unquote (drop 12 s))
                           else prepend (utf8_encode RuneError) (unquote (drop 6 s)))
                        else prepend (utf8_encode rr) (unquote (drop 6 s)))
                 else (case simple_escape e of None \<Rightarrow> None | Some x \<Rightarrow> prepend [x] (unquote r')))
          else if c = QU \<or> (of_char c :: nat) < 32 then None
          else if is_ascii c then prepend [c] (unquote r)
          else (case decode_rune s of (rr, w) \<Rightarrow> prepend (utf8_encode rr) (unquote (drop w s))))"
  by pat_completeness auto
termination
proof (relation "measure length", goal_cases)
  case (7 s c r rr w)
  then have "0 < w" using decode_rune_width [of s] by (metis list.distinct(1) snd_conv)
  with 7 show ?case by simp
qed auto

declare unquote.simps [simp del]

section \<open>Reading a literal back\<close>

lemma hex_digit_facts:
  assumes "n < 16"
  shows "is_hex (hex_digit n)" "hex_value (hex_digit n) = n"
  using assms by (auto simp: hex_digit_def is_hex_def hex_value_def is_digit_def Let_def)

lemma BS_not_QU [simp]: "BS \<noteq> QU" "QU \<noteq> BS"
  by (simp_all add: BS_def QU_def)

lemma unquote_simple:
  assumes "simple_escape e = Some x" "e \<noteq> CHR ''u''"
  shows "unquote (BS # e # t) = prepend [x] (unquote t)"
  by (subst unquote.simps) (simp add: assms)

lemma unquote_u:
  assumes "is_hex a" "is_hex b" "is_hex c" "is_hex d"
    and n: "n = hex_value a * 4096 + hex_value b * 256 + hex_value c * 16 + hex_value d"
    and "\<not> (55296 \<le> n \<and> n < 57344)"
  shows "unquote (BS # CHR ''u'' # a # b # c # d # t) = prepend (utf8_encode n) (unquote t)"
  by (subst unquote.simps) (use assms(1-4,6) in \<open>auto simp: getu4_def simp flip: n\<close>)

lemma unquote_plain:
  assumes "is_ascii c" "32 \<le> (of_char c :: nat)" "c \<noteq> QU" "c \<noteq> BS"
  shows "unquote (c # t) = prepend [c] (unquote t)"
  by (subst unquote.simps) (use assms in simp)

lemma unquote_wide:
  assumes "wide_rune p n"
  shows "unquote (p @ t) = prepend p (unquote t)"
proof -
  from assms have p: "2 \<le> length p" "list_all (\<lambda>c. \<not> is_ascii c) p" "utf8_encode n = p"
    "decode_rune (p @ t) = (n, length p)" by (auto simp: wide_rune_def)
  then obtain c q where c: "p = c # q" by (cases p) auto
  with p(2) have "\<not> is_ascii c" by simp
  then have "c \<noteq> BS" "c \<noteq> QU" "\<not> (of_char c :: nat) < 32"
    by (auto simp: is_ascii_def BS_def QU_def)
  with p(3,4) c \<open>\<not> is_ascii c\<close> show ?thesis by (subst unquote.simps) (simp del: decode_rune.simps)
qed

lemma scan_string_plain:
  assumes "32 \<le> (of_char c :: nat)" "c \<noteq> QU" "c \<noteq> BS"
  shows "scan_string (c # t) = cons_raw [c] (scan_string t)"
  using assms by simp

lemma cons_raw_cons_raw: "cons_raw x (cons_raw y r) = cons_raw (x @ y) r"
  by (auto simp: cons_raw_def split: option.splits)

lemma cons_raw_Nil: "cons_raw [] r = r"
  by (auto simp: cons_raw_def split: option.splits)

lemma prepend_prepend: "prepend x (prepend y r) = prepend (x @ y) r"
  by (cases r) (simp_all add: prepend_def)

lemma scan_string_wide:
  "list_all (\<lambda>c. \<not> is_ascii c) p \<Longrightarrow> scan_string (p @ t) = cons_raw p (scan_string t)"
proof (induction p)
  case (Cons c p)
  then have "c \<noteq> BS" "c \<noteq> QU" "32 \<le> (of_char c :: nat)"
    by (auto simp: is_ascii_def BS_def QU_def)
  with Cons show ?case by (simp add: cons_raw_cons_raw)
qed (simp add: cons_raw_Nil)

lemma scan_string_u:
  assumes "is_hex a" "is_hex b" "is_hex c" "is_hex d"
  shows "scan_string (BS # CHR ''u'' # a # b # c # d # t) = cons_raw [BS, CHR ''u'', a, b, c, d] (scan_string t)"
  using assms by (simp add: BS_def QU_def)

lemma of_char_eqD: "(of_char c :: nat) = k \<Longrightarrow> c = char_of k"
  by auto

lemma escape_read:
  assumes "is_ascii c" "\<not> html_safe c"
  shows "unquote (escape c @ t) = prepend [c] (unquote t)"
    and "scan_string (escape c @ t) = cons_raw (escape c) (scan_string t)"
proof -
  let ?n = "of_char c :: nat"
  have n: "?n < 128" using assms(1) by (simp add: is_ascii_def)
  have "unquote (escape c @ t) = prepend [c] (unquote t)
      \<and> scan_string (escape c @ t) = cons_raw (escape c) (scan_string t)"
  proof (cases "c = QU \<or> c = BS")
    case True
    then have "escape c = [BS, c]" "simple_escape c = Some c" "c \<noteq> CHR ''u''"
      by (auto simp: escape_def simple_escape_def QU_def BS_def)
    with True show ?thesis by (auto simp: unquote_simple)
  next
    case nq: False
    show ?thesis
    proof (cases "?n \<in> {8, 9, 10, 12, 13}")
      case True
      then obtain e where e: "escape c = [BS, e]" "simple_escape e = Some c" "e \<in> set ''bfnrt''"
        using nq by (auto simp: escape_def Let_def simple_escape_def QU_def BS_def dest!: of_char_eqD)
      then have "e \<noteq> CHR ''u''" by auto
      with e show ?thesis by (auto simp: unquote_simple)
    next
      case False
      then have e: "escape c = BS # ''u00'' @ [hex_digit (?n div 16), hex_digit (?n mod 16)]"
        using nq by (simp add: escape_def Let_def)
      have h: "?n div 16 < 16" "?n mod 16 < 16" using n by simp_all
      have z: "is_hex (CHR ''0'')" "hex_value (CHR ''0'') = 0" by (simp_all add: is_hex_def hex_value_def is_digit_def Let_def)
      have "utf8_encode ?n = [c]" using utf8_encode_ranges(1) [OF n] by simp
      then show ?thesis
        using unquote_u [OF z(1) z(1) hex_digit_facts(1) [OF h(1)] hex_digit_facts(1) [OF h(2)], of ?n t]
          scan_string_u [OF z(1) z(1) hex_digit_facts(1) [OF h(1)] hex_digit_facts(1) [OF h(2)], of t] n
        by (simp add: e z hex_digit_facts [OF h(1)] hex_digit_facts [OF h(2)])
    qed
  qed
  then show "unquote (escape c @ t) = prepend [c] (unquote t)"
    "scan_string (escape c @ t) = cons_raw (escape c) (scan_string t)" by simp_all
qed

lemma quote_body_wide:
  assumes "wide_rune p n"
  shows "quote_body (p @ t)
     = (if n = 8232 \<or> n = 8233 then BS # ''u202'' @ [hex_digit (n mod 16)] else p) @ quote_body t"
proof -
  from assms have p: "2 \<le> length p" "list_all (\<lambda>c. \<not> is_ascii c) p" "decode_rune (p @ t) = (n, length p)"
    by (auto simp: wide_rune_def)
  then obtain c q where c: "p = c # q" by (cases p) auto
  with p(2) have "\<not> is_ascii c" by simp
  have "q \<noteq> []" using p(1) c by auto
  with p(3) c \<open>\<not> is_ascii c\<close> show ?thesis
    by (subst quote_body.simps) (simp del: decode_rune.simps)
qed

lemma quote_body_invalid:
  assumes "\<not> is_ascii a" "decode_rune (a # r) = (RuneError, 1)"
  shows "quote_body (a # r) = BS # ''ufffd'' @ quote_body r"
  by (subst quote_body.simps) (use assms in \<open>simp del: decode_rune.simps\<close>)

lemma quote_body_ascii:
  "is_ascii c \<Longrightarrow> quote_body (c # r) = (if html_safe c then [c] else escape c) @ quote_body r"
  by (subst quote_body.simps) simp

lemma quote_body_Nil [simp]: "quote_body [] = []"
  by (subst quote_body.simps) simp

lemma hex_letters:
  "is_hex (CHR ''f'')" "hex_value (CHR ''f'') = 15" "is_hex (CHR ''d'')" "hex_value (CHR ''d'') = 13"
  "is_hex (CHR ''2'')" "hex_value (CHR ''2'') = 2" "is_hex (CHR ''0'')" "hex_value (CHR ''0'') = 0"
  by (simp_all add: is_hex_def hex_value_def is_digit_def Let_def)

lemma utf8_encode_2028:
  assumes "n = 8232 \<or> n = 8233"
  shows "unquote (BS # CHR ''u'' # CHR ''2'' # CHR ''0'' # CHR ''2'' # hex_digit (n mod 16) # t)
     = prepend (utf8_encode n) (unquote t)"
proof -
  have h: "n mod 16 < 16" by simp
  have "n = hex_value (CHR ''2'') * 4096 + hex_value (CHR ''0'') * 256 + hex_value (CHR ''2'') * 16
      + hex_value (hex_digit (n mod 16))"
    using assms by (auto simp: hex_letters hex_digit_facts [OF h])
  then show ?thesis
    using assms by (intro unquote_u hex_letters hex_digit_facts [OF h]) auto
qed

text \<open>
  A literal is read back as its text, with invalid bytes replaced; and it ends at its quote.
\<close>

lemma literal_read:
  "unquote (quote_body s) = Some (to_valid s) \<and> scan_string (quote_body s @ QU # rest) = Some (quote_body s, rest)"
proof (induction s rule: measure_induct_rule [of length])
  case (less s)
  show ?case
  proof (cases s)
    case Nil
    then show ?thesis by (subst unquote.simps) (simp add: to_valid_def)
  next
    case (Cons a r)
    show ?thesis
    proof (cases rule: decode_rune_cases [of a r])
      case ascii
      note IH = less [of r, unfolded Cons]
      show ?thesis
      proof (cases "html_safe a")
        case True
        then have "32 \<le> (of_char a :: nat)" "a \<noteq> QU" "a \<noteq> BS" by (auto simp: html_safe_def)
        with True ascii(1) IH show ?thesis
          by (simp add: Cons quote_body_ascii unquote_plain to_valid_ascii prepend_def cons_raw_def)
      next
        case False
        with ascii(1) IH show ?thesis
          by (simp add: Cons quote_body_ascii escape_read to_valid_ascii prepend_def cons_raw_def)
      qed
    next
      case invalid
      note IH = less [of r, unfolded Cons]
      have "unquote (BS # CHR ''u'' # CHR ''f'' # CHR ''f'' # CHR ''f'' # CHR ''d'' # t)
          = prepend (utf8_encode RuneError) (unquote t)" for t
        by (rule unquote_u) (simp_all add: hex_letters RuneError_def)
      then show ?thesis
        using IH invalid scan_string_u [of "CHR ''f''" "CHR ''f''" "CHR ''f''" "CHR ''d''"]
        by (simp add: Cons quote_body_invalid to_valid_step [OF invalid(2)] prepend_def cons_raw_def hex_letters
            del: decode_rune.simps)
    next
      case (wide p r' n)
      have "length s = length p + length r'" using Cons wide(1) by (metis length_append)
      moreover have "2 \<le> length p" using wide(2) by (simp add: wide_rune_def)
      ultimately have l: "length r' < length s" by linarith
      note IH = less [OF l]
      have v: "to_valid s = p @ to_valid r'"
        using to_valid_step [OF wide(3)] wide(1,2) Cons by (simp add: wide_rune_def del: decode_rune.simps)
      have e: "s = p @ r'" using Cons wide(1) by simp
      note v = v [unfolded e]
      show ?thesis
      proof (cases "n = 8232 \<or> n = 8233")
        case True
        have "n mod 16 < 16" by simp
        note h = hex_digit_facts(1) [OF this]
        have "utf8_encode n = p" using wide(2) by (simp add: wide_rune_def)
        then show ?thesis
          using IH True utf8_encode_2028 [OF True] scan_string_u [OF hex_letters(5,7,5) h]
          by (simp add: v e quote_body_wide [OF wide(2)] prepend_def cons_raw_def del: scan_string.simps)
      next
        case False
        have "list_all (\<lambda>c. \<not> is_ascii c) p" using wide(2) by (simp add: wide_rune_def)
        with IH False show ?thesis
          by (simp add: v e quote_body_wide [OF wide(2)] unquote_wide [OF wide(2)] scan_string_wide prepend_def
              cons_raw_def)
      qed
    qed
  qed
qed

section \<open>Values\<close>

text \<open>Strings and keys are raw, as the scanner leaves them; a number is its literal.\<close>

datatype jval =
    VNull
  | VBool bool
  | VNum string
  | VStr string
  | VArr "jval list"
  | VObj "(string \<times> jval) list"

fun join_with :: "char \<Rightarrow> string list \<Rightarrow> string" where
  "join_with sep [] = []"
| "join_with sep [x] = x"
| "join_with sep (x # y # xs) = x @ sep # join_with sep (y # xs)"

fun print_value :: "jval \<Rightarrow> string" where
  "print_value VNull = ''null''"
| "print_value (VBool b) = (if b then ''true'' else ''false'')"
| "print_value (VNum n) = n"
| "print_value (VStr raw) = QU # raw @ [QU]"
| "print_value (VArr vs) = CHR ''['' # join_with (CHR '','') (map print_value vs) @ '']''"
| "print_value (VObj ms) =
     CHR ''{'' # join_with (CHR '','') (map (\<lambda>(k, v). QU # k @ QU # CHR '':'' # print_value v) ms) @ ''}''"

definition is_space :: "char \<Rightarrow> bool" where
  "is_space c \<longleftrightarrow> (of_char c :: nat) \<in> {9, 10, 13, 32}"

definition skip_ws :: "string \<Rightarrow> string" where
  "skip_ws s = dropWhile is_space s"

text \<open>The number at the start of a text: sign, integer part, fraction, exponent.\<close>

definition scan_fraction :: "string \<Rightarrow> (string \<times> string) option" where
  "scan_fraction s =
     (case s of
        p # d # r \<Rightarrow>
          if p = CHR ''.'' then (if is_digit d then Some (p # takeWhile is_digit (d # r), dropWhile is_digit (d # r)) else None)
          else Some ([], s)
      | [p] \<Rightarrow> if p = CHR ''.'' then None else Some ([], s)
      | [] \<Rightarrow> Some ([], s))"

definition scan_exponent :: "string \<Rightarrow> (string \<times> string) option" where
  "scan_exponent s =
     (case s of
        e # r \<Rightarrow>
          if e = CHR ''e'' \<or> e = CHR ''E'' then
            (let sgn = takeWhile (\<lambda>c. c = CHR ''+'' \<or> c = CHR ''-'') (take 1 r); ds = drop (length sgn) r in
             if ds \<noteq> [] \<and> is_digit (hd ds) then Some (e # sgn @ takeWhile is_digit ds, dropWhile is_digit ds) else None)
          else Some ([], s)
      | [] \<Rightarrow> Some ([], s))"

definition integer_part :: "string \<Rightarrow> string" where
  "integer_part r = (if hd r = CHR ''0'' then [hd r] else takeWhile is_digit r)"

definition scan_number :: "string \<Rightarrow> (string \<times> string) option" where
  "scan_number s =
     (let neg = (if HasPrefix s ''-'' then ''-'' else []); r = drop (length neg) s in
      if r = [] \<or> \<not> is_digit (hd r) then None
      else let ip = integer_part r in
        (case scan_fraction (drop (length ip) r) of
           None \<Rightarrow> None
         | Some (fp, r) \<Rightarrow>
             (case scan_exponent r of None \<Rightarrow> None | Some (ep, r) \<Rightarrow> Some (neg @ ip @ fp @ ep, r))))"

definition scan_scalar :: "string \<Rightarrow> (jval \<times> string) option" where
  "scan_scalar s =
     (if HasPrefix s [QU] then
        (case scan_string (tl s) of None \<Rightarrow> None | Some (raw, r) \<Rightarrow> Some (VStr raw, r))
      else if HasPrefix s ''null'' then Some (VNull, drop 4 s)
      else if HasPrefix s ''true'' then Some (VBool True, drop 4 s)
      else if HasPrefix s ''false'' then Some (VBool False, drop 5 s)
      else (case scan_number s of None \<Rightarrow> None | Some (n, r) \<Rightarrow> Some (VNum n, r)))"

text \<open>
  The elements of an array and the members of an object, for a given parser of the values in them.
  A value takes at least one byte, so the test on the length never fails for \<open>parse_value\<close>.
\<close>

function scan_elems :: "(string \<Rightarrow> (jval \<times> string) option) \<Rightarrow> string \<Rightarrow> (jval list \<times> string) option" where
  "scan_elems pv s =
     (case pv (skip_ws s) of
        None \<Rightarrow> None
      | Some (v, r) \<Rightarrow>
          (case skip_ws r of
             [] \<Rightarrow> None
           | c # r' \<Rightarrow>
               if c = CHR '']'' then Some ([v], r')
               else if c = CHR '','' \<and> length r' < length s
               then map_option (\<lambda>(vs, r). (v # vs, r)) (scan_elems pv r') else None))"
  by pat_completeness auto
termination by (relation "measure (length \<circ> snd)") auto

definition scan_member ::
    "(string \<Rightarrow> (jval \<times> string) option) \<Rightarrow> string \<Rightarrow> ((string \<times> jval) \<times> string) option" where
  "scan_member pv s =
     (if \<not> HasPrefix (skip_ws s) [QU] then None
      else (case scan_string (tl (skip_ws s)) of
              None \<Rightarrow> None
            | Some (k, r) \<Rightarrow>
                if \<not> HasPrefix (skip_ws r) '':'' then None
                else (case pv (skip_ws (tl (skip_ws r))) of
                        None \<Rightarrow> None | Some (v, r) \<Rightarrow> Some ((k, v), r))))"

function scan_members ::
    "(string \<Rightarrow> (jval \<times> string) option) \<Rightarrow> string \<Rightarrow> ((string \<times> jval) list \<times> string) option" where
  "scan_members pv s =
     (case scan_member pv s of
        None \<Rightarrow> None
      | Some (m, r) \<Rightarrow>
          (case skip_ws r of
             [] \<Rightarrow> None
           | c # r' \<Rightarrow>
               if c = CHR ''}'' then Some ([m], r')
               else if c = CHR '','' \<and> length r' < length s
               then map_option (\<lambda>(ms, r). (m # ms, r)) (scan_members pv r') else None))"
  by pat_completeness auto
termination by (relation "measure (length \<circ> snd)") auto

declare scan_elems.simps [simp del] scan_members.simps [simp del]

text \<open>A value at the start of a text, nested at most so deep; the limit of the scanner is 10000.\<close>

primrec parse_value :: "nat \<Rightarrow> string \<Rightarrow> (jval \<times> string) option" where
  "parse_value 0 s = (if HasPrefix s ''['' \<or> HasPrefix s ''{'' then None else scan_scalar s)"
| "parse_value (Suc d) s =
     (if HasPrefix s ''['' then
        (if HasPrefix (skip_ws (tl s)) '']'' then Some (VArr [], tl (skip_ws (tl s)))
         else map_option (\<lambda>(vs, r). (VArr vs, r)) (scan_elems (parse_value d) (tl s)))
      else if HasPrefix s ''{'' then
        (if HasPrefix (skip_ws (tl s)) ''}'' then Some (VObj [], tl (skip_ws (tl s)))
         else map_option (\<lambda>(ms, r). (VObj ms, r)) (scan_members (parse_value d) (tl s)))
      else scan_scalar s)"

definition maxNestingDepth :: nat where "maxNestingDepth = 10000"

definition parse_json :: "string \<Rightarrow> jval option" where
  "parse_json s =
     (case parse_value maxNestingDepth (skip_ws s) of
        None \<Rightarrow> None | Some (v, r) \<Rightarrow> if skip_ws r = [] then Some v else None)"

section \<open>Reading a value back\<close>

definition num_end :: "string \<Rightarrow> bool" where
  "num_end r \<longleftrightarrow> r = [] \<or> (\<not> is_digit (hd r) \<and> hd r \<notin> {CHR ''.'', CHR ''e'', CHR ''E''})"

definition raw_ok :: "string \<Rightarrow> bool" where
  "raw_ok raw \<longleftrightarrow> (\<forall>rest. scan_string (raw @ QU # rest) = Some (raw, rest))"

definition number_ok :: "string \<Rightarrow> bool" where
  "number_ok n \<longleftrightarrow> (\<forall>rest. num_end rest \<longrightarrow> scan_number (n @ rest) = Some (n, rest))"

fun value_ok :: "jval \<Rightarrow> bool" where
  "value_ok (VNum n) \<longleftrightarrow> number_ok n"
| "value_ok (VStr raw) \<longleftrightarrow> raw_ok raw"
| "value_ok (VArr vs) \<longleftrightarrow> (\<forall>v \<in> set vs. value_ok v)"
| "value_ok (VObj ms) \<longleftrightarrow> (\<forall>(k, v) \<in> set ms. raw_ok k \<and> value_ok v)"
| "value_ok _ \<longleftrightarrow> True"

fun depth_ok :: "nat \<Rightarrow> jval \<Rightarrow> bool" where
  "depth_ok (Suc d) (VArr vs) \<longleftrightarrow> (\<forall>v \<in> set vs. depth_ok d v)"
| "depth_ok (Suc d) (VObj ms) \<longleftrightarrow> (\<forall>(k, v) \<in> set ms. depth_ok d v)"
| "depth_ok 0 (VArr vs) \<longleftrightarrow> False"
| "depth_ok 0 (VObj ms) \<longleftrightarrow> False"
| "depth_ok d _ \<longleftrightarrow> True"

lemma raw_ok_quote: "raw_ok (quote_body s)"
  using literal_read [of s] by (simp add: raw_ok_def)

lemma HasPrefix_one: "HasPrefix (c # s) [d] \<longleftrightarrow> c = d"
  by (simp add: HasPrefix_def eq_commute)

lemma number_ok_head:
  assumes "number_ok n"
  shows "\<exists>c r. n = c # r \<and> (is_digit c \<or> c = CHR ''-'')"
proof -
  have e: "scan_number n = Some (n, [])"
    using assms [unfolded number_ok_def, rule_format, of "[]"] by (simp add: num_end_def)
  show ?thesis
  proof (cases n)
    case Nil
    with e show ?thesis by (simp add: scan_number_def HasPrefix_def)
  next
    case (Cons c r)
    have "is_digit c \<or> c = CHR ''-''"
    proof (rule ccontr)
      assume "\<not> (is_digit c \<or> c = CHR ''-'')"
      then have "scan_number (c # r) = None" by (simp add: scan_number_def HasPrefix_one)
      with e Cons show False by simp
    qed
    with Cons show ?thesis by blast
  qed
qed

lemma print_value_head:
  assumes "value_ok v"
  shows "\<exists>c r. print_value v = c # r \<and> \<not> is_space c \<and> c \<noteq> CHR '']'' \<and> c \<noteq> CHR ''}''"
proof (cases v)
  case (VNum n)
  with assms number_ok_head [of n] obtain c r where "n = c # r" "is_digit c \<or> c = CHR ''-''" by auto
  moreover from this(2) have "\<not> is_space c" "c \<noteq> CHR '']''" "c \<noteq> CHR ''}''"
    by (auto simp: is_space_def is_digit_def)
  ultimately show ?thesis using VNum by simp
next
  case (VBool b)
  then show ?thesis by (cases b) (simp_all add: is_space_def)
qed (simp_all add: is_space_def QU_def)

lemma skip_ws_head: "\<not> is_space c \<Longrightarrow> skip_ws (c # r) = c # r"
  by (simp add: skip_ws_def)

lemma not_space [simp]: "\<not> is_space QU" "\<not> is_space (CHR '','')" "\<not> is_space (CHR '':'')" "\<not> is_space (CHR '']'')"
  "QU \<noteq> CHR ''}''" "\<not> is_space (CHR ''}'')" "\<not> is_space (CHR ''['')" "\<not> is_space (CHR ''{'')"
  by (simp_all add: is_space_def QU_def)

lemma num_end_simps [simp]: "num_end []" "num_end (CHR '','' # r)" "num_end (CHR '']'' # r)" "num_end (CHR ''}'' # r)"
  by (simp_all add: num_end_def is_digit_def)

text \<open>A parser of values that reads each of some values back.\<close>

definition reads :: "(string \<Rightarrow> (jval \<times> string) option) \<Rightarrow> jval \<Rightarrow> bool" where
  "reads pv v \<longleftrightarrow> (\<forall>rest. num_end rest \<longrightarrow> pv (print_value v @ rest) = Some (v, rest))"

lemma readsD: "reads pv v \<Longrightarrow> num_end rest \<Longrightarrow> pv (print_value v @ rest) = Some (v, rest)"
  by (simp add: reads_def)

lemma skip_ws_print:
  assumes "value_ok v"
  shows "skip_ws (print_value v @ rest) = print_value v @ rest"
  using print_value_head [OF assms] by (auto simp: skip_ws_head)

lemma scan_elems_print:
  assumes "vs \<noteq> []" "\<forall>v \<in> set vs. value_ok v \<and> reads pv v"
  shows "scan_elems pv (join_with (CHR '','') (map print_value vs) @ CHR '']'' # rest) = Some (vs, rest)"
  using assms
proof (induction vs rule: induct_list012)
  case (2 v)
  then show ?case
    by (subst scan_elems.simps) (simp add: skip_ws_print readsD skip_ws_head)
next
  case (3 v w vs)
  let ?r = "join_with (CHR '','') (map print_value (w # vs)) @ CHR '']'' # rest"
  have "pv (skip_ws (print_value v @ CHR '','' # ?r)) = Some (v, CHR '','' # ?r)"
    using 3 by (simp add: skip_ws_print readsD)
  moreover have "scan_elems pv ?r = Some (w # vs, rest)" using 3 by simp
  ultimately show ?case
    by (subst scan_elems.simps) (simp add: skip_ws_head)
qed simp

definition print_member :: "string \<times> jval \<Rightarrow> string" where
  "print_member m = QU # fst m @ QU # CHR '':'' # print_value (snd m)"

lemma print_members: "print_value (VObj ms) = CHR ''{'' # join_with (CHR '','') (map print_member ms) @ ''}''"
  by (simp add: print_member_def case_prod_unfold cong: map_cong)

lemma scan_member_print:
  assumes "raw_ok (fst m)" "value_ok (snd m)" "reads pv (snd m)" "num_end rest"
  shows "scan_member pv (print_member m @ rest) = Some (m, rest)"
proof -
  have "scan_string (fst m @ QU # CHR '':'' # print_value (snd m) @ rest)
      = Some (fst m, CHR '':'' # print_value (snd m) @ rest)"
    using assms(1) by (simp add: raw_ok_def)
  then show ?thesis
    by (simp add: scan_member_def print_member_def skip_ws_head HasPrefix_one skip_ws_print [OF assms(2)]
        readsD [OF assms(3,4)])
qed

lemma scan_members_print:
  assumes "ms \<noteq> []" "\<forall>m \<in> set ms. raw_ok (fst m) \<and> value_ok (snd m) \<and> reads pv (snd m)"
  shows "scan_members pv (join_with (CHR '','') (map print_member ms) @ CHR ''}'' # rest) = Some (ms, rest)"
  using assms
proof (induction ms rule: induct_list012)
  case (2 m)
  then show ?case
    by (subst scan_members.simps) (simp add: scan_member_print skip_ws_head)
next
  case (3 m w ms)
  let ?r = "join_with (CHR '','') (map print_member (w # ms)) @ CHR ''}'' # rest"
  have "scan_member pv (print_member m @ CHR '','' # ?r) = Some (m, CHR '','' # ?r)"
    using 3 by (simp add: scan_member_print)
  moreover have "scan_members pv ?r = Some (w # ms, rest)" using 3 by simp
  ultimately show ?case
    by (subst scan_members.simps) (simp add: skip_ws_head)
qed simp

lemma scan_scalar_print:
  assumes "value_ok v" "num_end rest" "\<nexists>vs. v = VArr vs" "\<nexists>ms. v = VObj ms"
  shows "scan_scalar (print_value v @ rest) = Some (v, rest)"
proof (cases v)
  case (VNum n)
  with assms(1) obtain c r where c: "n = c # r" "is_digit c \<or> c = CHR ''-''" using number_ok_head [of n] by auto
  then have "c \<noteq> QU" "c \<noteq> CHR ''n''" "c \<noteq> CHR ''t''" "c \<noteq> CHR ''f''" by (auto simp: is_digit_def QU_def)
  with assms(1,2) VNum c show ?thesis
    by (auto simp: scan_scalar_def HasPrefix_def number_ok_def)
qed (use assms in \<open>auto simp: scan_scalar_def HasPrefix_def QU_def raw_ok_def\<close>)

lemma print_scalar_head:
  assumes "value_ok v" "\<nexists>vs. v = VArr vs" "\<nexists>ms. v = VObj ms"
  shows "\<not> HasPrefix (print_value v @ rest) ''[''" "\<not> HasPrefix (print_value v @ rest) ''{''"
proof -
  have "\<exists>c r. print_value v = c # r \<and> c \<noteq> CHR ''['' \<and> c \<noteq> CHR ''{''"
  proof (cases v)
    case (VNum n)
    with assms(1) number_ok_head [of n] show ?thesis by (auto simp: is_digit_def)
  qed (use assms in \<open>auto simp: QU_def\<close>)
  then show "\<not> HasPrefix (print_value v @ rest) ''[''" "\<not> HasPrefix (print_value v @ rest) ''{''"
    by (auto simp: HasPrefix_one)
qed

lemma parse_print:
  assumes "value_ok v" "depth_ok d v" "num_end rest"
  shows "parse_value d (print_value v @ rest) = Some (v, rest)"
  using assms
proof (induction d arbitrary: v rest)
  case 0
  then have "\<nexists>vs. v = VArr vs" "\<nexists>ms. v = VObj ms" by auto
  with scan_scalar_print [OF 0(1,3)] print_scalar_head [OF 0(1)] show ?case by simp
next
  case (Suc d)
  show ?case
  proof (cases v)
    case (VArr vs)
    show ?thesis
    proof (cases "vs = []")
      case True
      then show ?thesis by (simp add: VArr HasPrefix_one skip_ws_head)
    next
      case False
      have "\<forall>v \<in> set vs. value_ok v \<and> reads (parse_value d) v"
        using Suc.IH Suc.prems VArr by (auto simp: reads_def)
      note e = scan_elems_print [OF False this, of rest]
      from False obtain v0 vs0 where "vs = v0 # vs0" by (cases vs) auto
      moreover obtain c r where "print_value v0 = c # r" "\<not> is_space c" "c \<noteq> CHR '']''"
        using print_value_head [of v0] Suc.prems VArr calculation by auto
      ultimately have "\<exists>q. join_with (CHR '','') (map print_value vs) @ CHR '']'' # rest = c # q" "\<not> is_space c" "c \<noteq> CHR '']''"
        by (cases vs0; auto)+
      then have "\<not> HasPrefix (skip_ws (join_with (CHR '','') (map print_value vs) @ CHR '']'' # rest)) '']''"
        by (auto simp: skip_ws_head HasPrefix_one)
      with e show ?thesis by (simp add: VArr HasPrefix_one)
    qed
  next
    case (VObj ms)
    show ?thesis
    proof (cases "ms = []")
      case True
      then show ?thesis by (simp add: VObj HasPrefix_one skip_ws_head)
    next
      case False
      have "\<forall>m \<in> set ms. raw_ok (fst m) \<and> value_ok (snd m) \<and> reads (parse_value d) (snd m)"
        using Suc.IH Suc.prems VObj by (fastforce simp: reads_def)
      note e = scan_members_print [OF False this, of rest]
      from False obtain m ms0 where "ms = m # ms0" by (cases ms) auto
      then have "\<exists>q. join_with (CHR '','') (map print_member ms) @ CHR ''}'' # rest = QU # q"
        by (cases ms0) (simp_all add: print_member_def)
      then have "\<not> HasPrefix (skip_ws (join_with (CHR '','') (map print_member ms) @ CHR ''}'' # rest)) ''}''"
        by (auto simp: skip_ws_head HasPrefix_one)
      with e show ?thesis unfolding VObj print_members by (simp add: HasPrefix_one)
    qed
  qed (use scan_scalar_print [OF Suc.prems(1,3)] print_scalar_head [OF Suc.prems(1)] in simp_all)
qed

lemma depth_ok_mono: "depth_ok d v \<Longrightarrow> d \<le> e \<Longrightarrow> depth_ok e v"
proof (induction d v arbitrary: e rule: depth_ok.induct)
  case (1 d vs)
  then show ?case by (cases e) auto
next
  case (2 d ms)
  then show ?case by (cases e) fastforce+
qed simp_all

lemma parse_json_print:
  assumes "value_ok v" "depth_ok 2 v"
  shows "parse_json (print_value v) = Some v"
proof -
  have "depth_ok maxNestingDepth v"
    by (rule depth_ok_mono [OF assms(2)]) (simp add: maxNestingDepth_def)
  from parse_print [OF assms(1) this, of "[]"] skip_ws_print [OF assms(1), of "[]"]
  show ?thesis by (simp add: parse_json_def skip_ws_def)
qed

section \<open>Integers\<close>

lemma dec_leading: "0 < n \<Longrightarrow> hd (dec n) \<noteq> CHR ''0''"
proof (induction n rule: dec.induct)
  case (1 n)
  show ?case
  proof (cases "n < 10")
    case True
    then have "digit_char n \<noteq> digit_char 0"
      using 1 digit_val_digit_char [of n] digit_val_digit_char [of 0] by fastforce
    with True show ?thesis by (simp add: dec.simps [of n] digit_char_0)
  next
    case False
    with 1 have "hd (dec (n div 10)) \<noteq> CHR ''0''" by simp
    with False show ?thesis by (subst dec.simps) simp
  qed
qed

lemma scan_tail:
  assumes "num_end rest"
  shows "scan_fraction rest = Some ([], rest)" "scan_exponent rest = Some ([], rest)"
  using assms by (auto simp: num_end_def scan_fraction_def scan_exponent_def split: list.split)

lemma scan_digits_of_dec:
  assumes "num_end rest"
  shows "integer_part (dec n @ rest) = dec n"
proof -
  have "takeWhile is_digit (dec n @ rest) = dec n"
    using assms by (subst takeWhile_append2) (auto simp: dec_digits num_end_def takeWhile_eq_Nil_iff)
  moreover have "n = 0 \<Longrightarrow> dec n = ''0''" by (simp add: dec.simps digit_char_0)
  ultimately show ?thesis using dec_leading [of n] by (cases "n = 0") (auto simp: integer_part_def)
qed

lemma number_ok_dec: "number_ok (dec n)"
  unfolding number_ok_def
proof (intro allI impI)
  fix rest assume r: "num_end rest"
  have h: "is_digit (hd (dec n @ rest))" using dec_digits [of "hd (dec n)" n] by simp
  then have "\<not> HasPrefix (dec n @ rest) ''-''"
    by (cases "dec n @ rest") (auto simp: HasPrefix_one HasPrefix_def is_digit_def)
  with h show "scan_number (dec n @ rest) = Some (dec n, rest)"
    by (simp add: scan_number_def scan_digits_of_dec [OF r] scan_tail [OF r])
qed

lemma number_ok_dec_int: "number_ok (dec_int i)"
proof (cases "i < 0")
  case True
  have "scan_number (''-'' @ dec n @ rest) = Some (''-'' @ dec n, rest)" if r: "num_end rest" for n rest
    using dec_digits [of "hd (dec n)" n]
    by (simp add: scan_number_def HasPrefix_one scan_digits_of_dec [OF r] scan_tail [OF r])
  with True show ?thesis by (simp add: number_ok_def dec_int_def)
next
  case False
  then show ?thesis using number_ok_dec [of "nat i"] by (simp add: dec_int_def)
qed

section \<open>Fields of structures\<close>

text \<open>
  A key selects the field with its name or, when there is none, the first field that has the same name
  up to case folding; the Kelvin sign and the long s fold to letters. Unknown keys are skipped.
\<close>

definition fold_rune :: "nat \<Rightarrow> nat" where
  "fold_rune n = (if 97 \<le> n \<and> n \<le> 122 then n - 32 else if n = 383 then 83 else if n = 8490 then 75 else n)"

definition fold_name :: "string \<Rightarrow> nat list" where
  "fold_name key = map fold_rune (runes key)"

definition match_field :: "string list \<Rightarrow> string \<Rightarrow> string option" where
  "match_field names key =
     (if key \<in> set names then Some key else find (\<lambda>f. fold_name f = fold_name key) names)"

text \<open>The members of an object in order; the first that does not fit its field is an error.\<close>

fun decode_members ::
    "string list \<Rightarrow> (string \<Rightarrow> jval \<Rightarrow> 'a \<Rightarrow> 'a option) \<Rightarrow> (string \<times> jval) list \<Rightarrow> 'a \<Rightarrow> 'a option" where
  "decode_members names set_field [] x = Some x"
| "decode_members names set_field ((k, v) # ms) x =
     (case unquote k of
        None \<Rightarrow> None
      | Some key \<Rightarrow>
          (case match_field names key of
             None \<Rightarrow> decode_members names set_field ms x
           | Some f \<Rightarrow>
               (case set_field f v x of None \<Rightarrow> None | Some x \<Rightarrow> decode_members names set_field ms x)))"

definition decode_struct ::
    "string list \<Rightarrow> (string \<Rightarrow> jval \<Rightarrow> 'a \<Rightarrow> 'a option) \<Rightarrow> 'a \<Rightarrow> string \<Rightarrow> 'a option" where
  "decode_struct names set_field x data =
     (case parse_json data of
        Some VNull \<Rightarrow> Some x
      | Some (VObj ms) \<Rightarrow> decode_members names set_field ms x
      | _ \<Rightarrow> None)"

text \<open>The decoders of the field types; \<open>null\<close> keeps the value that is there.\<close>

definition decode_string :: "jval \<Rightarrow> string \<Rightarrow> string option" where
  "decode_string v old = (case v of VNull \<Rightarrow> Some old | VStr raw \<Rightarrow> unquote raw | _ \<Rightarrow> None)"

definition decode_uint :: "nat \<Rightarrow> jval \<Rightarrow> nat \<Rightarrow> nat option" where
  "decode_uint bits v old =
     (case v of
        VNull \<Rightarrow> Some old
      | VNum lit \<Rightarrow> if lit \<noteq> [] \<and> list_all is_digit lit \<and> undec lit < 2 ^ bits then Some (undec lit) else None
      | _ \<Rightarrow> None)"

definition decode_int :: "nat \<Rightarrow> jval \<Rightarrow> int \<Rightarrow> int option" where
  "decode_int bits v old =
     (case v of
        VNull \<Rightarrow> Some old
      | VNum lit \<Rightarrow>
          (let neg = HasPrefix lit ''-''; ds = (if neg then tl lit else lit);
               n = (if neg then - int (undec ds) else int (undec ds))
           in if ds \<noteq> [] \<and> list_all is_digit ds \<and> - (2 ^ (bits - 1)) \<le> n \<and> n < 2 ^ (bits - 1) then Some n else None)
      | _ \<Rightarrow> None)"

definition json_string :: "string \<Rightarrow> jval" where "json_string s = VStr (quote_body s)"
definition json_uint :: "nat \<Rightarrow> jval" where "json_uint n = VNum (dec n)"
definition json_int :: "int \<Rightarrow> jval" where "json_int i = VNum (dec_int i)"

named_theorems json_facts \<open>what is written is well-formed and is read back\<close>

lemma json_ok [json_facts]:
  "value_ok (json_string s)" "value_ok (json_uint n)" "value_ok (json_int i)"
  "depth_ok d (json_string s)" "depth_ok d (json_uint n)" "depth_ok d (json_int i)"
  by (simp_all add: json_string_def json_uint_def json_int_def raw_ok_quote number_ok_dec number_ok_dec_int)

lemma list_all_dec: "list_all is_digit (dec n)"
  by (simp add: list_all_iff dec_digits)

lemma dec_no_sign: "\<not> HasPrefix (dec n) ''-''"
  using dec_digits [of "hd (dec n)" n] by (cases "dec n") (auto simp: HasPrefix_one HasPrefix_def is_digit_def)

lemma decode_json [json_facts]:
  "decode_string (json_string s) old = Some (to_valid s)"
  "n < 2 ^ bits \<Longrightarrow> decode_uint bits (json_uint n) old' = Some n"
  "- (2 ^ (bits - 1)) \<le> i \<Longrightarrow> i < 2 ^ (bits - 1) \<Longrightarrow> decode_int bits (json_int i) old'' = Some i"
  using literal_read [of s]
  by (simp_all add: decode_string_def json_string_def decode_uint_def json_uint_def decode_int_def json_int_def
      list_all_dec dec_int_def dec_no_sign HasPrefix_one Let_def)

text \<open>A key of lower-case letters and underscores is written and read as it is.\<close>

definition plain_key :: "string \<Rightarrow> bool" where
  "plain_key k \<longleftrightarrow> list_all (\<lambda>c. c = CHR ''_'' \<or> c = CHR ''3'' \<or> (97 \<le> (of_char c :: nat) \<and> (of_char c :: nat) \<le> 122)) k"

lemma plain_char:
  assumes "c = CHR ''_'' \<or> c = CHR ''3'' \<or> (97 \<le> (of_char c :: nat) \<and> (of_char c :: nat) \<le> 122)"
  shows "is_ascii c" "html_safe c"
  using assms by (auto simp: is_ascii_def html_safe_def QU_def BS_def)

lemma plain_key_quote: "plain_key k \<Longrightarrow> quote_body k = k"
  by (induction k) (auto simp: plain_key_def quote_body_ascii plain_char)

lemma plain_key_valid: "plain_key k \<Longrightarrow> to_valid k = k"
  by (induction k) (auto simp: plain_key_def to_valid_ascii plain_char)

lemma plain_key_read: "plain_key k \<Longrightarrow> unquote k = Some k" "plain_key k \<Longrightarrow> raw_ok k"
  using literal_read [of k] raw_ok_quote [of k] by (simp_all add: plain_key_quote plain_key_valid)

lemma decode_members_field:
  assumes "plain_key k" "k \<in> set names"
  shows "decode_members names set_field ((k, v) # ms) x
     = (case set_field k v x of None \<Rightarrow> None | Some x \<Rightarrow> decode_members names set_field ms x)"
  using assms by (simp add: plain_key_read match_field_def)

lemma decode_struct_print:
  assumes "\<forall>(k, v) \<in> set ms. plain_key k \<and> value_ok v \<and> depth_ok 1 v"
  shows "decode_struct names set_field x (print_value (VObj ms)) = decode_members names set_field ms x"
proof -
  have "value_ok (VObj ms)" "depth_ok 2 (VObj ms)"
    using assms plain_key_read(2) by (auto simp: numeral_2_eq_2)
  from parse_json_print [OF this] show ?thesis by (simp add: decode_struct_def)
qed

end
