(* ===== verification/Go_Calendar.thy ===== *)
theory Go_Calendar
  imports Go_Time
begin

text \<open>
  More of Go's package \<open>time\<close>: the calendar is a bijection between days and dates, \<open>time.Date\<close>,
  weekdays, truncation, and \<open>time.RFC3339Nano\<close>, whose output \<open>time.Parse\<close> reads back.
\<close>

section \<open>The calendar is a bijection\<close>

text \<open>
  Years of an era of 400 years are counted from March. The day on which a year starts, and the year
  that \<open>civil_from_days\<close> computes for a day of the era.
\<close>

definition year_start :: "int \<Rightarrow> int" where
  "year_start y = 365 * y + y div 4 - y div 100"

definition year_end :: "int \<Rightarrow> int" where
  "year_end y = (if y = 399 then 146096 else year_start (y + 1) - 1)"

definition scaled_year :: "int \<Rightarrow> int" where
  "scaled_year doe = doe - doe div 1460 + doe div 36524 - doe div 146096"

lemma div_succ: "0 < k \<Longrightarrow> (d + 1) div k = (if k dvd d + 1 then d div k + 1 else d div k)" for k :: int
proof -
  assume k: "0 < k"
  let ?r = "d mod k"
  have d: "d = k * (d div k) + ?r" by simp
  have r: "0 \<le> ?r" "?r < k" using k by simp_all
  have "k dvd d + 1 \<longleftrightarrow> ?r + 1 = k"
  proof
    assume "k dvd d + 1"
    then have "k dvd ?r + 1" by (metis dvd_eq_mod_eq_0 mod_add_left_eq)
    then show "?r + 1 = k" using r zdvd_imp_le [of k "?r + 1"] by linarith
  next
    assume "?r + 1 = k"
    then have "d + 1 = k * (d div k) + k" using d by linarith
    then show "k dvd d + 1" by simp
  qed
  moreover have "(d + 1) div k = d div k + (?r + 1) div k"
    using k by (subst d, subst add.assoc, subst div_mult_self4) auto
  moreover have "(?r + 1) div k = (if ?r + 1 = k then 1 else 0)" using r by auto
  ultimately show ?thesis by simp
qed

lemma scaled_year_step: "scaled_year d \<le> scaled_year (d + 1)"
proof -
  have "36524 dvd d + 1" if "146096 dvd d + 1"
    using that by (rule dvd_trans [rotated]) simp
  then show ?thesis by (simp add: scaled_year_def div_succ)
qed

lemma scaled_year_mono: "a \<le> b \<Longrightarrow> scaled_year a \<le> scaled_year b"
proof (induction b rule: int_ge_induct [where k = a])
  case (step i)
  then show ?case using scaled_year_step [of i] by simp
qed simp_all

lemma year_bounds:
  "list_all (\<lambda>y. 365 * y \<le> scaled_year (year_start y) \<and> scaled_year (year_end y) < 365 * (y + 1)) [0..399]"
  by code_simp

text \<open>The computed year is the one in which the day lies.\<close>

lemma ex_year:
  assumes "0 \<le> doe" "doe < 146097"
  shows "\<exists>y. 0 \<le> y \<and> y \<le> 399 \<and> year_start y \<le> doe \<and> doe \<le> year_end y"
proof -
  have "\<exists>y. 0 \<le> y \<and> y \<le> 399 \<and> year_start y \<le> doe \<and> doe \<le> year_end y"
    if "year_start n \<le> doe" "0 \<le> n" "n \<le> 399" for n
    using that
  proof (induction "nat (399 - n)" arbitrary: n)
    case 0
    then have "n = 399" by simp
    with 0 assms(2) show ?case by (intro exI [of _ 399]) (simp add: year_end_def)
  next
    case (Suc k)
    show ?case
    proof (cases "year_start (n + 1) \<le> doe")
      case True
      have "k = nat (399 - (n + 1))" "n + 1 \<le> 399" using Suc.hyps(2) by linarith+
      then show ?thesis using Suc.hyps(1) [of "n + 1"] True Suc.prems(2) by simp
    next
      case False
      have "n \<noteq> 399" using Suc.hyps(2) by simp
      with False Suc.prems show ?thesis by (intro exI [of _ n]) (simp add: year_end_def)
    qed
  qed
  from this [of 0] assms(1) show ?thesis by (simp add: year_start_def)
qed

lemma year_of_day:
  assumes "0 \<le> doe" "doe < 146097"
  shows "0 \<le> scaled_year doe div 365" "scaled_year doe div 365 \<le> 399"
    "year_start (scaled_year doe div 365) \<le> doe" "doe \<le> year_end (scaled_year doe div 365)"
proof -
  from ex_year [OF assms] obtain y where y: "0 \<le> y" "y \<le> 399" "year_start y \<le> doe" "doe \<le> year_end y"
    by blast
  from y(1,2) year_bounds have "365 * y \<le> scaled_year (year_start y)" "scaled_year (year_end y) < 365 * (y + 1)"
    by (auto simp: list_all_iff)
  with scaled_year_mono [OF y(3)] scaled_year_mono [OF y(4)]
  have "365 * y \<le> scaled_year doe" "scaled_year doe < 365 * (y + 1)" by linarith+
  then have "scaled_year doe div 365 = y"
    by (intro int_div_pos_eq [where r = "scaled_year doe - 365 * y"]) simp_all
  with y show "0 \<le> scaled_year doe div 365" "scaled_year doe div 365 \<le> 399"
    "year_start (scaled_year doe div 365) \<le> doe" "doe \<le> year_end (scaled_year doe div 365)" by simp_all
qed

lemma year_length: "year_end y \<le> year_start y + 364 + (if leap_year (y + 1) then 1 else 0)"
proof -
  have 4: "(y + 1) div 4 = (if 4 dvd y + 1 then y div 4 + 1 else y div 4)" by (rule div_succ) simp
  have 100: "(y + 1) div 100 = (if 100 dvd y + 1 then y div 100 + 1 else y div 100)" by (rule div_succ) simp
  have leap: "leap_year (y + 1) \<longleftrightarrow> 4 dvd y + 1 \<and> (\<not> 100 dvd y + 1 \<or> 400 dvd y + 1)"
    by (simp add: leap_year_def dvd_eq_mod_eq_0)
  have imp: "100 dvd y + 1 \<Longrightarrow> 4 dvd y + 1" by (erule dvd_trans [rotated]) simp
  show ?thesis
  proof (cases "y = 399")
    case True
    then show ?thesis by (simp add: year_end_def year_start_def leap_year_def)
  next
    case False
    then have e: "year_end y = year_start y + 364
        + (if 4 dvd y + 1 then 1 else 0) - (if 100 dvd y + 1 then 1 else 0)"
      by (simp add: year_end_def year_start_def 4 100)
    show ?thesis
      by (cases "4 dvd y + 1"; cases "100 dvd y + 1") (use imp in \<open>simp_all add: e leap\<close>)
  qed
qed

text \<open>Months from March: the day of the year and back.\<close>

lemma month_cases:
  fixes n :: int
  assumes "0 \<le> n" "n \<le> 11"
  shows "n \<in> {0, 1, 2, 3} \<or> n \<in> {4, 5, 6, 7} \<or> n \<in> {8, 9, 10, 11}"
  using assms by simp presburger

lemma month_of_day:
  fixes doy :: int
  assumes "0 \<le> doy" "doy \<le> 365"
  defines "mp \<equiv> (5 * doy + 2) div 153"
  defines "d \<equiv> doy - (153 * mp + 2) div 5 + 1"
  shows "0 \<le> mp" "mp \<le> 11" "1 \<le> d"
    "d \<le> (if mp = 11 then 29 else if mp \<in> {1, 3, 6, 8} then 30 else 31)"
    "mp = 11 \<and> doy \<le> 364 \<Longrightarrow> d \<le> 28"
proof -
  have mp: "153 * mp \<le> 5 * doy + 2" "5 * doy + 2 < 153 * mp + 153" unfolding mp_def by linarith+
  show b: "0 \<le> mp" "mp \<le> 11" using mp assms(1,2) by linarith+
  from month_cases [OF this]
  show "1 \<le> d" "d \<le> (if mp = 11 then 29 else if mp \<in> {1, 3, 6, 8} then 30 else 31)"
    "mp = 11 \<and> doy \<le> 364 \<Longrightarrow> d \<le> 28"
    using mp assms(1,2) unfolding d_def by (elim disjE insertE emptyE; simp)+
qed

text \<open>The date of a day is valid, and the day of that date is the day.\<close>

theorem civil_from_days_roundtrip:
  assumes "civil_from_days z = (y, m, d)"
  shows "days_from_civil y m d = z" "1 \<le> m" "m \<le> 12" "1 \<le> d" "d \<le> days_in m y"
proof -
  define era doe where e: "era = (z + 719468) div 146097" "doe = (z + 719468) mod 146097"
  define yoe where yoe: "yoe = scaled_year doe div 365"
  define doy where doy: "doy = doe - year_start yoe"
  define mp where mp: "mp = (5 * doy + 2) div 153"
  have doe: "0 \<le> doe" "doe < 146097" by (simp_all add: e)
  have yr: "0 \<le> yoe" "yoe \<le> 399" "year_start yoe \<le> doe" "doe \<le> year_end yoe"
    using year_of_day [OF doe] by (simp_all add: yoe)
  have dr: "0 \<le> doy" "doy \<le> 364 + (if leap_year (yoe + 1) then 1 else 0)"
    using yr(3,4) year_length [of yoe] by (simp_all add: doy)
  then have "doy \<le> 365" by (simp split: if_splits)
  note mo = month_of_day [OF dr(1) this, folded mp]
  have c: "m = (if mp < 10 then mp + 3 else mp - 9)" "d = doy - (153 * mp + 2) div 5 + 1"
    "y = (if m \<le> 2 then yoe + era * 400 + 1 else yoe + era * 400)"
  proof -
    let ?m = "if mp < 10 then mp + 3 else mp - 9"
    have "civil_from_days z = (if ?m \<le> 2 then yoe + era * 400 + 1 else yoe + era * 400, ?m,
        doy - (153 * mp + 2) div 5 + 1)"
      unfolding civil_from_days_def Let_def mp doy yoe scaled_year_def year_start_def e by (rule refl)
    then have "(if ?m \<le> 2 then yoe + era * 400 + 1 else yoe + era * 400, ?m,
        doy - (153 * mp + 2) div 5 + 1) = (y, m, d)" using assms by (simp only:)
    then show "m = ?m" "d = doy - (153 * mp + 2) div 5 + 1"
      "y = (if m \<le> 2 then yoe + era * 400 + 1 else yoe + era * 400)"
      by (elim Pair_inject; simp only:)+
  qed
  show "1 \<le> m" "m \<le> 12" using mo(1,2) by (simp_all add: c(1))
  show "1 \<le> d" using mo(3) by (simp add: c(2))
  have y': "(if m \<le> 2 then y - 1 else y) = yoe + era * 400" by (simp add: c(3))
  have m9: "(m + 9) mod 12 = mp"
  proof (cases "mp < 10")
    case True
    have "(m + 9) mod 12 = (mp + 1 * 12) mod 12" by (simp add: c(1) True)
    also have "\<dots> = mp mod 12" by (rule mod_mult_self1)
    also have "\<dots> = mp" using mo(1,2) by (intro mod_pos_pos_trivial) simp_all
    finally show ?thesis .
  next
    case False
    have "(m + 9) mod 12 = mp mod 12" by (simp add: c(1) False)
    also have "\<dots> = mp" using mo(1,2) by (intro mod_pos_pos_trivial) simp_all
    finally show ?thesis .
  qed
  have "z = era * 146097 + doe - 719468" by (simp add: e)
  then show "days_from_civil y m d = z"
    using yr(1,2) unfolding days_from_civil_def y' m9 Let_def
    by (simp add: c(2) doy year_start_def)
  have leap: "leap_year (yoe + 1 + era * 400) = leap_year (yoe + 1)"
  proof -
    have "(yoe + 1 + era * 400) mod k = (yoe + 1) mod k" if "k dvd 400" for k
      using that by (metis dvd_def mod_mult_self2 mult.assoc mult.left_commute)
    then show ?thesis by (simp add: leap_year_def)
  qed
  show "d \<le> days_in m y"
  proof (cases "mp = 11")
    case True
    then have "m = 2" "y = yoe + 1 + era * 400" by (simp_all add: c(1,3))
    then show ?thesis using True mo(4,5) dr(2) by (auto simp: days_in_def leap c(2) split: if_splits)
  next
    case False
    then have "m \<noteq> 2" using mo(1,2) by (simp add: c(1))
    moreover have "m \<in> {4, 6, 9, 11} \<longleftrightarrow> mp \<in> {1, 3, 6, 8}" using mo(1,2) by (auto simp: c(1))
    ultimately show ?thesis using False mo(4) by (simp add: days_in_def c(2) split: if_splits)
  qed
qed

section \<open>Formatting and parsing back\<close>

text \<open>\<open>time.RFC3339Nano\<close> prints a fraction without its trailing zeros, and none when it is zero.\<close>

definition trim_zeros :: "string \<Rightarrow> string" where
  "trim_zeros s = rev (dropWhile (\<lambda>c. c = CHR ''0'') (rev s))"

definition Format_frac :: "gotime \<Rightarrow> string" where
  "Format_frac t =
     (let ns = t_ns t mod second
      in if ns = 0 then [] else ''.'' @ trim_zeros (pad0 9 (dec (nat ns))))"

definition Format_RFC3339Nano :: "gotime \<Rightarrow> string" where
  "Format_RFC3339Nano t = Format_clock t @ Format_frac t @ Format_zone t"

lemma length_pad0_dec: "0 < w \<Longrightarrow> n < 10 ^ w \<Longrightarrow> length (pad0 w (dec n)) = w"
  using dec_length [of w n] by (simp add: pad0_def)

lemma pad0_digits: "list_all is_digit (pad0 w (dec n))"
  using set_pad0 [of w "dec n"] dec_digits [of _ n] is_digit_digit_char [of 0]
  by (auto simp: list_all_iff)

lemma scan_digits_pad0:
  "0 < w \<Longrightarrow> n < 10 ^ w \<Longrightarrow> scan_digits w (pad0 w (dec n) @ r) = Some (int n, r)"
  by (simp add: scan_digits_def length_pad0_dec pad0_digits)

lemma scan_two: "0 \<le> n \<Longrightarrow> n < 100 \<Longrightarrow> scan_digits 2 (two_digits n @ r) = Some (n, r)"
  by (simp add: two_digits_def scan_digits_pad0)

lemma length_two_digits: "0 \<le> n \<Longrightarrow> n < 100 \<Longrightarrow> length (two_digits n) = 2"
  by (simp add: two_digits_def length_pad0_dec)

lemma two_digits_cases:
  assumes "0 \<le> n" "n < 100"
  obtains a b where "two_digits n = [a, b]" "is_digit a" "is_digit b" "int (10 * digit_val a + digit_val b) = n"
proof -
  obtain a b where ab: "two_digits n = [a, b]"
    using length_two_digits [OF assms] by (auto simp: numeral_2_eq_2 length_Suc_conv)
  moreover have "is_digit a" "is_digit b"
    using pad0_digits [of 2 "nat n"] ab by (simp_all add: two_digits_def)
  moreover have "int (undec [a, b]) = n"
    using undec_pad0_dec [of 2 "nat n"] assms(1) by (simp add: ab [symmetric] two_digits_def)
  ultimately show ?thesis using that by (simp add: undec_def)
qed

lemma scan_hour_two: "0 \<le> n \<Longrightarrow> n < 100 \<Longrightarrow> scan_hour (two_digits n @ r) = Some (n, r)"
  by (erule two_digits_cases) (auto simp: scan_hour_def)

lemma trim_zeros_split: "\<exists>k. s = trim_zeros s @ replicate k (CHR ''0'')"
proof -
  have "s = rev (takeWhile (\<lambda>c. c = CHR ''0'') (rev s) @ dropWhile (\<lambda>c. c = CHR ''0'') (rev s))" by simp
  moreover have "takeWhile (\<lambda>c. c = CHR ''0'') (rev s)
      = replicate (length (takeWhile (\<lambda>c. c = CHR ''0'') (rev s))) (CHR ''0'')"
    by (intro replicate_eqI) (auto dest: set_takeWhileD)
  ultimately have "s = trim_zeros s
      @ replicate (length (takeWhile (\<lambda>c. c = CHR ''0'') (rev s))) (CHR ''0'')"
    by (metis rev_append rev_replicate trim_zeros_def)
  then show ?thesis by blast
qed

lemma undec_zero: "undec (replicate k (CHR ''0'')) = 0"
  using undec_zeros [of k "[]"] by (simp add: undec_def)

lemma scan_frac_Format:
  assumes "\<not> is_digit c" "c \<noteq> CHR ''.''" "c \<noteq> CHR '',''"
  shows "scan_frac (Format_frac t @ c # r) = Some (t_ns t mod second, c # r)"
proof (cases "t_ns t mod second = 0")
  case True
  then show ?thesis using assms by (cases r) (simp_all add: Format_frac_def scan_frac_def)
next
  case False
  define ns where "ns = t_ns t mod second"
  have ns: "0 < ns" "ns < second" using False pos_mod_bound [of second "t_ns t"]
    by (simp_all add: ns_def order_less_le)
  let ?s = "pad0 9 (dec (nat ns))"
  have len: "length ?s = 9" using ns by (intro length_pad0_dec) simp_all
  obtain k where k: "?s = trim_zeros ?s @ replicate k (CHR ''0'')" using trim_zeros_split by blast
  then have k': "k = 9 - length (trim_zeros ?s)" using len by (metis add_diff_cancel_left' length_append length_replicate)
  have u: "undec ?s = nat ns" by simp
  have "trim_zeros ?s \<noteq> []"
  proof
    assume "trim_zeros ?s = []"
    then have "?s = replicate k (CHR ''0'')" using k by simp
    then have "undec ?s = 0" by (simp only: undec_zero)
    with u ns(1) show False by simp
  qed
  then obtain x xs where x: "trim_zeros ?s = x # xs" by (cases "trim_zeros ?s") auto
  have d: "list_all is_digit (trim_zeros ?s)"
    using pad0_digits [of 9 "nat ns"] k by (metis list_all_append)
  have tl: "length (trim_zeros ?s) \<le> 9" using len k by (metis le_add1 length_append)
  have tw: "takeWhile is_digit (trim_zeros ?s @ c # r) = trim_zeros ?s"
    "dropWhile is_digit (trim_zeros ?s @ c # r) = c # r"
    using d assms(1) by (simp_all add: list_all_iff takeWhile_tail)
  have "trim_zeros ?s @ replicate (9 - length (trim_zeros ?s)) (CHR ''0'') = ?s"
    using k k' by simp
  then have "scan_frac (Format_frac t @ c # r) = Some (int (undec ?s), c # r)"
    using d tw tl x ns(1) by (simp add: Format_frac_def scan_frac_def Let_def flip: ns_def)
  then show ?thesis using ns u by (simp flip: ns_def)
qed

lemma scan_zone_Format:
  assumes "60 dvd t_off t" "\<bar>t_off t\<bar> < 86400"
  shows "scan_zone (Format_zone t) = Some (t_off t, [])"
proof (cases "t_off t = 0")
  case False
  define z where "z = \<bar>t_off t\<bar> div 60"
  have z: "\<bar>t_off t\<bar> = 60 * z" using assms(1) by (auto simp: z_def)
  with False assms(2) have zb: "0 < z" "z < 1440" by linarith+
  have hm: "0 \<le> z div 60" "z div 60 < 100" "0 \<le> z mod 60" "z mod 60 < 100" "z div 60 \<le> 24" "z mod 60 \<le> 60"
    using zb by (simp_all add: pos_imp_zdiv_nonneg_iff)
  obtain a b where ab: "two_digits (z div 60) = [a, b]" by (rule two_digits_cases [OF hm(1,2)])
  obtain c d where cd: "two_digits (z mod 60) = [c, d]" by (rule two_digits_cases [OF hm(3,4)])
  have s: "scan_digits 2 [a, b] = Some (z div 60, [])" "scan_digits 2 [c, d] = Some (z mod 60, [])"
    using scan_two [OF hm(1,2), of "[]"] scan_two [OF hm(3,4), of "[]"] ab cd by simp_all
  have "z div 60 * 60 + z mod 60 = z" by simp
  then have o: "(z div 60 * 60 + z mod 60) * 60 = \<bar>t_off t\<bar>" using z by simp
  show ?thesis
    using False zb hm(5,6) o
    by (auto simp: Format_zone_def scan_zone_def Let_def ab cd s simp flip: z_def)
qed (simp add: Format_zone_def scan_zone_def)

lemma then_scan_Some [simp]: "then_scan (Some (x, r)) f = f x r"
  by (simp add: then_scan_def)

lemma scan_char_Cons [simp]: "scan_char c (c # r) = Some ((), r)"
  by (simp add: scan_char_def)

lemma zone_not_frac: "\<exists>c r. Format_zone t = c # r \<and> \<not> is_digit c \<and> c \<noteq> CHR ''.'' \<and> c \<noteq> CHR '',''"
  by (auto simp: Format_zone_def Let_def is_digit_def)

text \<open>
  \<open>time.Parse\<close> reads back what \<open>Format(time.RFC3339Nano)\<close> writes, for years of four digits and
  zones of whole minutes.
\<close>

theorem parse_Format_RFC3339Nano:
  assumes y: "0 \<le> fst (civil t)" "fst (civil t) \<le> 9999"
    and z: "60 dvd t_off t" "\<bar>t_off t\<bar> < 86400"
  shows "parse_RFC3339Nano (Format_RFC3339Nano t) = Some t"
proof -
  obtain yr mo d where c: "civil t = (yr, mo, d)" by (cases "civil t") auto
  note r = civil_from_days_roundtrip [OF c [unfolded civil_def]]
  have yr: "0 \<le> yr" "yr \<le> 9999" using y by (simp_all add: c)
  have "d \<le> 31" using r(5) by (auto simp: days_in_def split: if_splits)
  then have mo: "0 \<le> mo" "mo < 100" "0 \<le> d" "d < 100" using r(2,3,4) by simp_all
  define sec where "sec = t_ns t div second + t_off t"
  define h mi se where hms: "h = sec mod 86400 div 3600" "mi = sec mod 86400 mod 3600 div 60"
    "se = sec mod 86400 mod 60"
  have b: "0 \<le> h" "h < 24" "0 \<le> mi" "mi < 60" "0 \<le> se" "se < 60" unfolding hms by simp_all
  have sum: "days_from_civil yr mo d * 86400 + h * 3600 + mi * 60 + se = sec"
  proof -
    have "u = u div 3600 * 3600 + u mod 3600 div 60 * 60 + u mod 60" for u :: int
    proof -
      have "u mod 3600 mod 60 = u mod 60" by (rule mod_mod_cancel) simp
      then show ?thesis
        using div_mult_mod_eq [of u 3600] div_mult_mod_eq [of "u mod 3600" 60] by linarith
    qed
    then have "sec mod 86400 = h * 3600 + mi * 60 + se" unfolding hms .
    then have "sec = sec div 86400 * 86400 + h * 3600 + mi * 60 + se"
      using div_mult_mod_eq [of sec 86400] by linarith
    then show ?thesis using r(1) by (simp add: local_day_def flip: sec_def)
  qed
  have t: "\<lparr>t_ns = sec * second - t_off t * second + t_ns t mod second, t_off = t_off t\<rparr> = t"
    by (cases t) (simp add: sec_def algebra_simps)
  have Y: "scan_digits 4 (Format_year t @ s) = Some (yr, s)" for s
    using yr by (simp add: Format_year_def c scan_digits_pad0)
  have M: "scan_digits 2 (Format_month t @ s) = Some (mo, s)" for s
    using scan_two [OF mo(1,2)] by (simp add: Format_month_def c two_digits_def)
  have D: "scan_digits 2 (Format_day t @ s) = Some (d, s)" for s
    using scan_two [OF mo(3,4)] by (simp add: Format_day_def c two_digits_def)
  obtain zc zr where zz: "Format_zone t = zc # zr" "\<not> is_digit zc" "zc \<noteq> CHR ''.''" "zc \<noteq> CHR '',''"
    using zone_not_frac by blast
  have F: "scan_frac (Format_frac t @ Format_zone t) = Some (t_ns t mod second, Format_zone t)"
    unfolding zz(1) by (rule scan_frac_Format [OF zz(2-4)])
  have clock: "Format_clock t = Format_year t @ ''-'' @ Format_month t @ ''-'' @ Format_day t @ ''T''
      @ two_digits h @ '':'' @ two_digits mi @ '':'' @ two_digits se"
    by (simp add: Format_clock_def Let_def hms sec_def)
  have "mo \<ge> 1 \<and> mo \<le> 12 \<and> h < 24 \<and> mi < 60 \<and> se < 60 \<and> 1 \<le> d \<and> d \<le> days_in mo yr"
    using r(2-5) b by simp
  then show ?thesis
    unfolding parse_RFC3339Nano_def Format_RFC3339Nano_def clock
    using b scan_hour_two [of h] scan_two [of mi] scan_two [of se]
    by (simp add: Y M D F scan_zone_Format [OF z] sum t not_less not_le)
qed

section \<open>Instants and dates\<close>

definition Before :: "gotime \<Rightarrow> gotime \<Rightarrow> bool" where
  "Before t u \<longleftrightarrow> t_ns t < t_ns u"

definition UnixMilli :: "gotime \<Rightarrow> int" where
  "UnixMilli t = t_ns t div 1000000"

definition UTC :: "gotime \<Rightarrow> gotime" where "UTC t = t\<lparr>t_off := 0\<rparr>"

text \<open>\<open>time.Date(y, m, d, h, mi, s, ns, time.UTC)\<close>, for a valid month.\<close>

definition Date_UTC :: "int \<times> int \<times> int \<Rightarrow> int \<Rightarrow> int \<Rightarrow> int \<Rightarrow> int \<Rightarrow> gotime" where
  "Date_UTC ymd h mi s ns =
     (case ymd of (y, m, d) \<Rightarrow>
        \<lparr>t_ns = (days_from_civil y m d * 86400 + h * 3600 + mi * 60 + s) * second + ns, t_off = 0\<rparr>)"

text \<open>Sunday is 0. In a zone of fixed offset \<open>AddDate(0, 0, n)\<close> adds 24 hours a day.\<close>

definition Weekday :: "gotime \<Rightarrow> int" where "Weekday t = (local_day t + 4) mod 7"

definition AddDays :: "gotime \<Rightarrow> int \<Rightarrow> gotime" where "AddDays t n = Add t (n * (24 * hour))"

text \<open>\<open>Truncate\<close> rounds down to a multiple since the zero time.\<close>

definition Truncate :: "gotime \<Rightarrow> int \<Rightarrow> gotime" where
  "Truncate t d = Add t (- ((t_ns t - t_ns zero_time) mod d))"

lemma Date_UTC_civil:
  "t_ns (Date_UTC (civil t) h mi s ns) = (local_day t * 86400 + h * 3600 + mi * 60 + s) * second + ns"
proof -
  obtain y m d where c: "civil t = (y, m, d)" by (cases "civil t") auto
  from civil_from_days_roundtrip(1) [OF c [unfolded civil_def]] show ?thesis
    by (simp add: Date_UTC_def c)
qed

lemma t_off_Date_UTC [simp]: "t_off (Date_UTC ymd h mi s ns) = 0"
  by (cases ymd) (simp add: Date_UTC_def)

lemma Truncate_day: "t_off t = 0 \<Longrightarrow> t_ns (Truncate t (24 * hour)) = local_day t * (24 * hour)"
proof -
  assume "t_off t = 0"
  then have "local_day t = t_ns t div (24 * hour)" by (simp add: local_day_def zdiv_zmult2_eq)
  moreover have "(t_ns t - t_ns zero_time) mod (24 * hour) = t_ns t mod (24 * hour)"
  proof -
    have "t_ns t - t_ns zero_time = t_ns t + 719162 * (24 * hour)" by (simp add: zero_time_def)
    then show ?thesis by (simp only: mod_mult_self1)
  qed
  ultimately show ?thesis by (simp add: Truncate_def Add_def minus_mod_eq_div_mult)
qed

end
