(* ===== verification/Wire.thy ===== *)
theory Wire
  imports Queue Go_JSON Go_Calendar "HOL-Library.List_Lexorder" "HOL-Library.Char_ord"
begin

text \<open>
  The wire format of the queue: \<open>Marshal\<close> and \<open>Unmarshal\<close> of package \<open>eventsv1\<close>, which are those of
  \<open>encoding/json\<close> for the type \<open>LLMEvent\<close> with its field tags. The text of a \<open>float64\<close> and its parser
  (\<open>strconv\<close>) are the parameters \<open>fmt\<close> and \<open>pf\<close>; a queued event has cost 0.
\<close>

section \<open>Marshal\<close>

definition omit_empty :: "string \<Rightarrow> string \<Rightarrow> (string \<times> jval) list" where
  "omit_empty k s = (if s = [] then [] else [(k, json_string s)])"

text \<open>A map is written in the order of its keys.\<close>

definition json_tags :: "(string \<rightharpoonup> string) \<Rightarrow> jval" where
  "json_tags m = VObj (map (\<lambda>k. (quote_body k, json_string (the (m k)))) (sorted_list_of_set (dom m)))"

definition omit_tags :: "(string \<rightharpoonup> string) option \<Rightarrow> (string \<times> jval) list" where
  "omit_tags tags =
     (case tags of None \<Rightarrow> [] | Some m \<Rightarrow> if dom m = {} then [] else [(''tags'', json_tags m)])"

definition json_time :: "gotime \<Rightarrow> jval" where
  "json_time t = VStr (Format_RFC3339Nano t)"

definition marshal_members :: "(f64 \<Rightarrow> string) \<Rightarrow> LLMEvent \<Rightarrow> (string \<times> jval) list" where
  "marshal_members fmt x =
     [(''org_id'', json_uint (unat (pb_OrgId x))), (''event_id'', json_string (pb_EventId x))]
     @ omit_empty ''project_id'' (pb_ProjectId x)
     @ [(''timestamp'', json_time (pb_Timestamp x)), (''inserted_at'', json_time (pb_InsertedAt x)),
        (''model'', json_string (pb_Model x)), (''provider'', json_string (pb_Provider x)),
        (''prompt_tokens'', json_uint (unat (pb_PromptTokens x))),
        (''completion_tokens'', json_uint (unat (pb_CompletionTokens x))),
        (''total_tokens'', json_uint (unat (pb_TotalTokens x))), (''cost_usd'', VNum (fmt (pb_CostUsd x))),
        (''latency_ms'', json_uint (unat (pb_LatencyMs x))), (''status_code'', json_uint (unat (pb_StatusCode x)))]
     @ omit_tags (pb_Tags x) @ omit_empty ''prompt'' (pb_Prompt x) @ omit_empty ''response'' (pb_Response x)
     @ omit_empty ''prompt_hash'' (pb_PromptHash x) @ omit_empty ''s3_key'' (pb_S3Key x)
     @ [(''s3_status'', json_int (sint (pb_S3Status x))), (''schema_version'', json_uint (unat (pb_SchemaVersion x)))]"

definition Marshal :: "(f64 \<Rightarrow> string) \<Rightarrow> LLMEvent \<Rightarrow> string option" where
  "Marshal fmt x =
     (if time_marshals (pb_Timestamp x) \<and> time_marshals (pb_InsertedAt x)
      then Some (print_value (VObj (marshal_members fmt x))) else None)"

section \<open>Unmarshal\<close>

definition pb_fields :: "string list" where
  "pb_fields =
     [''org_id'', ''event_id'', ''project_id'', ''timestamp'', ''inserted_at'', ''model'', ''provider'',
      ''prompt_tokens'', ''completion_tokens'', ''total_tokens'', ''cost_usd'', ''latency_ms'', ''status_code'',
      ''tags'', ''prompt'', ''response'', ''prompt_hash'', ''s3_key'', ''s3_status'', ''schema_version'']"

definition decode_time :: "jval \<Rightarrow> gotime \<Rightarrow> gotime option" where
  "decode_time v old = (case v of VNull \<Rightarrow> Some old | VStr raw \<Rightarrow> parse_RFC3339Nano raw | _ \<Rightarrow> None)"

definition decode_float :: "(string \<Rightarrow> f64 option) \<Rightarrow> jval \<Rightarrow> f64 \<Rightarrow> f64 option" where
  "decode_float pf v old = (case v of VNull \<Rightarrow> Some old | VNum lit \<Rightarrow> pf lit | _ \<Rightarrow> None)"

fun tag_members :: "(string \<times> jval) list \<Rightarrow> (string \<rightharpoonup> string) \<Rightarrow> (string \<rightharpoonup> string) option" where
  "tag_members [] m = Some m"
| "tag_members ((k, v) # ms) m =
     (case (unquote k, decode_string v []) of
        (Some key, Some s) \<Rightarrow> tag_members ms (m(key \<mapsto> s))
      | _ \<Rightarrow> None)"

definition decode_tags :: "jval \<Rightarrow> (string \<rightharpoonup> string) option \<Rightarrow> (string \<rightharpoonup> string) option option" where
  "decode_tags v old =
     (case v of
        VNull \<Rightarrow> Some None
      | VObj ms \<Rightarrow> map_option Some (tag_members ms (case old of None \<Rightarrow> Map.empty | Some m \<Rightarrow> m))
      | _ \<Rightarrow> None)"

definition set_pb :: "(string \<Rightarrow> f64 option) \<Rightarrow> string \<Rightarrow> jval \<Rightarrow> LLMEvent \<Rightarrow> LLMEvent option" where
  "set_pb pf f v x =
     (if f = ''org_id'' then map_option (\<lambda>n. x\<lparr>pb_OrgId := of_nat n\<rparr>) (decode_uint 64 v (unat (pb_OrgId x)))
      else if f = ''event_id'' then map_option (\<lambda>s. x\<lparr>pb_EventId := s\<rparr>) (decode_string v (pb_EventId x))
      else if f = ''project_id'' then map_option (\<lambda>s. x\<lparr>pb_ProjectId := s\<rparr>) (decode_string v (pb_ProjectId x))
      else if f = ''timestamp'' then map_option (\<lambda>t. x\<lparr>pb_Timestamp := t\<rparr>) (decode_time v (pb_Timestamp x))
      else if f = ''inserted_at'' then map_option (\<lambda>t. x\<lparr>pb_InsertedAt := t\<rparr>) (decode_time v (pb_InsertedAt x))
      else if f = ''model'' then map_option (\<lambda>s. x\<lparr>pb_Model := s\<rparr>) (decode_string v (pb_Model x))
      else if f = ''provider'' then map_option (\<lambda>s. x\<lparr>pb_Provider := s\<rparr>) (decode_string v (pb_Provider x))
      else if f = ''prompt_tokens''
      then map_option (\<lambda>n. x\<lparr>pb_PromptTokens := of_nat n\<rparr>) (decode_uint 32 v (unat (pb_PromptTokens x)))
      else if f = ''completion_tokens''
      then map_option (\<lambda>n. x\<lparr>pb_CompletionTokens := of_nat n\<rparr>) (decode_uint 32 v (unat (pb_CompletionTokens x)))
      else if f = ''total_tokens''
      then map_option (\<lambda>n. x\<lparr>pb_TotalTokens := of_nat n\<rparr>) (decode_uint 32 v (unat (pb_TotalTokens x)))
      else if f = ''cost_usd'' then map_option (\<lambda>c. x\<lparr>pb_CostUsd := c\<rparr>) (decode_float pf v (pb_CostUsd x))
      else if f = ''latency_ms''
      then map_option (\<lambda>n. x\<lparr>pb_LatencyMs := of_nat n\<rparr>) (decode_uint 32 v (unat (pb_LatencyMs x)))
      else if f = ''status_code''
      then map_option (\<lambda>n. x\<lparr>pb_StatusCode := of_nat n\<rparr>) (decode_uint 32 v (unat (pb_StatusCode x)))
      else if f = ''tags'' then map_option (\<lambda>m. x\<lparr>pb_Tags := m\<rparr>) (decode_tags v (pb_Tags x))
      else if f = ''prompt'' then map_option (\<lambda>s. x\<lparr>pb_Prompt := s\<rparr>) (decode_string v (pb_Prompt x))
      else if f = ''response'' then map_option (\<lambda>s. x\<lparr>pb_Response := s\<rparr>) (decode_string v (pb_Response x))
      else if f = ''prompt_hash'' then map_option (\<lambda>s. x\<lparr>pb_PromptHash := s\<rparr>) (decode_string v (pb_PromptHash x))
      else if f = ''s3_key'' then map_option (\<lambda>s. x\<lparr>pb_S3Key := s\<rparr>) (decode_string v (pb_S3Key x))
      else if f = ''s3_status''
      then map_option (\<lambda>i. x\<lparr>pb_S3Status := of_int i\<rparr>) (decode_int 32 v (sint (pb_S3Status x)))
      else if f = ''schema_version''
      then map_option (\<lambda>n. x\<lparr>pb_SchemaVersion := of_nat n\<rparr>) (decode_uint 32 v (unat (pb_SchemaVersion x)))
      else None)"

definition zero_event :: LLMEvent where
  "zero_event =
     \<lparr>pb_OrgId = 0, pb_EventId = [], pb_ProjectId = [], pb_Timestamp = zero_time, pb_InsertedAt = zero_time,
      pb_Model = [], pb_Provider = [], pb_PromptTokens = 0, pb_CompletionTokens = 0, pb_TotalTokens = 0,
      pb_CostUsd = 0, pb_LatencyMs = 0, pb_StatusCode = 0, pb_Tags = None, pb_Prompt = [], pb_Response = [],
      pb_PromptHash = [], pb_S3Key = [], pb_S3Status = 0, pb_SchemaVersion = 0\<rparr>"

definition Unmarshal :: "(string \<Rightarrow> f64 option) \<Rightarrow> string \<Rightarrow> LLMEvent option" where
  "Unmarshal pf data = decode_struct pb_fields (set_pb pf) zero_event data"

section \<open>Times on the wire\<close>

definition time_char :: "char \<Rightarrow> bool" where
  "time_char c \<longleftrightarrow> is_digit c \<or> c \<in> set ''-:.TZ+''"

lemma plain_raw:
  assumes "list_all (\<lambda>c. 32 \<le> (of_char c :: nat) \<and> c \<noteq> QU \<and> c \<noteq> BS) raw"
  shows "scan_string (raw @ rest) = cons_raw raw (scan_string rest)"
  using assms by (induction raw) (simp_all add: cons_raw_Nil cons_raw_cons_raw)

lemma time_char_plain: "time_char c \<Longrightarrow> 32 \<le> (of_char c :: nat) \<and> c \<noteq> QU \<and> c \<noteq> BS"
  by (auto simp: time_char_def is_digit_def QU_def BS_def)

lemma digits_time: "list_all is_digit s \<Longrightarrow> list_all time_char s"
  by (auto simp: list_all_iff time_char_def)

lemma trim_zeros_subset: "set (trim_zeros s) \<subseteq> set s"
  by (auto simp: trim_zeros_def dest: set_dropWhileD)

lemma Format_frac_chars: "list_all time_char (Format_frac t)"
proof -
  have "list_all time_char (trim_zeros (pad0 9 (dec n)))" for n
    using digits_time [OF pad0_digits [of 9 n]] trim_zeros_subset by (auto simp: list_all_iff)
  moreover have "time_char (CHR ''.'')" by (simp add: time_char_def)
  ultimately show ?thesis by (simp add: Format_frac_def Let_def)
qed

lemma Format_RFC3339Nano_chars: "list_all time_char (Format_RFC3339Nano t)"
proof -
  have "time_char (CHR ''-'')" "time_char (CHR '':'')" "time_char (CHR ''T'')" "time_char (CHR ''Z'')" "time_char (CHR ''+'')"
    by (simp_all add: time_char_def)
  moreover have "list_all time_char (pad0 w (dec n))" for w n
    by (rule digits_time [OF pad0_digits])
  ultimately show ?thesis
    by (simp add: Format_RFC3339Nano_def Format_clock_def Format_year_def Format_month_def Format_day_def
        Format_zone_def two_digits_def Format_frac_chars Let_def)
qed

lemma raw_ok_time: "raw_ok (Format_RFC3339Nano t)"
proof -
  have "list_all (\<lambda>c. 32 \<le> (of_char c :: nat) \<and> c \<noteq> QU \<and> c \<noteq> BS) (Format_RFC3339Nano t)"
    by (rule list.pred_mono_strong [OF Format_RFC3339Nano_chars time_char_plain])
  from plain_raw [OF this] show ?thesis by (simp add: raw_ok_def cons_raw_def)
qed

definition wire_time :: "gotime \<Rightarrow> bool" where
  "wire_time t \<longleftrightarrow> time_marshals t \<and> 60 dvd t_off t"

lemma decode_time_json:
  assumes "wire_time t"
  shows "decode_time (json_time t) old = Some t"
proof -
  have "\<not> 86400 \<le> \<bar>t_off t\<bar>"
  proof
    assume "86400 \<le> \<bar>t_off t\<bar>"
    then have "86400 div 60 div 60 \<le> \<bar>t_off t\<bar> div 60 div 60" by (intro zdiv_mono1) simp_all
    then show False using assms by (simp add: wire_time_def time_marshals_def)
  qed
  with parse_Format_RFC3339Nano [of t] assms show ?thesis
    by (simp add: decode_time_def json_time_def wire_time_def time_marshals_def)
qed

section \<open>The two ends agree\<close>

text \<open>What the worker has after reading what the publisher wrote.\<close>

definition received_tags :: "(string \<rightharpoonup> string) option \<Rightarrow> (string \<rightharpoonup> string) option" where
  "received_tags tags =
     (case tags of
        None \<Rightarrow> None
      | Some m \<Rightarrow>
          if dom m = {} then None
          else Some (map_of (rev (map (\<lambda>k. (to_valid k, to_valid (the (m k)))) (sorted_list_of_set (dom m))))))"

definition received :: "LLMEvent \<Rightarrow> LLMEvent" where
  "received x =
     x\<lparr>pb_EventId := to_valid (pb_EventId x), pb_ProjectId := to_valid (pb_ProjectId x),
       pb_Model := to_valid (pb_Model x), pb_Provider := to_valid (pb_Provider x),
       pb_Tags := received_tags (pb_Tags x), pb_Prompt := to_valid (pb_Prompt x),
       pb_Response := to_valid (pb_Response x), pb_PromptHash := to_valid (pb_PromptHash x),
       pb_S3Key := to_valid (pb_S3Key x)\<rparr>"

lemma tag_members_written:
  "tag_members (map (\<lambda>k. (quote_body k, json_string (f k))) ks) m
     = Some (m ++ map_of (rev (map (\<lambda>k. (to_valid k, to_valid (f k))) ks)))"
proof (induction ks arbitrary: m)
  case (Cons k ks)
  then show ?case
    by (simp add: literal_read json_facts) (auto simp: map_add_def fun_eq_iff split: option.split)
qed simp

lemma decode_tags_written:
  "decode_tags (json_tags m) None
     = Some (Some (map_of (rev (map (\<lambda>k. (to_valid k, to_valid (the (m k)))) (sorted_list_of_set (dom m))))))"
  by (simp add: decode_tags_def json_tags_def tag_members_written)

lemma pb_fields_plain: "\<forall>k \<in> set pb_fields. plain_key k"
  by (simp add: pb_fields_def plain_key_def)

lemma pb_member:
  assumes "k \<in> set pb_fields"
  shows "decode_members pb_fields (set_pb pf) ((k, v) # ms) x
     = (case set_pb pf k v x of None \<Rightarrow> None | Some x \<Rightarrow> decode_members pb_fields (set_pb pf) ms x)"
  using assms pb_fields_plain by (intro decode_members_field) auto

lemma pb_omit:
  assumes "k \<in> set pb_fields" "set_pb pf k (json_string s) x = Some x'" "s = [] \<Longrightarrow> x' = x"
  shows "decode_members pb_fields (set_pb pf) (omit_empty k s @ ms) x = decode_members pb_fields (set_pb pf) ms x'"
  using assms by (simp add: omit_empty_def pb_member del: decode_members.simps)

lemma pb_field_names:
  "''org_id'' \<in> set pb_fields" "''event_id'' \<in> set pb_fields" "''project_id'' \<in> set pb_fields"
  "''timestamp'' \<in> set pb_fields" "''inserted_at'' \<in> set pb_fields" "''model'' \<in> set pb_fields"
  "''provider'' \<in> set pb_fields" "''prompt_tokens'' \<in> set pb_fields" "''completion_tokens'' \<in> set pb_fields"
  "''total_tokens'' \<in> set pb_fields" "''cost_usd'' \<in> set pb_fields" "''latency_ms'' \<in> set pb_fields"
  "''status_code'' \<in> set pb_fields" "''tags'' \<in> set pb_fields" "''prompt'' \<in> set pb_fields"
  "''response'' \<in> set pb_fields" "''prompt_hash'' \<in> set pb_fields" "''s3_key'' \<in> set pb_fields"
  "''s3_status'' \<in> set pb_fields" "''schema_version'' \<in> set pb_fields"
  by (simp_all add: pb_fields_def)

lemma pb_omits:
  "pb_ProjectId x = [] \<Longrightarrow> decode_members pb_fields (set_pb pf) (omit_empty ''project_id'' s @ ms) x
     = decode_members pb_fields (set_pb pf) ms (x\<lparr>pb_ProjectId := to_valid s\<rparr>)"
  "pb_Prompt x = [] \<Longrightarrow> decode_members pb_fields (set_pb pf) (omit_empty ''prompt'' s @ ms) x
     = decode_members pb_fields (set_pb pf) ms (x\<lparr>pb_Prompt := to_valid s\<rparr>)"
  "pb_Response x = [] \<Longrightarrow> decode_members pb_fields (set_pb pf) (omit_empty ''response'' s @ ms) x
     = decode_members pb_fields (set_pb pf) ms (x\<lparr>pb_Response := to_valid s\<rparr>)"
  "pb_PromptHash x = [] \<Longrightarrow> decode_members pb_fields (set_pb pf) (omit_empty ''prompt_hash'' s @ ms) x
     = decode_members pb_fields (set_pb pf) ms (x\<lparr>pb_PromptHash := to_valid s\<rparr>)"
  "pb_S3Key x = [] \<Longrightarrow> decode_members pb_fields (set_pb pf) (omit_empty ''s3_key'' s @ ms) x
     = decode_members pb_fields (set_pb pf) ms (x\<lparr>pb_S3Key := to_valid s\<rparr>)"
  by (cases x; rule pb_omit; simp add: pb_field_names set_pb_def json_facts)+

lemma pb_omit_tags:
  assumes "pb_Tags x = None"
  shows "decode_members pb_fields (set_pb pf) (omit_tags tags @ ms) x
     = decode_members pb_fields (set_pb pf) ms (x\<lparr>pb_Tags := received_tags tags\<rparr>)"
proof -
  have k: "''tags'' \<in> set pb_fields" by (simp add: pb_fields_def)
  have s: "set_pb pf ''tags'' (json_tags m) x
      = Some (x\<lparr>pb_Tags := Some (map_of (rev (map (\<lambda>k. (to_valid k, to_valid (the (m k)))) (sorted_list_of_set (dom m)))))\<rparr>)" for m
    by (simp add: set_pb_def assms decode_tags_written)
  have "x = x\<lparr>pb_Tags := None\<rparr>" using assms by (cases x) simp
  then show ?thesis
    by (cases tags) (simp_all add: omit_tags_def received_tags_def pb_member [OF k] s del: decode_members.simps)
qed

definition wire_ok :: "(f64 \<Rightarrow> string) \<Rightarrow> (string \<Rightarrow> f64 option) \<Rightarrow> LLMEvent \<Rightarrow> bool" where
  "wire_ok fmt pf x \<longleftrightarrow>
     wire_time (pb_Timestamp x) \<and> wire_time (pb_InsertedAt x)
     \<and> number_ok (fmt (pb_CostUsd x)) \<and> pf (fmt (pb_CostUsd x)) = Some (pb_CostUsd x)"

lemma json_tags_ok: "value_ok (json_tags m)" "depth_ok (Suc 0) (json_tags m)"
  by (auto simp: json_tags_def json_facts raw_ok_quote)

text \<open>A member that is written has the name of a field and a value without members of its own, or the tags.\<close>

definition member_ok :: "string \<times> jval \<Rightarrow> bool" where
  "member_ok m \<longleftrightarrow> fst m \<in> set pb_fields \<and> value_ok (snd m) \<and> depth_ok (Suc 0) (snd m)"

lemma member_okI:
  "k \<in> set pb_fields \<Longrightarrow> member_ok (k, json_string s)"
  "k \<in> set pb_fields \<Longrightarrow> member_ok (k, json_uint n)"
  "k \<in> set pb_fields \<Longrightarrow> member_ok (k, json_int i)"
  "k \<in> set pb_fields \<Longrightarrow> member_ok (k, json_time t)"
  "k \<in> set pb_fields \<Longrightarrow> number_ok lit \<Longrightarrow> member_ok (k, VNum lit)"
  "k \<in> set pb_fields \<Longrightarrow> list_all member_ok (omit_empty k s)"
  "list_all member_ok (omit_tags tags)"
  by (simp_all add: member_ok_def json_facts json_time_def raw_ok_time omit_empty_def omit_tags_def json_tags_ok
      pb_field_names split: option.split)

lemma marshal_members_ok:
  assumes "number_ok (fmt (pb_CostUsd x))"
  shows "list_all member_ok (marshal_members fmt x)"
  unfolding marshal_members_def list_all_append list.pred_inject
  using assms by (intro conjI TrueI list.pred_inject(1) member_okI pb_field_names)

lemma uint_written:
  "decode_uint 64 (json_uint (unat (a :: 64 word))) old = Some (unat a)"
  "decode_uint 32 (json_uint (unat (b :: 32 word))) old = Some (unat b)"
  "decode_int 32 (json_int (sint (c :: 32 word))) old' = Some (sint c)"
proof -
  have "unat a < 2 ^ LENGTH(64)" "unat b < 2 ^ LENGTH(32)" by (rule unsigned_less)+
  then show "decode_uint 64 (json_uint (unat a)) old = Some (unat a)"
    "decode_uint 32 (json_uint (unat b)) old = Some (unat b)" by (simp_all add: json_facts)
  show "decode_int 32 (json_int (sint c)) old' = Some (sint c)"
    using sint_greater_eq [of c] sint_less [of c] by (simp add: json_facts)
qed

lemma wire_read_members:
  assumes "wire_ok fmt pf x"
  shows "decode_members pb_fields (set_pb pf) (marshal_members fmt x) zero_event = Some (received x)"
proof -
  have f: "decode_float pf (VNum (fmt (pb_CostUsd x))) old = Some (pb_CostUsd x)" for old
    using assms by (simp add: wire_ok_def decode_float_def)
  have t: "decode_time (json_time (pb_Timestamp x)) old = Some (pb_Timestamp x)"
    "decode_time (json_time (pb_InsertedAt x)) old = Some (pb_InsertedAt x)" for old
    using assms by (simp_all add: wire_ok_def decode_time_json)
  show ?thesis
    unfolding marshal_members_def append_Cons append_Nil append_assoc
    by (simp add: pb_member pb_field_names pb_omits pb_omit_tags set_pb_def uint_written json_facts t f
        zero_event_def received_def del: decode_members.simps(2))
qed

definition tags_ok :: "(string \<rightharpoonup> string) option \<Rightarrow> bool" where
  "tags_ok tags \<longleftrightarrow>
     (case tags of None \<Rightarrow> True | Some m \<Rightarrow>
        finite (dom m) \<and> (\<forall>k \<in> dom m. valid_utf8 k \<and> valid_utf8 (the (m k))))"

lemma Marshal_defined: "(Marshal fmt x \<noteq> None) = marshals x"
  by (simp add: Marshal_def marshals_def)

lemma wire_read:
  assumes "wire_ok fmt pf x" "Marshal fmt x = Some data"
  shows "Unmarshal pf data = Some (received x)"
proof -
  have "number_ok (fmt (pb_CostUsd x))" using assms(1) by (simp add: wire_ok_def)
  from marshal_members_ok [of fmt x, OF this] pb_fields_plain
  have "\<forall>(k, v) \<in> set (marshal_members fmt x). plain_key k \<and> value_ok v \<and> depth_ok 1 v"
    by (auto simp: list_all_iff member_ok_def)
  note decode_struct_print [OF this, of pb_fields "set_pb pf" zero_event]
  with wire_read_members [OF assms(1)]
  have "Unmarshal pf (print_value (VObj (marshal_members fmt x))) = Some (received x)"
    by (simp only: Unmarshal_def)
  with assms(2) show ?thesis by (simp only: Marshal_def option.inject option.distinct split: if_splits)
qed

lemma received_tags_valid:
  assumes "tags_ok tags"
  shows "received_tags tags = (if tags = Some Map.empty then None else tags)"
proof (cases tags)
  case (Some m)
  with assms have m: "finite (dom m)" "\<forall>k \<in> dom m. to_valid k = k \<and> to_valid (the (m k)) = the (m k)"
    by (simp_all add: tags_ok_def valid_utf8_def)
  let ?ks = "sorted_list_of_set (dom m)"
  have v: "map (\<lambda>k. (to_valid k, to_valid (the (m k)))) ?ks = map (\<lambda>k. (k, the (m k))) ?ks"
    using m by (intro map_cong) simp_all
  have "map_of (rev (map (\<lambda>k. (k, the (m k))) ?ks)) = m"
    unfolding rev_map map_of_map_restrict using m(1) by (auto simp: restrict_map_def fun_eq_iff domIff)
  then show ?thesis unfolding Some received_tags_def option.case v by simp
qed (simp add: received_tags_def)

text \<open>
  C18: The two ends of the queue agree on the wire format: what the worker decodes from the bytes that the
  publisher wrote is the event itself, except that an empty map of tags becomes no map, for texts that are
  UTF-8, zones of whole minutes and a cost that the formatter of floats writes and its parser reads.
\<close>

theorem wire_roundtrip:
  assumes "wire_ok fmt pf x" and "Marshal fmt x = Some data" and "tags_ok (pb_Tags x)"
    and "\<forall>s \<in> {pb_EventId x, pb_ProjectId x, pb_Model x, pb_Provider x, pb_Prompt x, pb_Response x,
               pb_PromptHash x, pb_S3Key x}. valid_utf8 s"
  shows "Unmarshal pf data
    = Some (x\<lparr>pb_Tags := if pb_Tags x = Some Map.empty then None else pb_Tags x\<rparr>)"
  using wire_read [OF assms(1,2)] assms(3,4)
  by (cases x) (simp add: received_def received_tags_valid valid_utf8_def)

text \<open>A formatter and a parser of floats that know the cost of a queued event, which is 0.\<close>

definition zero_fmt :: "f64 \<Rightarrow> string" where "zero_fmt c = ''0''"
definition zero_parse :: "string \<Rightarrow> f64 option" where "zero_parse s = (if s = ''0'' then Some 0 else None)"

lemma zero_written: "number_ok (zero_fmt c)" "zero_parse (zero_fmt 0) = Some 0"
proof -
  have "zero_fmt c = dec 0" by (simp add: zero_fmt_def dec.simps digit_char_0)
  then show "number_ok (zero_fmt c)" by (simp only: number_ok_dec)
qed (simp add: zero_fmt_def zero_parse_def)

definition sample_wire_event :: LLMEvent where
  "sample_wire_event =
     zero_event\<lparr>pb_OrgId := 7, pb_EventId := ''id'', pb_Timestamp := \<lparr>t_ns = 1714564800 * second, t_off = 7200\<rparr>,
       pb_Model := ''gpt-4o'', pb_Tags := Some [''env'' \<mapsto> ''a\"b''], pb_Prompt := ''hi''\<rparr>"

theorem wire_roundtrip_witness:
  "\<exists>data. Marshal zero_fmt sample_wire_event = Some data
     \<and> Unmarshal zero_parse data = Some sample_wire_event"
proof -
  have t: "time_marshals (pb_Timestamp sample_wire_event)" "time_marshals (pb_InsertedAt sample_wire_event)"
    unfolding time_marshals_def by code_simp+
  then obtain data where d: "Marshal zero_fmt sample_wire_event = Some data"
    using Marshal_defined marshals_def by blast
  have v: "valid_utf8 s" if "list_all is_ascii s" for s using valid_ascii [OF that] .
  have ok: "wire_ok zero_fmt zero_parse sample_wire_event"
    using t zero_written by (simp add: wire_ok_def wire_time_def) (simp add: sample_wire_event_def zero_event_def zero_time_def)
  have g: "tags_ok (pb_Tags sample_wire_event)"
    by (simp add: tags_ok_def sample_wire_event_def) (simp add: v is_ascii_def)
  have "pb_Tags sample_wire_event \<noteq> Some Map.empty" by (simp add: sample_wire_event_def)
  with wire_roundtrip [OF ok d g] d show ?thesis
    by (simp add: sample_wire_event_def zero_event_def v is_ascii_def)
qed

end
