(* ===== verification/Go_Valid.thy ===== *)
theory Go_Valid
  imports Go_JSON
begin

text \<open>
  Every rune is read back from its encoding, and what \<open>encoding/json\<close> hands out as a string is UTF-8.
\<close>

lemma of_char_small: "n < 256 \<Longrightarrow> (of_char (char_of n :: char) :: nat) = n"
  by simp

lemma wide_two:
  assumes "128 \<le> n" "n < 2048"
  shows "wide_rune (utf8_encode n) n"
proof -
  define u v where "u = n div 64" and "v = n mod 64"
  have n: "n = u * 64 + v" "v < 64" by (simp_all add: u_def v_def)
  have u: "2 \<le> u" "u < 32" using assms n by linarith+
  have e: "utf8_encode n = [char_of (192 + u), char_of (128 + v)]"
    using utf8_encode_ranges(2) [OF assms] by (simp add: u_def v_def)
  have c: "(of_char (char_of (192 + u) :: char) :: nat) = 192 + u" "(of_char (char_of (128 + v) :: char) :: nat) = 128 + v"
    by (rule of_char_small, use u n(2) in linarith)+
  show ?thesis
    unfolding e by (rule wide_runeI [OF e]) (use u n(2) in \<open>simp_all add: c is_ascii_def cont_byte_def n(1)\<close>)
qed

lemma wide_three:
  assumes "2048 \<le> n" "n < 65536" "\<not> (55296 \<le> n \<and> n \<le> 57343)"
  shows "wide_rune (utf8_encode n) n"
proof -
  define u v w where "u = n div 4096" and "v = n div 64 mod 64" and "w = n mod 64"
  have "n div 64 = u * 64 + v"
    using div_mult_mod_eq [of "n div 64" 64] by (simp add: u_def v_def div_mult2_eq [symmetric])
  moreover have "n = n div 64 * 64 + w" by (simp add: w_def)
  ultimately have "n = u * 4096 + v * 64 + w" by linarith
  then have n: "n = u * 4096 + v * 64 + w" "v < 64" "w < 64" by (simp_all add: v_def w_def)
  have u: "u < 16" using assms(2) n by linarith
  have r: "u = 0 \<Longrightarrow> 32 \<le> v" "u = 13 \<Longrightarrow> v \<le> 31" using assms n by linarith+
  have e: "utf8_encode n = [char_of (224 + u), char_of (128 + v), char_of (128 + w)]"
    using utf8_encode_ranges(3) [OF assms] by (simp add: u_def v_def w_def)
  have c: "(of_char (char_of (224 + u) :: char) :: nat) = 224 + u" "(of_char (char_of (128 + v) :: char) :: nat) = 128 + v"
    "(of_char (char_of (128 + w) :: char) :: nat) = 128 + w"
    by (rule of_char_small, use u n(2,3) in linarith)+
  have b: "in_range (char_of (128 + v)) (if u = 0 then 160 else 128) (if u = 13 then 159 else 191)"
    "cont_byte (char_of (128 + w))"
    using r n(2,3) by (auto simp: in_range_def cont_byte_def c)
  have i: "((224 :: nat) + u = 224) = (u = 0)" "((224 :: nat) + u = 237) = (u = 13)" by auto
  have d: "decode_rune ((char_of (224 + u) # [char_of (128 + v), char_of (128 + w)]) @ t)
      = (n, Suc (length [char_of (128 + v) :: char, char_of (128 + w)]))" for t
    using u n(2,3) by (simp add: c Let_def b i n(1))
  show ?thesis
    unfolding e by (rule wide_runeI [OF e d]) (use u n(2,3) in \<open>simp_all add: c is_ascii_def\<close>)
qed

lemma wide_four:
  assumes "65536 \<le> n" "n \<le> 1114111"
  shows "wide_rune (utf8_encode n) n"
proof -
  define u v w x where "u = n div 262144" and "v = n div 4096 mod 64" and "w = n div 64 mod 64" and "x = n mod 64"
  have "n div 4096 = u * 64 + v" "n div 64 = n div 4096 * 64 + w"
    using div_mult_mod_eq [of "n div 4096" 64] div_mult_mod_eq [of "n div 64" 64]
    by (simp_all add: u_def v_def w_def div_mult2_eq [symmetric])
  moreover have "n = n div 64 * 64 + x" by (simp add: x_def)
  ultimately have "n = u * 262144 + v * 4096 + w * 64 + x" by linarith
  then have n: "n = u * 262144 + v * 4096 + w * 64 + x" "v < 64" "w < 64" "x < 64"
    by (simp_all add: v_def w_def x_def)
  have u: "u < 5" using assms(2) n by linarith
  have r: "u = 0 \<Longrightarrow> 16 \<le> v" "u = 4 \<Longrightarrow> v \<le> 15" using assms n by linarith+
  have e: "utf8_encode n = [char_of (240 + u), char_of (128 + v), char_of (128 + w), char_of (128 + x)]"
    using utf8_encode_ranges(4) [OF assms] by (simp add: u_def v_def w_def x_def)
  have c: "(of_char (char_of (240 + u) :: char) :: nat) = 240 + u" "(of_char (char_of (128 + v) :: char) :: nat) = 128 + v"
    "(of_char (char_of (128 + w) :: char) :: nat) = 128 + w" "(of_char (char_of (128 + x) :: char) :: nat) = 128 + x"
    by (rule of_char_small, use u n(2-4) in linarith)+
  have b: "in_range (char_of (128 + v)) (if u = 0 then 144 else 128) (if u = 4 then 143 else 191)"
    "cont_byte (char_of (128 + w))" "cont_byte (char_of (128 + x))"
    using r n(2-4) by (auto simp: in_range_def cont_byte_def c)
  have i: "((240 :: nat) + u = 240) = (u = 0)" "((240 :: nat) + u = 244) = (u = 4)" by auto
  have d: "decode_rune ((char_of (240 + u) # [char_of (128 + v), char_of (128 + w), char_of (128 + x)]) @ t)
      = (n, Suc (length [char_of (128 + v) :: char, char_of (128 + w), char_of (128 + x)]))" for t
    using u n(2-4) by (simp add: c Let_def b i n(1))
  show ?thesis
    unfolding e by (rule wide_runeI [OF e d]) (use u n(2-4) in \<open>simp_all add: c is_ascii_def\<close>)
qed

lemma wide_encode:
  assumes "128 \<le> n" "n \<le> 1114111" "\<not> (55296 \<le> n \<and> n \<le> 57343)"
  shows "wide_rune (utf8_encode n) n"
  using wide_two [of n] wide_three [of n] wide_four [of n] assms by linarith

lemma utf8_encode_invalid: "55296 \<le> n \<and> n \<le> 57343 \<or> 1114111 < n \<Longrightarrow> utf8_encode n = utf8_encode RuneError"
  by (simp add: utf8_encode_def RuneError_def)

lemma to_valid_wide: "wide_rune p n \<Longrightarrow> to_valid (p @ t) = p @ to_valid t"
proof -
  assume w: "wide_rune p n"
  then obtain c q where p: "p = c # q" "decode_rune (p @ t) = (n, length p)" "utf8_encode n = p"
    by (cases p) (auto simp: wide_rune_def)
  have d: "decode_rune (c # q @ t) = (n, length p)" using p by simp
  from to_valid_step [OF this] show ?thesis using p by simp
qed

lemma to_valid_encode: "to_valid (utf8_encode n @ t) = utf8_encode n @ to_valid t"
proof -
  have r: "to_valid (utf8_encode k @ t) = utf8_encode k @ to_valid t"
    if "k \<le> 1114111" "\<not> (55296 \<le> k \<and> k \<le> 57343)" for k
  proof (cases "k < 128")
    case True
    then show ?thesis by (simp add: utf8_encode_ranges to_valid_ascii is_ascii_def)
  next
    case False
    with that show ?thesis by (intro to_valid_wide [OF wide_encode]) auto
  qed
  show ?thesis
  proof (cases "55296 \<le> n \<and> n \<le> 57343 \<or> 1114111 < n")
    case True
    show ?thesis unfolding utf8_encode_invalid [OF True] by (rule r) (simp_all add: RuneError_def)
  next
    case False
    then show ?thesis by (intro r) auto
  qed
qed

text \<open>The valid strings are those that are made of encodings.\<close>

lemma valid_Nil [simp]: "valid_utf8 []"
  by (simp add: valid_utf8_def)

lemma valid_encode_append: "valid_utf8 t \<Longrightarrow> valid_utf8 (utf8_encode n @ t)"
  by (simp add: valid_utf8_def to_valid_encode)

lemma valid_to_valid: "valid_utf8 (to_valid s)"
proof -
  have "valid_utf8 (concat (map utf8_encode ns))" for ns
    by (induction ns) (simp_all add: valid_encode_append)
  then show ?thesis by (simp add: to_valid_def)
qed

text \<open>What \<open>unquote\<close> returns is UTF-8, whatever the literal.\<close>

lemma prepend_SomeD: "prepend x r = Some s \<Longrightarrow> \<exists>t. r = Some t \<and> s = x @ t"
  by (auto simp: prepend_def)

lemma valid_Cons_ascii: "is_ascii c \<Longrightarrow> valid_utf8 t \<Longrightarrow> valid_utf8 (c # t)"
  by (simp add: valid_utf8_def to_valid_ascii)

lemma simple_escape_ascii: "simple_escape e = Some x \<Longrightarrow> is_ascii x"
  by (auto simp: simple_escape_def is_ascii_def QU_def BS_def split: if_splits)

lemma unquote_SomeD:
  assumes "unquote (c # r) = Some s"
  shows "\<exists>x q t. s = x @ t \<and> unquote q = Some t \<and> length q < length (c # r)
    \<and> ((\<exists>n. x = utf8_encode n) \<or> (\<exists>d. is_ascii d \<and> x = [d]))"
proof -
  have w: "0 < snd (decode_rune (c # r))" using decode_rune_width [of "c # r"] by simp
  have ex: ?thesis if "prepend x (unquote q) = Some s" "length q < length (c # r)"
    "(\<exists>n. x = utf8_encode n) \<or> (\<exists>d. is_ascii d \<and> x = [d])" for x q
    using prepend_SomeD [OF that(1)] that(2,3) by blast
  show ?thesis
  proof (cases "c = BS")
    case True
    with assms obtain e r' where r: "r = e # r'"
      by (subst (asm) unquote.simps) (auto split: list.splits)
    show ?thesis
    proof (cases "e = CHR ''u''")
      case u: True
      with assms True r obtain n q where "prepend (utf8_encode n) (unquote q) = Some s" "length q < length (c # r)"
        by (subst (asm) unquote.simps) (auto simp: Let_def split: option.splits if_splits)
      then show ?thesis by (intro ex) auto
    next
      case False
      with assms True r obtain x where "simple_escape e = Some x" "prepend [x] (unquote r') = Some s"
        by (subst (asm) unquote.simps) (auto split: option.splits)
      with r show ?thesis by (intro ex [of "[x]" r']) (auto dest: simple_escape_ascii)
    qed
  next
    case False
    show ?thesis
    proof (cases "is_ascii c")
      case True
      with assms False have "prepend [c] (unquote r) = Some s"
        by (subst (asm) unquote.simps) (auto split: if_splits)
      with True show ?thesis by (intro ex) auto
    next
      case na: False
      obtain n k where d: "decode_rune (c # r) = (n, k)" by fastforce
      with assms False na have "prepend (utf8_encode n) (unquote (drop k (c # r))) = Some s"
        by (subst (asm) unquote.simps) (auto simp del: decode_rune.simps split: if_splits)
      with w d show ?thesis by (intro ex) (auto simp del: decode_rune.simps)
    qed
  qed
qed

lemma unquote_valid: "unquote raw = Some s \<Longrightarrow> valid_utf8 s"
proof (induction raw arbitrary: s rule: measure_induct_rule [of length])
  case (less raw)
  show ?case
  proof (cases raw)
    case Nil
    with less.prems show ?thesis by (subst (asm) unquote.simps) simp
  next
    case (Cons c r)
    from unquote_SomeD [OF less.prems [unfolded Cons]] obtain x q t where
      x: "s = x @ t" "unquote q = Some t" "length q < length raw"
        "(\<exists>n. x = utf8_encode n) \<or> (\<exists>d. is_ascii d \<and> x = [d])"
      unfolding Cons by blast
    have "valid_utf8 t" using less.IH [OF x(3,2)] .
    with x(1,4) show ?thesis by (auto intro: valid_encode_append valid_Cons_ascii)
  qed
qed

end
