(* ===== verification/Ingest_Wire.thy ===== *)
theory Ingest_Wire
  imports Ingest_Handler Wire Go_Valid
begin

text \<open>
  What becomes of an event between the API, which validates and cuts it, and the worker, which decodes
  its bytes from the queue.
\<close>

section \<open>Cutting texts\<close>

lemma encode_RuneError: "utf8_encode RuneError = [char_of (239 :: nat), char_of (191 :: nat), char_of (189 :: nat)]"
proof -
  have "utf8_encode RuneError = [char_of (224 + RuneError div 4096), char_of (128 + RuneError div 64 mod 64),
      char_of (128 + RuneError mod 64)]"
    by (rule utf8_encode_ranges(3)) (simp_all add: RuneError_def)
  moreover have "224 + RuneError div 4096 = 239" "128 + RuneError div 64 mod 64 = 191" "128 + RuneError mod 64 = 189"
    by (simp_all add: RuneError_def)
  ultimately show ?thesis by (simp only:)
qed

lemma wide_RuneError: "wide_rune (utf8_encode RuneError) RuneError"
  by (rule wide_encode) (simp_all add: RuneError_def)

lemma to_valid_append: "valid_utf8 s \<Longrightarrow> to_valid (s @ t) = s @ to_valid t"
proof (induction s rule: measure_induct_rule [of length])
  case (less s)
  show ?case
  proof (cases s)
    case (Cons a r)
    show ?thesis
    proof (cases rule: decode_rune_cases [of a r])
      case ascii
      then have "valid_utf8 r" using less.prems by (simp add: Cons valid_utf8_def to_valid_ascii)
      with less.IH [of r] ascii(1) show ?thesis by (simp add: Cons to_valid_ascii)
    next
      case invalid
      have "utf8_encode RuneError @ to_valid r = a # r"
        using less.prems to_valid_step [OF invalid(2)] by (simp add: Cons valid_utf8_def)
      moreover have "decode_rune (utf8_encode RuneError @ q) = (RuneError, length (utf8_encode RuneError))" for q
        using wide_RuneError by (simp add: wide_rune_def)
      ultimately have "length (utf8_encode RuneError) = 1" using invalid(2) by (metis prod.inject)
      with wide_RuneError show ?thesis by (simp add: wide_rune_def)
    next
      case (wide p r' n)
      have "p \<noteq> []" using wide(2) by (auto simp: wide_rune_def)
      have "valid_utf8 r'" using less.prems wide(1,2) by (simp add: Cons valid_utf8_def to_valid_wide)
      with less.IH [of r'] wide(1,2) \<open>p \<noteq> []\<close> show ?thesis by (simp add: Cons to_valid_wide)
    qed
  qed simp
qed

lemma to_valid_cut:
  assumes "valid_utf8 s" "wide_rune w n"
  shows "to_valid (s @ [hd w]) = s @ utf8_encode RuneError"
proof -
  have "\<not> is_ascii (hd w)" using assms(2) by (cases w) (auto simp: wide_rune_def)
  then have "decode_rune [hd w] = (RuneError, 1)" by (simp add: is_ascii_def Let_def)
  from to_valid_step [OF this] show ?thesis using to_valid_append [OF assms(1)] by simp
qed

text \<open>A replacement takes three bytes for one, so a text is at most three times as long afterwards.\<close>

lemma to_valid_length: "length (to_valid s) \<le> 3 * length s"
proof (induction s rule: measure_induct_rule [of length])
  case (less s)
  show ?case
  proof (cases s)
    case (Cons a r)
    show ?thesis
    proof (cases rule: decode_rune_cases [of a r])
      case ascii
      with less.IH [of r] show ?thesis by (simp add: Cons to_valid_ascii)
    next
      case invalid
      from to_valid_step [OF this(2)] less.IH [of r] show ?thesis by (simp add: Cons encode_RuneError)
    next
      case (wide p r' n)
      have "p \<noteq> []" using wide(2) by (auto simp: wide_rune_def)
      with less.IH [of r'] wide(1,2) show ?thesis by (simp add: Cons to_valid_wide)
    qed
  qed simp
qed

section \<open>Texts that are ASCII\<close>

lemma hex_digit_ascii: "n < 16 \<Longrightarrow> is_ascii (hex_digit n)"
  by (simp add: hex_digit_def is_ascii_def)

lemma hex_byte_ascii: "list_all is_ascii (hex_byte b)"
proof -
  have "unat b < 2 ^ LENGTH(8)" by (rule unsigned_less)
  then have "unat b div 16 < 16" by simp
  then show ?thesis by (simp add: hex_byte_def hex_digit_ascii)
qed

lemma EncodeToString_ascii: "list_all is_ascii (EncodeToString bs)"
  by (induction bs) (simp_all add: EncodeToString_def hex_byte_ascii)

lemma to_valid_sha256Hex: "to_valid (sha256Hex s) = sha256Hex s"
  using valid_ascii [OF EncodeToString_ascii] by (simp add: sha256Hex_def valid_utf8_def)

section \<open>Zones of parsed times\<close>

lemma scan_zone_minutes: "scan_zone s = Some (off, r) \<Longrightarrow> 60 dvd off"
  by (auto simp: scan_zone_def split: list.splits if_splits option.splits prod.splits)

lemma then_scan_SomeD: "then_scan r f = Some (y, q) \<Longrightarrow> \<exists>x rest. r = Some (x, rest) \<and> f x rest = Some (y, q)"
  by (auto simp: then_scan_def split: option.splits prod.splits)

lemma parsed_minutes:
  assumes "parse_RFC3339Nano s = Some t"
  shows "60 dvd t_off t"
proof -
  from assms obtain r off rest where "scan_zone r = Some (off, rest)" "t_off t = off"
    unfolding parse_RFC3339Nano_def
    by (auto split: option.splits if_splits prod.splits dest!: then_scan_SomeD)
  then show ?thesis using scan_zone_minutes by blast
qed

lemma built_minutes:
  "60 dvd t_off (pb_Timestamp (buildProtoEvent now org req))" "60 dvd t_off (pb_InsertedAt (buildProtoEvent now org req))"
  by (auto simp: buildProtoEvent_def Let_def zero_time_def dest: parsed_minutes split: option.splits)

lemma built_wire_ok:
  assumes "marshals (buildProtoEvent now org req)" "number_ok (fmt 0)" "pf (fmt 0) = Some 0"
  shows "wire_ok fmt pf (buildProtoEvent now org req)"
  using assms built_minutes [of now org req]
  by (simp add: wire_ok_def wire_time_def marshals_def) (simp add: buildProtoEvent_def Let_def)

section \<open>Properties\<close>

text \<open>
  C37: A prompt is cut at a number of bytes, not of characters, before it is hashed and queued. When the cut
  falls after the first byte of a character, the publisher writes a replacement character for that byte: the
  worker receives a prompt that is longer than the limit and differs from the text whose hash it receives.
\<close>

theorem cut_prompt_arrives_changed:
  assumes "valid_utf8 s" and "length s + 1 = maxPromptBytes" and "wide_rune w n"
    and "er_Prompt req = Some (s @ w @ t)" and "x = buildProtoEvent now org (snd (ValidateEvent now req))"
    and "number_ok (fmt 0)" and "pf (fmt 0) = Some 0" and "Marshal fmt x = Some data"
  shows "\<exists>y. Unmarshal pf data = Some y \<and> pb_PromptHash y = sha256Hex (s @ [hd w])
     \<and> pb_Prompt y = s @ utf8_encode RuneError \<and> pb_Prompt y \<noteq> s @ [hd w] \<and> maxPromptBytes < length (pb_Prompt y)"
proof -
  obtain a q where w: "w = a # q" "q \<noteq> []" proof -
    have "2 \<le> length w" using assms(3) unfolding wide_rune_def by blast
    then show thesis by (cases w) (auto intro: that)
  qed
  have c: "er_Prompt (snd (ValidateEvent now req)) = Some (s @ [hd w])"
    using assms(2,4) w by (simp add: truncate_text_def flip: assms(2))
  then have p: "pb_Prompt x = s @ [hd w]" "pb_PromptHash x = sha256Hex (s @ [hd w])"
    by (simp_all add: assms(5) buildProtoEvent_def Let_def)
  have "marshals x" using assms(8) Marshal_defined [of fmt x] by simp
  with built_wire_ok assms(5-7) have "wire_ok fmt pf x" by blast
  from wire_read [OF this assms(8)] have "Unmarshal pf data = Some (received x)" .
  then show ?thesis
    using assms(2) by (simp add: encode_RuneError received_def p to_valid_sha256Hex to_valid_cut [OF assms(1,3)])
qed

lemma sample_built_marshals:
  assumes "er_Timestamp req = er_Timestamp sample_event"
  shows "marshals (buildProtoEvent sample_now org (snd (ValidateEvent sample_now req)))"
proof -
  have "case parse_RFC3339Nano (er_Timestamp sample_event) of None \<Rightarrow> False | Some t \<Rightarrow> time_marshals t"
    unfolding time_marshals_def by code_simp
  moreover have "time_marshals (sample_now\<lparr>t_off := 0\<rparr>)" unfolding time_marshals_def by code_simp
  ultimately show ?thesis using assms
    by (auto simp: marshals_def buildProtoEvent_def Let_def ValidateEvent_def split: option.splits)
qed

theorem cut_prompt_arrives_changed_witness:
  "\<exists>s req data y. length s + 1 = maxPromptBytes \<and> er_Prompt req = Some (s @ utf8_encode 233)
     \<and> Marshal zero_fmt (buildProtoEvent sample_now 1 (snd (ValidateEvent sample_now req))) = Some data
     \<and> Unmarshal zero_parse data = Some y \<and> pb_Prompt y = s @ utf8_encode RuneError"
proof -
  define s where "s = replicate (maxPromptBytes - 1) (CHR ''a'')"
  define req where "req = sample_event\<lparr>er_Prompt := Some (s @ utf8_encode 233 @ [])\<rparr>"
  have s: "valid_utf8 s" by (rule valid_ascii) (simp add: s_def list_all_iff is_ascii_def)
  have l: "length s + 1 = maxPromptBytes" by (simp add: s_def maxPromptBytes_def)
  have w: "wide_rune (utf8_encode 233) 233"
    unfolding utf8_encode_ranges(2) [of 233, simplified]
    by (rule wide_runeI) (simp_all add: utf8_encode_ranges(2) is_ascii_def cont_byte_def Let_def)
  have p: "er_Prompt req = Some (s @ utf8_encode 233 @ [])" by (simp add: req_def)
  have "marshals (buildProtoEvent sample_now 1 (snd (ValidateEvent sample_now req)))"
    by (rule sample_built_marshals) (simp add: req_def)
  then obtain data where d: "Marshal zero_fmt (buildProtoEvent sample_now 1 (snd (ValidateEvent sample_now req))) = Some data"
    using Marshal_defined by blast
  from cut_prompt_arrives_changed [where fmt = zero_fmt and pf = zero_parse, OF s l w p refl zero_written(1) zero_written(2) d] l p d show ?thesis by auto
qed

text \<open>
  A zone of a whole day passes the validation, and the encoder refuses it: the API answers 503, however
  often the client tries again, and nothing is queued.
\<close>

lemma day_zone_is_unavailable:
  assumes "rq_Method r = ''POST''" "valid_event now req"
    and "parse_RFC3339Nano (er_Timestamp req) = Some t" "86400 \<le> \<bar>t_off t\<bar>"
  shows "rs_Status (snd (HandleEvent Publish now (Some req) js r w)) = 503
       \<and> fst (HandleEvent Publish now (Some req) js r w) = js"
proof -
  have "86400 div 60 div 60 \<le> \<bar>t_off t\<bar> div 60 div 60" using assms(4) by (intro zdiv_mono1) simp_all
  then have "\<not> marshals (buildProtoEvent now org (snd (ValidateEvent now req)))" for org
    using assms(3) by (simp add: marshals_def time_marshals_def buildProtoEvent_def Let_def ValidateEvent_def)
  moreover have "fst (ValidateEvent now req) = []" using assms(2) by (simp add: ValidateEvent_Nil)
  ultimately show ?thesis using assms(1)
    by (simp add: HandleEvent_def Publish_def Let_def case_prod_unfold writeError_def writeJSON_def)
qed

lemma day_zone_valid:
  "case parse_RFC3339Nano ''2024-05-01T12:00:00+24:00'' of None \<Rightarrow> False | Some t \<Rightarrow>
     86400 \<le> \<bar>t_off t\<bar> \<and> t_ns t \<le> t_ns sample_now"
  by code_simp

lemma day_zone_event_valid:
  "valid_event sample_now (sample_event\<lparr>er_Timestamp := ''2024-05-01T12:00:00+24:00''\<rparr>)"
proof -
  have "uuidV7Regex (ToLower (er_IdempotencyKey sample_event))" by code_simp
  moreover have "\<exists>t. parse_RFC3339Nano ''2024-05-01T12:00:00+24:00'' = Some t \<and> t_ns t \<le> t_ns sample_now + 3600 * second"
    using day_zone_valid by (auto split: option.splits)
  moreover have "RuneCountInString ''gpt-4o'' \<le> 100" by code_simp
  ultimately show ?thesis by (simp add: valid_event_def sample_event_def allowedProviders_def)
qed

end
