(* ===== verification/Worker.thy ===== *)
theory Worker
  imports Worker_Cost Click_Store Ingest_Wire
begin

text \<open>
  Package \<open>worker\<close>: \<open>worker.go\<close>, which prices an event and hands it to the batch writer and to
  the uploader, and \<open>s3uploader.go\<close>, which moves texts to the object store and reconciles the
  events whose text is still pending; with \<open>storage/s3.go\<close> and the loop of \<open>nats/consumer.go\<close>.
  The object store maps keys to payloads; encoding and compression are not modelled. The pending
  store is always set, as in \<open>cmd/worker\<close>.
\<close>

section \<open>The object store\<close>

record s3Payload =
  sp_Version :: int
  sp_EventID :: string
  sp_Prompt :: string
  sp_Response :: string
  sp_PromptTokens :: u32
  sp_CompletionTokens :: u32

record s3store =
  s3_objects :: "string \<rightharpoonup> s3Payload"
  s3_puts :: nat
  s3_fails :: "nat \<Rightarrow> bool"

definition Upload :: "s3store \<Rightarrow> string \<Rightarrow> s3Payload \<Rightarrow> s3store \<times> unit result" where
  "Upload s key data =
     (let n = s3_puts s; s = s\<lparr>s3_puts := n + 1\<rparr>
      in if s3_fails s n then (s, Inl ObjectStoreError)
         else (s\<lparr>s3_objects := (s3_objects s)(key \<mapsto> data)\<rparr>, Inr ()))"

text \<open>
  What the uploader relies on (\<open>ObjectStore\<close>): an upload that succeeds sets this object, and no
  upload touches another one.
\<close>

locale object_store =
  fixes upload :: "'s \<Rightarrow> string \<Rightarrow> s3Payload \<Rightarrow> 's \<times> unit result"
    and object :: "'s \<Rightarrow> string \<Rightarrow> s3Payload option"
  assumes upload_ok: "upload s k d = (s', Inr u) \<Longrightarrow> object s' k = Some d"
    and upload_other: "k' \<noteq> k \<Longrightarrow> object (fst (upload s k d)) k' = object s k'"

interpretation s3: object_store Upload s3_objects
  by unfold_locales (auto simp: Upload_def Let_def split: if_splits)

section \<open>s3uploader.go\<close>

definition uploadCh_capacity :: nat where "uploadCh_capacity = 1000"

definition Enqueue :: "Event list \<Rightarrow> Event \<Rightarrow> Event list" where
  "Enqueue uploadCh event =
     (if length uploadCh < uploadCh_capacity then uploadCh @ [event] else uploadCh)"

definition payload_of :: "Event \<Rightarrow> s3Payload" where
  "payload_of event =
     \<lparr>sp_Version = 1, sp_EventID = ev_EventID event, sp_Prompt = ev_Prompt event,
      sp_Response = ev_Response event, sp_PromptTokens = ev_PromptTokens event,
      sp_CompletionTokens = ev_CompletionTokens event\<rparr>"

definition uploadEvent ::
    "('s \<Rightarrow> string \<Rightarrow> s3Payload \<Rightarrow> 's \<times> unit result) \<Rightarrow> gotime \<Rightarrow> 's \<times> clickhouse \<Rightarrow> Event
     \<Rightarrow> ('s \<times> clickhouse) \<times> unit result" where
  "uploadEvent upload now st event =
     (let data = payload_of event; s3Key = S3ObjectKey event in
      (case upload (fst st) s3Key data of
         (s, Inl e) \<Rightarrow> ((s, snd st), Inl e)
       | (s, Inr _) \<Rightarrow>
           ((s, fst (UpdateS3Status now (snd st) (ev_EventID event) S3StatusUploaded s3Key)), Inr ())))"

fun upload_all ::
    "('s \<Rightarrow> string \<Rightarrow> s3Payload \<Rightarrow> 's \<times> unit result) \<Rightarrow> gotime \<Rightarrow> 's \<times> clickhouse \<Rightarrow> Event list
     \<Rightarrow> 's \<times> clickhouse" where
  "upload_all upload now st [] = st"
| "upload_all upload now st (e # es) = upload_all upload now (fst (uploadEvent upload now st e)) es"

text \<open>\<open>processUploads\<close> takes the oldest request of the channel.\<close>

definition processUpload ::
    "('s \<Rightarrow> string \<Rightarrow> s3Payload \<Rightarrow> 's \<times> unit result) \<Rightarrow> gotime \<Rightarrow> 's \<times> clickhouse \<Rightarrow> Event list
     \<Rightarrow> ('s \<times> clickhouse) \<times> Event list" where
  "processUpload upload now st uploadCh =
     (case uploadCh of [] \<Rightarrow> (st, []) | e # es \<Rightarrow> (fst (uploadEvent upload now st e), es))"

definition reconcile ::
    "('s \<Rightarrow> string \<Rightarrow> s3Payload \<Rightarrow> 's \<times> unit result) \<Rightarrow> gotime \<Rightarrow> 's \<times> clickhouse \<Rightarrow> 's \<times> clickhouse" where
  "reconcile upload now st =
     (case GetPendingS3Events (snd st) 100 of
        (ch, Inl _) \<Rightarrow> (fst st, ch)
      | (ch, Inr events) \<Rightarrow>
          if length events = 0 then (fst st, ch) else upload_all upload now (fst st, ch) events)"

section \<open>worker.go\<close>

record worker =
  wk_batch :: BatchWriter
  wk_prices :: PriceCache
  wk_uploadCh :: "Event list"

definition protoToEvent :: "LLMEvent \<Rightarrow> Event" where
  "protoToEvent pb =
     \<lparr>ev_OrgID = pb_OrgId pb, ev_EventID = pb_EventId pb, ev_ProjectID = pb_ProjectId pb,
      ev_Timestamp = (if \<not> IsZero (pb_Timestamp pb) then pb_Timestamp pb else zero_time),
      ev_InsertedAt = (if \<not> IsZero (pb_InsertedAt pb) then pb_InsertedAt pb else zero_time),
      ev_Model = pb_Model pb, ev_Provider = pb_Provider pb,
      ev_PromptTokens = pb_PromptTokens pb, ev_CompletionTokens = pb_CompletionTokens pb,
      ev_TotalTokens = pb_TotalTokens pb, ev_CostUSD = pb_CostUsd pb,
      ev_LatencyMs = pb_LatencyMs pb, ev_StatusCode = pb_StatusCode pb,
      ev_Tags = (case pb_Tags pb of None \<Rightarrow> Map.empty | Some m \<Rightarrow> m),
      ev_Prompt = pb_Prompt pb, ev_Response = pb_Response pb, ev_PromptHash = pb_PromptHash pb,
      ev_S3Key = pb_S3Key pb,
      ev_S3Status = (if pb_S3Status pb = S3Status_PENDING then S3StatusPending
                     else if pb_S3Status pb = S3Status_UPLOADED then S3StatusUploaded
                     else S3StatusNone),
      ev_SchemaVersion = pb_SchemaVersion pb\<rparr>"

text \<open>The event that \<open>handleMessage\<close> builds, priced and with its object key.\<close>

definition priced_event :: "PriceCache \<Rightarrow> LLMEvent \<Rightarrow> Event" where
  "priced_event prices pb =
     (case CalculateCost prices (protoToEvent pb) of (event, cost) \<Rightarrow>
        let event = event\<lparr>ev_CostUSD := cost\<rparr>;
            event = event\<lparr>ev_TotalTokens := ev_PromptTokens event + ev_CompletionTokens event\<rparr>
        in if HasText event
           then event\<lparr>ev_S3Status := S3StatusPending, ev_S3Key := S3ObjectKey event\<rparr>
           else event\<lparr>ev_S3Status := S3StatusNone\<rparr>)"

text \<open>The result says whether a flush is started; the handler never returns an error.\<close>

definition handleMessage :: "gotime \<Rightarrow> worker \<Rightarrow> LLMEvent \<Rightarrow> nat \<Rightarrow> worker \<times> bool" where
  "handleMessage now w pbEvent ack =
     (let event = priced_event (wk_prices w) pbEvent in
      (case Add_event (wk_batch w) now event ack of (bw, flush) \<Rightarrow>
        (w\<lparr>wk_batch := bw,
           wk_uploadCh := (if HasText event then Enqueue (wk_uploadCh w) event else wk_uploadCh w)\<rparr>,
         flush)))"

text \<open>
  The body of the fetch loop of \<open>EventConsumer.Start\<close>: a message that does not decode is
  negatively acknowledged, any other is handled. The result lists the former and counts the
  flushes that were started.
\<close>

fun consume_loop ::
    "(string \<Rightarrow> f64 option) \<Rightarrow> gotime \<Rightarrow> worker \<Rightarrow> (nat \<times> string) list \<Rightarrow> worker \<times> nat list \<times> nat" where
  "consume_loop pf now w [] = (w, [], 0)"
| "consume_loop pf now w ((n, data) # msgs) =
     (case Unmarshal pf data of
        None \<Rightarrow> (case consume_loop pf now w msgs of (w', naks, k) \<Rightarrow> (w', n # naks, k))
      | Some e \<Rightarrow>
          (case handleMessage now w e n of (w1, flush) \<Rightarrow>
             (case consume_loop pf now w1 msgs of (w', naks, k) \<Rightarrow>
               (w', naks, if flush then k + 1 else k))))"

section \<open>From the request to the buffer\<close>

lemma CalculateCost_event:
  assumes "CalculateCost c e = (e', cost)"
  shows "e' = e \<or> e' = warn_unknown e"
  using assms by (auto simp: CalculateCost_def Let_def split: option.splits)

lemma warn_unknown_simps [simp]:
  "ev_OrgID (warn_unknown e) = ev_OrgID e" "ev_EventID (warn_unknown e) = ev_EventID e"
  "ev_Timestamp (warn_unknown e) = ev_Timestamp e" "ev_Model (warn_unknown e) = ev_Model e"
  "ev_Provider (warn_unknown e) = ev_Provider e" "ev_Prompt (warn_unknown e) = ev_Prompt e"
  "ev_PromptTokens (warn_unknown e) = ev_PromptTokens e" "ev_Response (warn_unknown e) = ev_Response e"
  "ev_CompletionTokens (warn_unknown e) = ev_CompletionTokens e"
  "ev_LatencyMs (warn_unknown e) = ev_LatencyMs e" "ev_StatusCode (warn_unknown e) = ev_StatusCode e"
  "ev_ProjectID (warn_unknown e) = ev_ProjectID e" "ev_PromptHash (warn_unknown e) = ev_PromptHash e"
  by (simp_all add: warn_unknown_def)

lemma priced_event_fields:
  "ev_OrgID (priced_event c pb) = pb_OrgId pb" "ev_EventID (priced_event c pb) = pb_EventId pb"
  "ev_Model (priced_event c pb) = pb_Model pb" "ev_Provider (priced_event c pb) = pb_Provider pb"
  "ev_PromptTokens (priced_event c pb) = pb_PromptTokens pb"
  "ev_CompletionTokens (priced_event c pb) = pb_CompletionTokens pb"
  "ev_TotalTokens (priced_event c pb) = pb_PromptTokens pb + pb_CompletionTokens pb"
  "ev_LatencyMs (priced_event c pb) = pb_LatencyMs pb"
  "ev_StatusCode (priced_event c pb) = pb_StatusCode pb"
  "ev_Prompt (priced_event c pb) = pb_Prompt pb" "ev_Response (priced_event c pb) = pb_Response pb"
  "ev_Timestamp (priced_event c pb) = ev_Timestamp (protoToEvent pb)"
  "ev_CostUSD (priced_event c pb) = snd (CalculateCost c (protoToEvent pb))"
  "ev_S3Status (priced_event c pb)
     = (if pb_Prompt pb \<noteq> [] \<or> pb_Response pb \<noteq> [] then S3StatusPending else S3StatusNone)"
proof -
  obtain e cost where r: "CalculateCost c (protoToEvent pb) = (e, cost)" by fastforce
  from CalculateCost_event [OF r] r show
    "ev_OrgID (priced_event c pb) = pb_OrgId pb" "ev_EventID (priced_event c pb) = pb_EventId pb"
    "ev_Model (priced_event c pb) = pb_Model pb" "ev_Provider (priced_event c pb) = pb_Provider pb"
    "ev_PromptTokens (priced_event c pb) = pb_PromptTokens pb"
    "ev_CompletionTokens (priced_event c pb) = pb_CompletionTokens pb"
    "ev_TotalTokens (priced_event c pb) = pb_PromptTokens pb + pb_CompletionTokens pb"
    "ev_LatencyMs (priced_event c pb) = pb_LatencyMs pb"
    "ev_StatusCode (priced_event c pb) = pb_StatusCode pb"
    "ev_Prompt (priced_event c pb) = pb_Prompt pb" "ev_Response (priced_event c pb) = pb_Response pb"
    "ev_Timestamp (priced_event c pb) = ev_Timestamp (protoToEvent pb)"
    "ev_CostUSD (priced_event c pb) = snd (CalculateCost c (protoToEvent pb))"
    "ev_S3Status (priced_event c pb)
       = (if pb_Prompt pb \<noteq> [] \<or> pb_Response pb \<noteq> [] then S3StatusPending else S3StatusNone)"
    by (auto simp: priced_event_def Let_def HasText_def protoToEvent_def)
qed

lemma Add_event_buffer:
  "bw_buffer (fst (Add_event bw now e n)) = bw_buffer bw @ [e]"
  "bw_ackFuncs (fst (Add_event bw now e n)) = bw_ackFuncs bw @ [n]"
  by (simp_all add: Add_event_def Let_def)

lemma handleMessage_state:
  "bw_buffer (wk_batch (fst (handleMessage now w pb ack))) = bw_buffer (wk_batch w) @ [priced_event (wk_prices w) pb]"
  "bw_ackFuncs (wk_batch (fst (handleMessage now w pb ack))) = bw_ackFuncs (wk_batch w) @ [ack]"
  "wk_prices (fst (handleMessage now w pb ack)) = wk_prices w"
  by (simp_all add: handleMessage_def Let_def case_prod_unfold Add_event_buffer)

lemma truncate_length: "length (case truncate_text n p of None \<Rightarrow> [] | Some s \<Rightarrow> s) \<le> n"
  by (auto simp: truncate_text_def split: option.split)

lemma ValidateEvent_request:
  "er_IdempotencyKey (snd (ValidateEvent now req)) = er_IdempotencyKey req"
  "er_Timestamp (snd (ValidateEvent now req)) = er_Timestamp req"
  "er_Model (snd (ValidateEvent now req)) = er_Model req"
  "er_PromptTokens (snd (ValidateEvent now req)) = er_PromptTokens req"
  "er_CompletionTokens (snd (ValidateEvent now req)) = er_CompletionTokens req"
  "er_Prompt (snd (ValidateEvent now req)) = truncate_text maxPromptBytes (er_Prompt req)"
  "er_Response (snd (ValidateEvent now req)) = truncate_text maxResponseBytes (er_Response req)"
  by (simp_all add: ValidateEvent_def Let_def)

lemma proto_time: "t_ns (ev_Timestamp (protoToEvent pb)) = t_ns (pb_Timestamp pb)"
  by (simp add: protoToEvent_def IsZero_def)

text \<open>
  C8: A request that the ingestion API queues for an organisation is decoded from its bytes and reaches
  the worker's buffer as one event of that organisation with the request's id, model, instant and token
  counts, the total modulo \<open>2 ^ 32\<close>, the cost of the price cache, and a pending object store status exactly
  when there is a text; its message is acknowledged with it. Texts are those of the request, cut to 100 KiB
  and with three bytes for every byte that is not UTF-8, so of at most 300 KiB.
\<close>

theorem request_reaches_buffer:
  assumes x: "x = buildProtoEvent now org (snd (ValidateEvent now req))"
    and "Marshal fmt x = Some data" and "number_ok (fmt 0)" and "pf (fmt 0) = Some 0"
  shows "case consume_loop pf now' w [(ack, data)] of (w', naks, _) \<Rightarrow> naks = [] \<and>
     (\<exists>e. bw_buffer (wk_batch w') = bw_buffer (wk_batch w) @ [e]
       \<and> bw_ackFuncs (wk_batch w') = bw_ackFuncs (wk_batch w) @ [ack]
       \<and> ev_OrgID e = org \<and> ev_EventID e = to_valid (er_IdempotencyKey req) \<and> ev_Model e = to_valid (er_Model req)
       \<and> t_ns (ev_Timestamp e) = (case parse_RFC3339Nano (er_Timestamp req) of
             None \<Rightarrow> t_ns zero_time | Some t \<Rightarrow> t_ns t)
       \<and> ev_PromptTokens e = deref (er_PromptTokens req)
       \<and> ev_CompletionTokens e = deref (er_CompletionTokens req)
       \<and> unat (ev_TotalTokens e)
           = (unat (ev_PromptTokens e) + unat (ev_CompletionTokens e)) mod 2 ^ 32
       \<and> ev_Prompt e = to_valid (pb_Prompt x) \<and> ev_Response e = to_valid (pb_Response x)
       \<and> length (ev_Prompt e) \<le> 307200 \<and> length (ev_Response e) \<le> 307200
       \<and> ev_CostUSD e = snd (CalculateCost (wk_prices w) (protoToEvent (received x)))
       \<and> ev_S3Status e = (if HasText e then S3StatusPending else S3StatusNone))"
proof -
  have pb: "pb_OrgId x = org" "pb_EventId x = er_IdempotencyKey req" "pb_Model x = er_Model req"
    "pb_PromptTokens x = deref (er_PromptTokens req)"
    "pb_CompletionTokens x = deref (er_CompletionTokens req)"
    "pb_Timestamp x = (case parse_RFC3339Nano (er_Timestamp req) of None \<Rightarrow> zero_time | Some t \<Rightarrow> t)"
    "length (pb_Prompt x) \<le> 102400" "length (pb_Response x) \<le> 102400"
    using truncate_length [of maxPromptBytes "er_Prompt req"] truncate_length [of maxResponseBytes "er_Response req"]
    by (simp_all add: x buildProtoEvent_def ValidateEvent_request maxPromptBytes_def maxResponseBytes_def)
  have l: "length (to_valid (pb_Prompt x)) \<le> 307200" "length (to_valid (pb_Response x)) \<le> 307200"
    using to_valid_length [of "pb_Prompt x"] to_valid_length [of "pb_Response x"] pb(7,8) by linarith+
  have u: "Unmarshal pf data = Some (received x)"
    by (rule wire_read [OF _ assms(2)]) (use assms Marshal_defined [of fmt x] built_wire_ok in auto)
  have r: "pb_OrgId (received x) = pb_OrgId x" "pb_EventId (received x) = to_valid (pb_EventId x)"
    "pb_Model (received x) = to_valid (pb_Model x)" "pb_PromptTokens (received x) = pb_PromptTokens x"
    "pb_CompletionTokens (received x) = pb_CompletionTokens x" "pb_Timestamp (received x) = pb_Timestamp x"
    "pb_Prompt (received x) = to_valid (pb_Prompt x)" "pb_Response (received x) = to_valid (pb_Response x)"
    by (simp_all add: received_def)
  show ?thesis
    by (cases "handleMessage now' w (received x) ack",
        insert handleMessage_state [of now' w "received x" ack])
      (auto simp: u priced_event_fields proto_time r pb l HasText_def unat_word_ariths split: option.split)
qed

theorem request_reaches_buffer_witness:
  "\<exists>data w' k. Marshal zero_fmt (buildProtoEvent sample_now 7 (snd (ValidateEvent sample_now sample_event))) = Some data
     \<and> consume_loop zero_parse sample_now \<lparr>wk_batch = NewBatchWriter 0 0, wk_prices = NewPriceCache, wk_uploadCh = []\<rparr>
          [(3, data)] = (w', [], k)
     \<and> map ev_OrgID (bw_buffer (wk_batch w')) = [7] \<and> bw_ackFuncs (wk_batch w') = [3]"
proof -
  let ?x = "buildProtoEvent sample_now 7 (snd (ValidateEvent sample_now sample_event))"
  let ?w = "\<lparr>wk_batch = NewBatchWriter 0 0, wk_prices = NewPriceCache, wk_uploadCh = []\<rparr>"
  have "marshals ?x" by (rule sample_built_marshals) simp
  then obtain data where d: "Marshal zero_fmt ?x = Some data" using Marshal_defined by blast
  have b: "bw_buffer (wk_batch ?w) = []" "bw_ackFuncs (wk_batch ?w) = []"
    by (simp_all add: NewBatchWriter_def Let_def)
  obtain w' naks k where c: "consume_loop zero_parse sample_now ?w [(3, data)] = (w', naks, k)"
    by (cases "consume_loop zero_parse sample_now ?w [(3, data)]") auto
  from request_reaches_buffer [where fmt = zero_fmt and pf = zero_parse, OF refl d zero_written(1) zero_written(2), where now' = sample_now and w = ?w and ack = 3] d c b
  show ?thesis by auto
qed

section \<open>Texts in the object store\<close>

lemma uploadEvent_objects:
  assumes "uploadEvent Upload now st e = (st', Inr u)"
  shows "s3_objects (fst st') (S3ObjectKey e) = Some (payload_of e)"
    "k \<noteq> S3ObjectKey e \<Longrightarrow> s3_objects (fst st') k = s3_objects (fst st) k"
proof -
  obtain s r where p: "Upload (fst st) (S3ObjectKey e) (payload_of e) = (s, r)" by fastforce
  with assms have r: "r = Inr ()" "fst st' = s"
    by (auto simp: uploadEvent_def Let_def split: sum.splits)
  show "s3_objects (fst st') (S3ObjectKey e) = Some (payload_of e)"
    using s3.upload_ok p r by blast
  show "k \<noteq> S3ObjectKey e \<Longrightarrow> s3_objects (fst st') k = s3_objects (fst st) k"
    using s3.upload_other [of k "S3ObjectKey e" "fst st" "payload_of e"] p r by simp
qed

lemma S3ObjectKey_org: "S3ObjectKey e = S3ObjectKey e' \<Longrightarrow> ev_OrgID e = ev_OrgID e'"
  by (auto simp: S3ObjectKey_def Let_def append_sep_inject format_sep)

text \<open>
  A successful upload stores the event's own prompt and response under its key, and leaves
  the objects of the events of every other organisation as they are, whatever their ids.
\<close>

lemma uploadEvent_keeps_other_orgs:
  assumes "uploadEvent Upload now st e = (st', Inr u)" and "ev_OrgID e' \<noteq> ev_OrgID e"
  shows "s3_objects (fst st') (S3ObjectKey e) = Some (payload_of e)
       \<and> s3_objects (fst st') (S3ObjectKey e') = s3_objects (fst st) (S3ObjectKey e')"
  using uploadEvent_objects [OF assms(1)] S3ObjectKey_org [of e' e] assms(2) by blast

definition empty_bucket :: s3store where
  "empty_bucket = \<lparr>s3_objects = Map.empty, s3_puts = 0, s3_fails = \<lambda>_. False\<rparr>"

text \<open>
  The status of an upload is recorded by event id alone. When the first stored row with that
  id belongs to another organisation, that organisation's event gets a new version that points
  to the text of the uploaded event.
\<close>

lemma uploadEvent_crosses_tenants:
  assumes "uploadEvent Upload now st e = (st', Inr u)" and "\<not> ch_fails (snd st) (ch_stmts (snd st))"
    and "filter (\<lambda>r. cr_event_id r = ev_EventID e) (ch_events (snd st)) = r # rest"
  shows "\<exists>r'. ch_events (snd st') = ch_events (snd st) @ [r'] \<and> cr_org_id r' = cr_org_id r
           \<and> cr_event_id r' = cr_event_id r \<and> cr_s3_status r' = S3StatusUploaded
           \<and> cr_s3_key r' = S3ObjectKey e"
proof -
  have "snd st' = fst (UpdateS3Status now (snd st) (ev_EventID e) S3StatusUploaded (S3ObjectKey e))"
    using assms(1) by (auto simp: uploadEvent_def Let_def split: prod.splits sum.splits)
  then show ?thesis by (simp add: UpdateS3Status_row [OF assms(3,2)] insert_block_def)
qed

text \<open>The reconciler uploads what the table holds, and the table holds no texts.\<close>

definition blank_object :: "(string \<rightharpoonup> s3Payload) \<Rightarrow> string \<Rightarrow> bool" where
  "blank_object objs k \<longleftrightarrow> (\<exists>p. objs k = Some p \<and> sp_Prompt p = [] \<and> sp_Response p = [])"

lemma upload_all_erases:
  assumes "\<forall>n. \<not> s3_fails (fst st) n" and "\<forall>e \<in> set es. ev_Prompt e = [] \<and> ev_Response e = []"
  shows "(\<forall>e \<in> set es. blank_object (s3_objects (fst (upload_all Upload now st es))) (S3ObjectKey e))
       \<and> (\<forall>k. blank_object (s3_objects (fst st)) k \<longrightarrow>
              blank_object (s3_objects (fst (upload_all Upload now st es))) k)"
  using assms
proof (induction es arbitrary: st)
  case (Cons e es)
  let ?st = "fst (uploadEvent Upload now st e)"
  have ok: "uploadEvent Upload now st e = (?st, Inr ())" and f: "\<forall>n. \<not> s3_fails (fst ?st) n"
    using Cons.prems(1) by (simp_all add: uploadEvent_def Upload_def Let_def)
  have o1: "s3_objects (fst ?st) = (s3_objects (fst st))(S3ObjectKey e \<mapsto> payload_of e)"
    using uploadEvent_objects [OF ok] by (auto simp: fun_eq_iff)
  then have "blank_object (s3_objects (fst ?st)) (S3ObjectKey e)"
    "blank_object (s3_objects (fst st)) k \<Longrightarrow> blank_object (s3_objects (fst ?st)) k" for k
    using Cons.prems(2) by (auto simp: blank_object_def payload_of_def)
  moreover have "\<forall>e \<in> set es. ev_Prompt e = [] \<and> ev_Response e = []" using Cons.prems(2) by simp
  ultimately show ?case using Cons.IH [OF f] by auto
qed simp

text \<open>
  C40: A reconciliation replaces the stored text of every event that it finds pending by an empty
  one, even when the worker had uploaded the text.
\<close>

theorem reconcile_erases_texts:
  assumes "\<forall>n. \<not> s3_fails (fst st) n" and "\<not> ch_fails (snd st) (ch_stmts (snd st))"
    and "r \<in> set (take 100 (filter (\<lambda>r. cr_s3_status r = S3StatusPending) (ch_events (snd st))))"
  shows "\<exists>p. s3_objects (fst (reconcile Upload now st)) (S3ObjectKey (row_to_event r)) = Some p
           \<and> sp_Prompt p = [] \<and> sp_Response p = []"
proof -
  let ?rs = "take 100 (filter (\<lambda>r. cr_s3_status r = S3StatusPending) (ch_events (snd st)))"
  let ?ch = "(snd st)\<lparr>ch_stmts := ch_stmts (snd st) + 1\<rparr>"
  have "reconcile Upload now st = upload_all Upload now (fst st, ?ch) (map row_to_event ?rs)"
    using assms(2,3) by (auto simp: reconcile_def GetPendingS3Events_def ch_query_def ch_exec_def Let_def)
  moreover have "\<forall>e \<in> set (map row_to_event ?rs). ev_Prompt e = [] \<and> ev_Response e = []"
    by (simp add: row_to_event_def)
  ultimately show ?thesis
    using upload_all_erases [of "(fst st, ?ch)" "map row_to_event ?rs" now] assms(1,3)
    unfolding blank_object_def by auto
qed

theorem reconcile_erases_texts_witness:
  "ev_Prompt sample_llm_event \<noteq> []
   \<and> (\<exists>p. s3_objects (fst (reconcile Upload zero_time (empty_bucket, filled_store)))
            (S3ObjectKey (row_to_event sample_row)) = Some p \<and> sp_Prompt p = [] \<and> sp_Response p = [])"
proof
  show "ev_Prompt sample_llm_event \<noteq> []" by (simp add: sample_llm_event_def)
  have "cr_s3_status sample_row = S3StatusPending"
    by (simp add: sample_row_def event_to_row_def Let_def sample_llm_event_def S3StatusPending_def)
  then show "\<exists>p. s3_objects (fst (reconcile Upload zero_time (empty_bucket, filled_store)))
            (S3ObjectKey (row_to_event sample_row)) = Some p \<and> sp_Prompt p = [] \<and> sp_Response p = []"
    by (intro reconcile_erases_texts) (simp_all add: empty_bucket_def filled_store_facts)
qed

end
