(* ===== verification/Pipeline.thy ===== *)
theory Pipeline
  imports Worker Wire
begin

text \<open>
  From the queue to the tables: the publisher, the stream and consumer of \<open>nats/setup.go\<close>, the
  worker and its stores as one system, in which publications, deliveries, flushes, uploads and
  crashes of the worker come in any order. What the broker (NATS JetStream) delivers, and when, is
  the parameter \<open>deliver\<close>; what the code relies on of it is a named hypothesis of the theorems.
\<close>

section \<open>setup.go\<close>

datatype retention_policy = LimitsPolicy | InterestPolicy | WorkQueuePolicy
datatype storage_type = FileStorage | MemoryStorage
datatype discard_policy = DiscardOld | DiscardNew
datatype ack_policy = AckExplicitPolicy | AckAllPolicy | AckNonePolicy

record stream_config =
  str_Name :: string
  str_Subjects :: "string list"
  str_Storage :: storage_type
  str_Retention :: retention_policy
  str_MaxAge :: int
  str_MaxBytes :: int
  str_Replicas :: int
  str_Discard :: discard_policy
  str_Duplicates :: int
  str_Description :: string

definition EnsureStream_cfg :: stream_config where
  "EnsureStream_cfg =
     \<lparr>str_Name = StreamName, str_Subjects = [SubjectPrefix @ ''>''], str_Storage = FileStorage,
      str_Retention = WorkQueuePolicy, str_MaxAge = 72 * hour, str_MaxBytes = 2 ^ 30, str_Replicas = 1,
      str_Discard = DiscardOld, str_Duplicates = 10 * minute,
      str_Description = ''LLM event ingestion stream''\<rparr>"

definition EnsureDLQStream_cfg :: stream_config where
  "EnsureDLQStream_cfg =
     \<lparr>str_Name = DLQStreamName, str_Subjects = [''events_dlq.>''], str_Storage = FileStorage,
      str_Retention = LimitsPolicy, str_MaxAge = 7 * 24 * hour, str_MaxBytes = 100 * 2 ^ 20, str_Replicas = 1,
      str_Discard = DiscardOld, str_Duplicates = 0,
      str_Description = ''Dead letter queue for failed event processing''\<rparr>"

record consumer_config =
  cc_Name :: string
  cc_Durable :: string
  cc_AckPolicy :: ack_policy
  cc_AckWait :: int
  cc_MaxDeliver :: nat
  cc_MaxAckPending :: nat
  cc_FilterSubject :: string

definition EnsureConsumer_cfg :: consumer_config where
  "EnsureConsumer_cfg =
     \<lparr>cc_Name = ConsumerName, cc_Durable = ConsumerName, cc_AckPolicy = AckExplicitPolicy,
      cc_AckWait = 30 * second, cc_MaxDeliver = 5, cc_MaxAckPending = 1000,
      cc_FilterSubject = SubjectPrefix @ ''>''\<rparr>"

section \<open>The system\<close>

text \<open>
  A message is its index in the log of the stream. The state has the deliveries and the
  acknowledgements so far, the worker, the batches that are being inserted, and the stores.
\<close>

record pipeline =
  pl_js :: jetstream
  pl_delivered :: "nat list"
  pl_acked :: "nat list"
  pl_worker :: worker
  pl_flushing :: "(Event list \<times> nat list) list"
  pl_store :: "s3store \<times> clickhouse"

text \<open>The event that was published under a sequence number, and what the worker decodes from its bytes.\<close>

definition published :: "jetstream \<Rightarrow> nat \<Rightarrow> LLMEvent" where
  "published js n = fst (snd (js_log js ! n))"

definition payload :: "jetstream \<Rightarrow> nat \<Rightarrow> LLMEvent" where
  "payload js n = received (published js n)"

definition msg_id :: "jetstream \<Rightarrow> nat \<Rightarrow> string" where
  "msg_id js n = snd (snd (js_log js ! n))"

definition new_worker :: "BatchWriter \<Rightarrow> worker" where
  "new_worker bw = \<lparr>wk_batch = bw, wk_prices = NewPriceCache, wk_uploadCh = []\<rparr>"

definition pipe_start :: "jetstream \<Rightarrow> BatchWriter \<Rightarrow> s3store \<times> clickhouse \<Rightarrow> pipeline" where
  "pipe_start js bw st =
     \<lparr>pl_js = js, pl_delivered = [], pl_acked = [], pl_worker = new_worker bw, pl_flushing = [],
      pl_store = st\<rparr>"

text \<open>
  The steps. After a successful insertion some of the acknowledgements may fail, or the worker may
  crash before it has sent them: \<open>sent\<close> says which arrive. A worker that crashes or stops is
  replaced by a new one with the same configuration.
\<close>

inductive pipe_step ::
    "(pipeline \<Rightarrow> nat \<Rightarrow> bool) \<Rightarrow> (string \<Rightarrow> string option) \<Rightarrow> BatchWriter \<Rightarrow> pipeline \<Rightarrow> pipeline \<Rightarrow> bool"
  for deliver parse bw0 where
  publish: "pipe_step deliver parse bw0 s (s\<lparr>pl_js := fst (Publish (pl_js s) orgID event)\<rparr>)"
| deliver: "n < length (js_log (pl_js s)) \<Longrightarrow> deliver s n \<Longrightarrow>
     pipe_step deliver parse bw0 s
       (s\<lparr>pl_delivered := pl_delivered s @ [n],
          pl_worker := fst (handleMessage now (pl_worker s) (payload (pl_js s) n) n)\<rparr>)"
| refresh: "pipe_step deliver parse bw0 s
     (s\<lparr>pl_worker := (pl_worker s)\<lparr>wk_prices := fst (refresh allPrices (wk_prices (pl_worker s)))\<rparr>\<rparr>)"
| flush_begin: "Flush_begin (wk_batch (pl_worker s)) = Some (bw, events, acks) \<Longrightarrow>
     pipe_step deliver parse bw0 s
       (s\<lparr>pl_worker := (pl_worker s)\<lparr>wk_batch := bw\<rparr>, pl_flushing := pl_flushing s @ [(events, acks)]\<rparr>)"
| flush_fail: "pl_flushing s = xs @ (events, acks) # ys \<Longrightarrow>
     InsertEvents parse now (snd (pl_store s)) events = (ch, Inl err) \<Longrightarrow>
     pipe_step deliver parse bw0 s
       (s\<lparr>pl_worker := (pl_worker s)\<lparr>wk_batch := fst (Flush_end (wk_batch (pl_worker s)) events acks False)\<rparr>,
          pl_flushing := xs @ ys, pl_store := (fst (pl_store s), ch),
          pl_acked := pl_acked s @ filter sent (snd (Flush_end (wk_batch (pl_worker s)) events acks False))\<rparr>)"
| flush_ok: "pl_flushing s = xs @ (events, acks) # ys \<Longrightarrow>
     InsertEvents parse now (snd (pl_store s)) events = (ch, Inr u) \<Longrightarrow>
     pipe_step deliver parse bw0 s
       (s\<lparr>pl_worker := (pl_worker s)\<lparr>wk_batch := fst (Flush_end (wk_batch (pl_worker s)) events acks True)\<rparr>,
          pl_flushing := xs @ ys, pl_store := (fst (pl_store s), ch),
          pl_acked := pl_acked s @ filter sent (snd (Flush_end (wk_batch (pl_worker s)) events acks True))\<rparr>)"
| upload: "processUpload Upload now (pl_store s) (wk_uploadCh (pl_worker s)) = (st, uploadCh) \<Longrightarrow>
     pipe_step deliver parse bw0 s
       (s\<lparr>pl_store := st, pl_worker := (pl_worker s)\<lparr>wk_uploadCh := uploadCh\<rparr>\<rparr>)"
| reconcile: "pipe_step deliver parse bw0 s (s\<lparr>pl_store := reconcile Upload now (pl_store s)\<rparr>)"
| crash: "pipe_step deliver parse bw0 s (s\<lparr>pl_worker := new_worker bw0, pl_flushing := []\<rparr>)"

inductive_cases pipe_stepE: "pipe_step deliver parse bw0 s s'"

section \<open>The queue and the table only grow\<close>

lemma payload_publish:
  assumes "n < length (js_log js)"
  shows "n < length (js_log (fst (Publish js org e)))" "payload (fst (Publish js org e)) n = payload js n"
    "msg_id (fst (Publish js org e)) n = msg_id js n"
  using assms by (simp_all add: Publish_def js_Publish_def Let_def payload_def published_def msg_id_def nth_append split: if_splits)

definition table_grows :: "clickhouse \<Rightarrow> clickhouse \<Rightarrow> bool" where
  "table_grows a b \<longleftrightarrow> (\<exists>block. ch_events b = ch_events a @ block
     \<and> (\<forall>r \<in> set block. \<exists>r' \<in> set (ch_events a). cr_org_id r = cr_org_id r' \<and> cr_event_id r = cr_event_id r'))"

lemma table_growsI:
  assumes "ch_events b = ch_events a @ block"
    and "\<And>r. r \<in> set block \<Longrightarrow> \<exists>r' \<in> set (ch_events a). cr_org_id r = cr_org_id r' \<and> cr_event_id r = cr_event_id r'"
  shows "table_grows a b"
  using assms unfolding table_grows_def by blast

lemma table_grows_refl [simp]: "ch_events a = ch_events b \<Longrightarrow> table_grows a b"
  by (simp add: table_grows_def)

lemma table_grows_trans:
  assumes "table_grows a b" "table_grows b c"
  shows "table_grows a c"
proof -
  from assms obtain x y where x: "ch_events b = ch_events a @ x" "ch_events c = ch_events b @ y"
    "\<forall>r \<in> set x. \<exists>r' \<in> set (ch_events a). cr_org_id r = cr_org_id r' \<and> cr_event_id r = cr_event_id r'"
    "\<forall>r \<in> set y. \<exists>r' \<in> set (ch_events b). cr_org_id r = cr_org_id r' \<and> cr_event_id r = cr_event_id r'"
    unfolding table_grows_def by blast
  show ?thesis
  proof (rule table_growsI)
    show "ch_events c = ch_events a @ (x @ y)" using x by simp
    fix r assume "r \<in> set (x @ y)"
    then show "\<exists>r' \<in> set (ch_events a). cr_org_id r = cr_org_id r' \<and> cr_event_id r = cr_event_id r'"
      using x by fastforce
  qed
qed

lemma table_grows_update: "table_grows st (fst (UpdateS3Status now st i status key))"
proof (cases "ch_fails st (ch_stmts st)")
  case False
  let ?f = "\<lambda>r. r\<lparr>cr_inserted_at := DateTime64_3 now, cr_s3_key := key, cr_s3_status := status\<rparr>"
  let ?rs = "take 1 (filter (\<lambda>r. cr_event_id r = i) (ch_events st))"
  show ?thesis
  proof (rule table_growsI)
    show "ch_events (fst (UpdateS3Status now st i status key)) = ch_events st @ map ?f ?rs"
      using False by (simp add: UpdateS3Status_def ch_exec_def insert_block_def Let_def)
    have "set ?rs \<subseteq> set (ch_events st)" by (meson filter_is_subset set_take_subset subset_trans)
    then show "\<exists>r' \<in> set (ch_events st). cr_org_id r = cr_org_id r' \<and> cr_event_id r = cr_event_id r'"
      if "r \<in> set (map ?f ?rs)" for r
      using that by force
  qed
qed (simp add: UpdateS3Status_def ch_exec_def Let_def)

lemma table_grows_upload: "table_grows (snd st) (snd (fst (uploadEvent Upload now st e)))"
  by (simp add: uploadEvent_def Let_def table_grows_update split: prod.split sum.split)

lemma table_grows_uploads: "table_grows (snd st) (snd (upload_all Upload now st es))"
proof (induction es arbitrary: st)
  case (Cons e es)
  show ?case using table_grows_trans [OF table_grows_upload Cons] by simp
qed simp

lemma table_grows_processUpload:
  "processUpload Upload now st uploadCh = (st', ch') \<Longrightarrow> table_grows (snd st) (snd st')"
  by (auto simp: processUpload_def table_grows_upload split: list.splits)

lemma table_grows_reconcile: "table_grows (snd st) (snd (reconcile Upload now st))"
proof (cases "GetPendingS3Events (snd st) 100")
  case (Pair ch r)
  then have "ch_events ch = ch_events (snd st)"
    by (auto simp: GetPendingS3Events_def ch_query_def ch_exec_def Let_def split: if_splits)
  then have g: "table_grows (snd st) (snd (fst st, ch))" by simp
  show ?thesis
    by (cases r) (auto simp: reconcile_def Pair \<open>ch_events ch = _\<close>
        intro: table_grows_trans [OF g table_grows_uploads [of "(fst st, ch)"], simplified])
qed

lemma table_grows_rows: "table_grows a b \<Longrightarrow> table_rows a \<subseteq># table_rows b"
  by (auto simp: table_grows_def table_rows_def)

section \<open>What is acknowledged is stored\<close>

text \<open>The messages in memory; an event that comes from message \<open>n\<close>; the rows of a message.\<close>

definition in_memory :: "pipeline \<Rightarrow> (nat \<times> Event) multiset" where
  "in_memory s = in_writer (wk_batch (pl_worker s)) + in_flight (pl_flushing s)"

definition of_message :: "jetstream \<Rightarrow> nat \<Rightarrow> Event \<Rightarrow> bool" where
  "of_message js n e \<longleftrightarrow> n < length (js_log js) \<and> (\<exists>prices. e = priced_event prices (payload js n))"

definition loaded :: "jetstream \<Rightarrow> nat list \<Rightarrow> nat \<times> Event \<Rightarrow> bool" where
  "loaded js delivered x \<longleftrightarrow> of_message js (fst x) (snd x) \<and> fst x \<in> set delivered"

definition finished ::
    "(string \<Rightarrow> string option) \<Rightarrow> jetstream \<Rightarrow> nat list \<Rightarrow> clickhouse \<Rightarrow> nat \<Rightarrow> bool" where
  "finished parse js delivered ch n \<longleftrightarrow>
     (\<exists>e. loaded js delivered (n, e) \<and> event_content parse e \<in># table_rows ch)"

definition pipe_inv :: "(string \<Rightarrow> string option) \<Rightarrow> pipeline \<Rightarrow> bool" where
  "pipe_inv parse s \<longleftrightarrow>
     writer_ok (wk_batch (pl_worker s)) \<and> flights_ok (pl_flushing s)
     \<and> (\<forall>x \<in># in_memory s. loaded (pl_js s) (pl_delivered s) x)
     \<and> (\<forall>n \<in> set (pl_acked s). finished parse (pl_js s) (pl_delivered s) (snd (pl_store s)) n)"

lemma loaded_mono:
  "loaded js ds x \<Longrightarrow> loaded (fst (Publish js org ev)) ds x" "loaded js ds x \<Longrightarrow> loaded js (ds @ [n]) x"
  by (auto simp: loaded_def of_message_def payload_publish)

lemma finished_mono:
  "finished parse js ds ch n \<Longrightarrow> finished parse (fst (Publish js org ev)) ds ch n"
  "finished parse js ds ch n \<Longrightarrow> finished parse js (ds @ [m]) ch n"
  "finished parse js ds ch n \<Longrightarrow> table_rows ch \<subseteq># table_rows ch' \<Longrightarrow> finished parse js ds ch' n"
  unfolding finished_def by (blast intro: loaded_mono mset_subset_eqD)+

lemma handleMessage_batch:
  "wk_batch (fst (handleMessage now w pb n)) = fst (Add_event (wk_batch w) now (priced_event (wk_prices w) pb) n)"
  by (simp add: handleMessage_def Let_def case_prod_unfold)

lemma pipe_step_inv:
  assumes "pipe_step deliver parse bw0 s s'" "pipe_inv parse s" "writer_ok bw0" "in_writer bw0 = {#}"
  shows "pipe_inv parse s'"
  using assms
proof (induction rule: pipe_step.induct)
  case (publish s orgID event)
  then show ?case by (simp add: pipe_inv_def in_memory_def loaded_mono finished_mono)
next
  case (deliver n s now)
  have "loaded (pl_js s) (pl_delivered s @ [n]) (n, priced_event (wk_prices (pl_worker s)) (payload (pl_js s) n))"
    using deliver.hyps(1) by (auto simp: loaded_def of_message_def)
  with deliver show ?case
    by (auto simp: pipe_inv_def in_memory_def handleMessage_batch Add_event_ok loaded_mono finished_mono)
next
  case (refresh s allPrices)
  then show ?case by (simp add: pipe_inv_def in_memory_def)
next
  case (flush_begin s bw events acks)
  then have "writer_ok (wk_batch (pl_worker s))" by (simp add: pipe_inv_def)
  note b = Flush_begin_ok [OF flush_begin.hyps this]
  from flush_begin.prems(1) show ?case by (auto simp: pipe_inv_def in_memory_def b)
next
  case (flush_fail s xs events acks ys now ch err sent)
  then have l: "length acks = length events" "writer_ok (wk_batch (pl_worker s))" by (simp_all add: pipe_inv_def)
  have g: "table_rows (snd (pl_store s)) \<subseteq># table_rows ch"
    using InsertEvents_rows(2) [OF flush_fail.hyps(2)] by auto
  from flush_fail.prems(1) flush_fail.hyps(1) show ?case
    by (auto simp: pipe_inv_def in_memory_def Flush_end_ok l intro: finished_mono(3) [OF _ g])
next
  case (flush_ok s xs events acks ys now ch u sent)
  then have l: "length acks = length events" "writer_ok (wk_batch (pl_worker s))" by (simp_all add: pipe_inv_def)
  have r: "table_rows ch = table_rows (snd (pl_store s)) + mset (map (event_content parse) events)"
    by (rule InsertEvents_rows(1) [OF flush_ok.hyps(2)])
  then have g: "table_rows (snd (pl_store s)) \<subseteq># table_rows ch" by simp
  have a: "finished parse (pl_js s) (pl_delivered s) ch n" if n: "n \<in> set acks" for n
  proof -
    from n l(1) obtain e where e: "(n, e) \<in> set (zip acks events)" by (metis in_set_impl_in_set_zip1)
    then have "(n, e) \<in># in_memory s" using flush_ok.hyps(1) by (simp add: in_memory_def)
    then have "loaded (pl_js s) (pl_delivered s) (n, e)" using flush_ok.prems(1) by (simp add: pipe_inv_def)
    then show ?thesis using r set_zip_rightD [OF e] by (auto simp: finished_def)
  qed
  from flush_ok.prems(1) flush_ok.hyps(1) show ?case
    by (auto simp: pipe_inv_def in_memory_def Flush_end_ok l a intro: finished_mono(3) [OF _ g])
next
  case (upload now s st uploadCh)
  note g = table_grows_rows [OF table_grows_processUpload [OF upload.hyps]]
  from upload.prems(1) show ?case by (auto simp: pipe_inv_def in_memory_def intro: finished_mono(3) [OF _ g])
next
  case (reconcile s now)
  note g = table_grows_rows [OF table_grows_reconcile [of "pl_store s" now]]
  from reconcile.prems(1) show ?case by (auto simp: pipe_inv_def in_memory_def intro: finished_mono(3) [OF _ g])
next
  case (crash s)
  then show ?case by (simp add: pipe_inv_def in_memory_def new_worker_def)
qed

lemma NewBatchWriter_ok: "writer_ok (NewBatchWriter k d)" "in_writer (NewBatchWriter k d) = {#}"
  by (simp_all add: NewBatchWriter_def writer_ok_def in_writer_def Let_def)

lemma pipe_reach_inv:
  assumes "(pipe_step deliver parse (NewBatchWriter k d))\<^sup>*\<^sup>* (pipe_start js (NewBatchWriter k d) st) s"
  shows "pipe_inv parse s"
  using assms
proof (induction rule: rtranclp_induct)
  case base
  show ?case by (simp add: pipe_inv_def in_memory_def pipe_start_def new_worker_def NewBatchWriter_ok)
next
  case (step y z)
  then show ?case by (blast intro: pipe_step_inv NewBatchWriter_ok)
qed

section \<open>Progress\<close>

lemma append_loop_up: "\<forall>e \<in> set es. parse (ev_EventID e) \<noteq> None \<Longrightarrow> \<exists>rs. append_loop parse now es = Some rs"
  by (induction es) auto

lemma InsertEvents_up:
  assumes "\<forall>k. \<not> ch_fails ch k" "\<forall>e \<in> set es. parse (ev_EventID e) \<noteq> None"
  shows "\<exists>ch'. InsertEvents parse now ch es = (ch', Inr ())"
proof -
  from append_loop_up [OF assms(2)] obtain rs where "append_loop parse now es = Some rs" by blast
  with assms(1) show ?thesis
    by (simp add: InsertEvents_def ch_query_def ch_exec_def batch_Send_def Let_def)
qed

text \<open>Delivering a message and flushing acknowledges it, when ClickHouse works.\<close>

lemma pipe_progress:
  assumes inv: "pipe_inv parse s" and bw0: "writer_ok bw0" "in_writer bw0 = {#}"
    and n: "n < length (js_log (pl_js s))" "deliver s n"
    and ids: "\<forall>m < length (js_log (pl_js s)). parse (pb_EventId (payload (pl_js s) m)) \<noteq> None"
    and up: "\<forall>k. \<not> ch_fails (snd (pl_store s)) k"
  shows "\<exists>s'. (pipe_step deliver parse bw0)\<^sup>*\<^sup>* s s' \<and> n \<in> set (pl_acked s') \<and> pl_js s' = pl_js s"
proof -
  let ?e = "priced_event (wk_prices (pl_worker s)) (payload (pl_js s) n)"
  define s1 where "s1 = s\<lparr>pl_delivered := pl_delivered s @ [n],
      pl_worker := fst (handleMessage zero_time (pl_worker s) (payload (pl_js s) n) n)\<rparr>"
  have 1: "pipe_step deliver parse bw0 s s1"
    unfolding s1_def using n by (rule pipe_step.deliver)
  have inv1: "pipe_inv parse s1" by (rule pipe_step_inv [OF 1 inv bw0])
  have w1: "wk_batch (pl_worker s1) = fst (Add_event (wk_batch (pl_worker s)) zero_time ?e n)"
    by (simp add: s1_def handleMessage_batch)
  obtain bw events acks where b: "Flush_begin (wk_batch (pl_worker s1)) = Some (bw, events, acks)"
    by (simp add: w1 Flush_begin_def Add_event_buffer)
  have ok1: "writer_ok (wk_batch (pl_worker s1))" using inv1 by (simp add: pipe_inv_def)
  note fb = Flush_begin_ok [OF b ok1]
  have "acks = bw_ackFuncs (wk_batch (pl_worker s1))" using b by (auto simp: Flush_begin_def split: if_splits)
  then have na: "n \<in> set acks" by (simp add: w1 Add_event_buffer)
  define s2 where "s2 = s1\<lparr>pl_worker := (pl_worker s1)\<lparr>wk_batch := bw\<rparr>, pl_flushing := pl_flushing s1 @ [(events, acks)]\<rparr>"
  have 2: "pipe_step deliver parse bw0 s1 s2"
    unfolding s2_def by (rule pipe_step.flush_begin [OF b])
  have "parse (ev_EventID e) \<noteq> None" if "e \<in> set events" for e
  proof -
    from that fb(4) obtain m where "(m, e) \<in> set (zip acks events)" by (metis in_set_impl_in_set_zip2)
    then have "(m, e) \<in># in_memory s1" using fb(3) by (simp add: in_memory_def flip: fb(3))
    then have "of_message (pl_js s1) m e" using inv1 by (auto simp: pipe_inv_def loaded_def)
    then show ?thesis using ids by (auto simp: of_message_def s1_def priced_event_fields)
  qed
  then obtain ch where ch: "InsertEvents parse zero_time (snd (pl_store s2)) events = (ch, Inr ())"
    using InsertEvents_up [of "snd (pl_store s2)" events parse zero_time] up by (auto simp: s1_def s2_def)
  have f: "pl_flushing s2 = pl_flushing s1 @ (events, acks) # []" by (simp add: s2_def)
  note 3 = pipe_step.flush_ok [OF f ch, of deliver bw0 "\<lambda>_. True"]
  show ?thesis
    by (intro exI conjI)
      (rule rtranclp.rtrancl_into_rtrancl [OF rtranclp.rtrancl_into_rtrancl [OF r_into_rtranclp [of "pipe_step deliver parse bw0", OF 1] 2] 3],
        simp_all add: Flush_end_def na s2_def s1_def)
qed

section \<open>How much is in memory\<close>

text \<open>The messages that the broker has delivered and that are not acknowledged.\<close>

definition outstanding :: "pipeline \<Rightarrow> nat set" where
  "outstanding s = set (pl_delivered s) - set (pl_acked s)"

definition once_each :: "pipeline \<Rightarrow> bool" where
  "once_each s \<longleftrightarrow>
     (\<forall>n. count (image_mset fst (in_memory s)) n \<le> (if n \<in> outstanding s then 1 else 0))"

lemma size_once_each:
  assumes "once_each s"
  shows "size (in_memory s) \<le> card (outstanding s)"
proof -
  let ?M = "image_mset fst (in_memory s)"
  have c: "count ?M n \<le> (if n \<in> outstanding s then 1 else 0)" for n
    using assms by (simp add: once_each_def)
  have "set_mset ?M \<subseteq> outstanding s"
  proof
    fix n assume n: "n \<in> set_mset ?M"
    show "n \<in> outstanding s"
    proof (rule ccontr)
      assume "n \<notin> outstanding s"
      with c [of n] have "count ?M n = 0" by (simp only: if_False le_zero_eq)
      then have "n \<notin># ?M" by (rule count_eq_zero_iff [THEN iffD1])
      with n show False by blast
    qed
  qed
  have "size ?M = (\<Sum>n \<in> set_mset ?M. count ?M n)" by (rule size_multiset_overloaded_eq)
  also have "\<dots> \<le> (\<Sum>n \<in> set_mset ?M. 1)"
    by (rule sum_mono) (use c in \<open>meson le_trans zero_le_one order_refl if_splits\<close>)
  also have "\<dots> = card (set_mset ?M)" by simp
  also have "\<dots> \<le> card (outstanding s)"
    using \<open>set_mset ?M \<subseteq> outstanding s\<close> by (intro card_mono) (simp_all add: outstanding_def)
  finally show ?thesis by simp
qed

lemma in_flight_middle:
  "in_flight (xs @ (es, as) # ys) = mset (zip as es) + in_flight (xs @ ys)"
  by simp

lemma image_fst_zip: "length as = length es \<Longrightarrow> image_mset fst (mset (zip as es)) = mset as"
  by (metis mset_map map_fst_zip)

lemma once_eachD: "once_each s \<Longrightarrow> count (image_mset fst (in_memory s)) n \<le> (if n \<in> outstanding s then 1 else 0)"
  by (simp only: once_each_def)

lemma once_each_same:
  assumes "once_each s" "in_memory s' = in_memory s" "outstanding s' = outstanding s"
  shows "once_each s'"
  using assms unfolding once_each_def by metis

lemma once_each_step:
  assumes "pipe_step deliver parse bw0 s s'" "pipe_inv parse s" "once_each s" "card (outstanding s) \<le> N"
    and "in_writer bw0 = {#}"
    and first: "\<And>s n. deliver s n \<Longrightarrow> n \<notin> set (pl_delivered s) \<and> card (outstanding s) < N"
  shows "once_each s' \<and> card (outstanding s') \<le> N"
  using assms(1-5)
proof (induction rule: pipe_step.induct)
  case (deliver n s now)
  note f = first [OF deliver.hyps(2)]
  have "set (pl_acked s) \<subseteq> set (pl_delivered s)"
    using deliver.prems(1) by (auto simp: pipe_inv_def finished_def loaded_def)
  with f have a: "n \<notin> set (pl_acked s)" "n \<notin> outstanding s" by (auto simp: outstanding_def)
  let ?s = "s\<lparr>pl_delivered := pl_delivered s @ [n],
      pl_worker := fst (handleMessage now (pl_worker s) (payload (pl_js s) n) n)\<rparr>"
  have o: "outstanding ?s = insert n (outstanding s)" using a by (auto simp: outstanding_def)
  have "writer_ok (wk_batch (pl_worker s))" using deliver.prems(1) by (simp add: pipe_inv_def)
  then have m: "image_mset fst (in_memory ?s) = add_mset n (image_mset fst (in_memory s))"
    by (simp add: in_memory_def handleMessage_batch Add_event_ok)
  have "count (image_mset fst (in_memory ?s)) k \<le> (if k \<in> outstanding ?s then 1 else 0)" for k
    using once_eachD [OF deliver.prems(2), of k] a(2) unfolding m o by (cases "k = n") auto
  then have "once_each ?s" unfolding once_each_def by blast
  moreover have "card (outstanding ?s) \<le> N" using f a(2) unfolding o by (simp add: outstanding_def)
  ultimately show ?case by blast
next
  case (flush_begin s bw events acks)
  then have "writer_ok (wk_batch (pl_worker s))" by (simp add: pipe_inv_def)
  note b = Flush_begin_ok [OF flush_begin.hyps this]
  show ?case
    using flush_begin.prems
    by (auto intro!: once_each_same [of s] simp: in_memory_def outstanding_def b)
next
  case (flush_fail s xs events acks ys now ch err sent)
  then have l: "length acks = length events" "writer_ok (wk_batch (pl_worker s))" by (simp_all add: pipe_inv_def)
  show ?case
    using flush_fail.prems flush_fail.hyps(1)
    by (auto intro!: once_each_same [of s] simp: in_memory_def outstanding_def Flush_end_ok l)
next
  case (flush_ok s xs events acks ys now ch u sent)
  then have l: "length acks = length events" "writer_ok (wk_batch (pl_worker s))" by (simp_all add: pipe_inv_def)
  let ?s = "s\<lparr>pl_worker := (pl_worker s)\<lparr>wk_batch := fst (Flush_end (wk_batch (pl_worker s)) events acks True)\<rparr>,
      pl_flushing := xs @ ys, pl_store := (fst (pl_store s), ch),
      pl_acked := pl_acked s @ filter sent (snd (Flush_end (wk_batch (pl_worker s)) events acks True))\<rparr>"
  have m: "image_mset fst (in_memory s) = mset acks + image_mset fst (in_memory ?s)"
    using flush_ok.hyps(1) by (simp add: in_memory_def Flush_end_ok l image_fst_zip)
  have o: "outstanding ?s = outstanding s - set (filter sent acks)"
    by (auto simp: outstanding_def Flush_end_ok l)
  have "count (image_mset fst (in_memory ?s)) k \<le> (if k \<in> outstanding ?s then 1 else 0)" for k
  proof -
    define c where "c = count (mset acks) k"
    have "k \<in> set acks \<longrightarrow> 0 < c" by (simp add: c_def count_mset_gt_0)
    moreover have "c + count (image_mset fst (in_memory ?s)) k \<le> (if k \<in> outstanding s then 1 else 0)"
      using once_eachD [OF flush_ok.prems(2), of k] by (simp only: m c_def count_union)
    ultimately show ?thesis unfolding o by (cases "k \<in> set acks") (simp_all split: if_splits)
  qed
  then have "once_each ?s" unfolding once_each_def by blast
  moreover have "card (outstanding ?s) \<le> card (outstanding s)"
    unfolding o by (intro card_mono) (auto simp: outstanding_def)
  ultimately show ?case using flush_ok.prems(3) by (meson le_trans)
next
  case (crash s)
  have "in_memory (s\<lparr>pl_worker := new_worker bw0, pl_flushing := []\<rparr>) = {#}"
    using crash.prems(4) by (simp add: in_memory_def new_worker_def)
  then show ?case using crash.prems(3) by (simp add: once_each_def outstanding_def)
qed (auto intro: once_each_same simp: in_memory_def outstanding_def)

section \<open>Where a row comes from\<close>

lemma append_loop_keys:
  "append_loop parse now es = Some rs \<Longrightarrow> r \<in> set rs \<Longrightarrow>
     \<exists>e \<in> set es. cr_org_id r = ev_OrgID e \<and> parse (ev_EventID e) = Some (cr_event_id r)"
  by (induction es arbitrary: rs) (fastforce simp: event_to_row_def Let_def split: option.splits)+

lemma InsertEvents_keys:
  assumes "InsertEvents parse now ch es = (ch', res)" "r \<in> set (ch_events ch')"
  shows "r \<in> set (ch_events ch)
       \<or> (\<exists>e \<in> set es. cr_org_id r = ev_OrgID e \<and> parse (ev_EventID e) = Some (cr_event_id r))"
proof (cases rule: InsertEvents_cases [of parse now ch es])
  case (3 n rs)
  then have "r \<in> set (ch_events ch) \<or> r \<in> set rs"
    using assms by (auto simp: batch_Send_def insert_block_def Let_def split: if_splits)
  then show ?thesis using append_loop_keys [OF 3(1)] by blast
qed (use assms in auto)

definition from_delivery :: "(string \<Rightarrow> string option) \<Rightarrow> jetstream \<Rightarrow> nat list \<Rightarrow> event_row \<Rightarrow> bool" where
  "from_delivery parse js delivered r \<longleftrightarrow>
     (\<exists>n \<in> set delivered. n < length (js_log js) \<and> cr_org_id r = pb_OrgId (payload js n)
        \<and> parse (pb_EventId (payload js n)) = Some (cr_event_id r))"

definition rows_delivered :: "(string \<Rightarrow> string option) \<Rightarrow> pipeline \<Rightarrow> bool" where
  "rows_delivered parse s \<longleftrightarrow>
     (\<forall>r \<in> set (ch_events (snd (pl_store s))). from_delivery parse (pl_js s) (pl_delivered s) r)"

lemma from_delivery_mono:
  "from_delivery parse js ds r \<Longrightarrow> from_delivery parse (fst (Publish js org e)) ds r"
  "from_delivery parse js ds r \<Longrightarrow> from_delivery parse js (ds @ [n]) r"
  unfolding from_delivery_def by (metis payload_publish(1,2), auto)

lemma rows_delivered_insert:
  assumes "rows_delivered parse s" "pipe_inv parse s" "pl_flushing s = xs @ (events, acks) # ys"
    and "InsertEvents parse now (snd (pl_store s)) events = (ch, res)" "r \<in> set (ch_events ch)"
  shows "from_delivery parse (pl_js s) (pl_delivered s) r"
proof (cases "r \<in> set (ch_events (snd (pl_store s)))")
  case True
  with assms(1) show ?thesis by (simp add: rows_delivered_def)
next
  case False
  with InsertEvents_keys [OF assms(4,5)] obtain e where e: "e \<in> set events" "cr_org_id r = ev_OrgID e"
    "parse (ev_EventID e) = Some (cr_event_id r)" by blast
  have "length acks = length events" using assms(2,3) by (simp add: pipe_inv_def)
  with e(1) obtain n where "(n, e) \<in> set (zip acks events)" by (metis in_set_impl_in_set_zip2)
  then have "(n, e) \<in># in_memory s" using assms(3) by (simp add: in_memory_def)
  then have "loaded (pl_js s) (pl_delivered s) (n, e)" using assms(2) by (simp add: pipe_inv_def)
  with e(2,3) show ?thesis by (auto simp: loaded_def of_message_def from_delivery_def priced_event_fields)
qed

lemma rows_delivered_grows:
  assumes "rows_delivered parse s" "table_grows (snd (pl_store s)) ch" "r \<in> set (ch_events ch)"
  shows "from_delivery parse (pl_js s) (pl_delivered s) r"
proof -
  from assms(2,3) obtain r' where "r' \<in> set (ch_events (snd (pl_store s)))"
    "cr_org_id r = cr_org_id r'" "cr_event_id r = cr_event_id r'"
    unfolding table_grows_def by (metis Un_iff set_append)
  with assms(1) show ?thesis by (auto simp: rows_delivered_def from_delivery_def)
qed

lemma rows_delivered_step:
  assumes "pipe_step deliver parse bw0 s s'" "rows_delivered parse s" "pipe_inv parse s"
  shows "rows_delivered parse s'"
  using assms
proof (induction rule: pipe_step.induct)
  case (publish s orgID event)
  then show ?case by (simp add: rows_delivered_def from_delivery_mono)
next
  case (deliver n s now)
  then show ?case by (simp add: rows_delivered_def from_delivery_mono)
next
  case (flush_fail s xs events acks ys now ch err sent)
  from rows_delivered_insert [OF flush_fail.prems flush_fail.hyps] show ?case by (simp add: rows_delivered_def)
next
  case (flush_ok s xs events acks ys now ch u sent)
  from rows_delivered_insert [OF flush_ok.prems flush_ok.hyps] show ?case by (simp add: rows_delivered_def)
next
  case (upload now s st uploadCh)
  from rows_delivered_grows [OF upload.prems(1) table_grows_processUpload [OF upload.hyps]]
  show ?case by (simp add: rows_delivered_def)
next
  case (reconcile s now)
  from rows_delivered_grows [OF reconcile.prems(1) table_grows_reconcile] show ?case by (simp add: rows_delivered_def)
qed (simp_all add: rows_delivered_def)

text \<open>The id of a message is the id of its event.\<close>

definition ids_match :: "jetstream \<Rightarrow> bool" where
  "ids_match js \<longleftrightarrow> (\<forall>n < length (js_log js). msg_id js n = pb_EventId (published js n))"

lemma ids_match_publish: "ids_match js \<Longrightarrow> ids_match (fst (Publish js org e))"
  by (auto simp: ids_match_def msg_id_def published_def Publish_def js_Publish_def Let_def nth_append split: if_splits)

lemma ids_match_step: "pipe_step deliver parse bw0 s s' \<Longrightarrow> ids_match (pl_js s) \<Longrightarrow> ids_match (pl_js s')"
  by (induction rule: pipe_step.induct) (simp_all add: ids_match_publish)

text \<open>A message that the broker never hands out is never delivered.\<close>

lemma delivered_allowed:
  assumes "(pipe_step deliver parse bw0)\<^sup>*\<^sup>* (pipe_start js bw st) s"
    and "\<And>s n m. deliver s n \<Longrightarrow> m < n \<Longrightarrow> msg_id (pl_js s) m \<noteq> msg_id (pl_js s) n"
    and "k \<in> set (pl_delivered s)" "m < k"
  shows "k < length (js_log (pl_js s)) \<and> msg_id (pl_js s) m \<noteq> msg_id (pl_js s) k"
  using assms(1,3)
proof (induction arbitrary: rule: rtranclp_induct)
  case base
  then show ?case by (simp add: pipe_start_def)
next
  case (step y z)
  from step.hyps(2) step.IH step.prems assms(2,4) show ?case
    by (cases rule: pipe_step.cases) (auto simp: payload_publish)
qed

section \<open>A small run\<close>

definition empty_queue :: jetstream where
  "empty_queue = \<lparr>js_log = [], js_tries = 0, js_fails = \<lambda>_. False\<rparr>"

definition sample_message :: "u64 \<Rightarrow> LLMEvent" where
  "sample_message org =
     \<lparr>pb_OrgId = org, pb_EventId = ''id'', pb_ProjectId = [], pb_Timestamp = zero_time,
      pb_InsertedAt = zero_time, pb_Model = ''gpt-4o'', pb_Provider = ''openai'', pb_PromptTokens = 12,
      pb_CompletionTokens = 34, pb_TotalTokens = 46, pb_CostUsd = 0, pb_LatencyMs = 5, pb_StatusCode = 200,
      pb_Tags = None, pb_Prompt = [], pb_Response = [], pb_PromptHash = [], pb_S3Key = [],
      pb_S3Status = S3Status_NONE, pb_SchemaVersion = 1\<rparr>"

definition sample_start :: pipeline where
  "sample_start = pipe_start empty_queue (NewBatchWriter 0 0) (empty_bucket, sample_store)"

definition sample_published :: pipeline where
  "sample_published = sample_start\<lparr>pl_js := fst (Publish (pl_js sample_start) 1 (sample_message 1))\<rparr>"

definition sample_both :: pipeline where
  "sample_both = sample_published\<lparr>pl_js := fst (Publish (pl_js sample_published) 2 (sample_message 2))\<rparr>"

lemma sample_published_reachable:
  "(pipe_step deliver parse (NewBatchWriter 0 0))\<^sup>*\<^sup>* (pipe_start empty_queue (NewBatchWriter 0 0) (empty_bucket, sample_store))
     sample_published"
  unfolding sample_published_def sample_start_def by (rule r_into_rtranclp, rule pipe_step.publish)

lemma sample_both_reachable:
  "(pipe_step deliver parse (NewBatchWriter 0 0))\<^sup>*\<^sup>* (pipe_start empty_queue (NewBatchWriter 0 0) (empty_bucket, sample_store))
     sample_both"
  unfolding sample_both_def by (rule rtranclp.rtrancl_into_rtrancl [OF sample_published_reachable pipe_step.publish])

lemma sample_marshals_message: "marshals (sample_message org)"
  by (simp add: marshals_def sample_message_def) (simp add: time_marshals_def, code_simp)

lemma received_message: "received (sample_message org) = sample_message org"
proof -
  have "to_valid s = s" if "list_all is_ascii s" for s
    using valid_ascii [OF that] by (simp add: valid_utf8_def)
  then show ?thesis
    by (simp add: received_def received_tags_def sample_message_def is_ascii_def)
qed

lemma sample_queues:
  "length (js_log (pl_js sample_published)) = 1" "length (js_log (pl_js sample_both)) = 2"
  "payload (pl_js sample_published) 0 = sample_message 1" "payload (pl_js sample_both) 0 = sample_message 1"
  "payload (pl_js sample_both) (Suc 0) = sample_message 2"
  "published (pl_js sample_both) 0 = sample_message 1" "published (pl_js sample_both) (Suc 0) = sample_message 2"
  by (simp_all add: sample_both_def sample_published_def sample_start_def pipe_start_def Publish_def js_Publish_def
      empty_queue_def payload_def published_def received_message Let_def sample_marshals_message)

lemma sample_stores: "pl_store sample_published = (empty_bucket, sample_store)" "pl_store sample_both = (empty_bucket, sample_store)"
  by (simp_all add: sample_both_def sample_published_def sample_start_def pipe_start_def)

lemma sample_store_up: "\<not> ch_fails sample_store i" "ch_events sample_store = []"
  by (simp_all add: sample_store_def ch_empty_def)

text \<open>After some steps the first message of these queues is acknowledged.\<close>

lemma sample_run:
  assumes r: "(pipe_step deliver Some (NewBatchWriter 0 0))\<^sup>*\<^sup>* (pipe_start empty_queue (NewBatchWriter 0 0) (empty_bucket, sample_store)) s"
    and "pl_store s = (empty_bucket, sample_store)" "0 < length (js_log (pl_js s))" "deliver s 0"
  obtains s' where "(pipe_step deliver Some (NewBatchWriter 0 0))\<^sup>*\<^sup>* (pipe_start empty_queue (NewBatchWriter 0 0) (empty_bucket, sample_store)) s'"
    "0 \<in> set (pl_acked s')" "pl_js s' = pl_js s"
proof -
  from assms(2-4) have "\<exists>s'. (pipe_step deliver Some (NewBatchWriter 0 0))\<^sup>*\<^sup>* s s' \<and> 0 \<in> set (pl_acked s') \<and> pl_js s' = pl_js s"
    by (intro pipe_progress pipe_reach_inv [OF r] NewBatchWriter_ok) (simp_all add: sample_store_up)
  with r show thesis by (blast intro: that rtranclp_trans)
qed

section \<open>Properties\<close>

text \<open>
  C3: However publications, deliveries, price refreshes, flushes, uploads, reconciliations and
  crashes of the worker are interleaved, whatever fails and whatever the broker delivers again, a
  message is acknowledged only when the events table holds its event: same organisation, id, model
  and token counts, with a cost that the price cache has computed for it.
\<close>

theorem acknowledged_events_are_stored:
  assumes "(pipe_step deliver parse (NewBatchWriter k d))\<^sup>*\<^sup>* (pipe_start js (NewBatchWriter k d) st) s"
    and "n \<in> set (pl_acked s)"
  shows "\<exists>r \<in> set (ch_events (snd (pl_store s))). \<exists>prices.
           cr_org_id r = pb_OrgId (payload (pl_js s) n)
         \<and> cr_event_id r = the (parse (pb_EventId (payload (pl_js s) n)))
         \<and> cr_model r = pb_Model (payload (pl_js s) n)
         \<and> cr_prompt_tokens r = pb_PromptTokens (payload (pl_js s) n)
         \<and> cr_completion_tokens r = pb_CompletionTokens (payload (pl_js s) n)
         \<and> cr_cost_usd r = snd (CalculateCost prices (protoToEvent (payload (pl_js s) n)))"
proof -
  from pipe_reach_inv [OF assms(1)] assms(2)
  have "finished parse (pl_js s) (pl_delivered s) (snd (pl_store s)) n" by (simp add: pipe_inv_def)
  then obtain prices where "event_content parse (priced_event prices (payload (pl_js s) n))
      \<in># table_rows (snd (pl_store s))" by (auto simp: finished_def loaded_def of_message_def)
  then obtain r where r: "r \<in> set (ch_events (snd (pl_store s)))"
    "row_content r = event_content parse (priced_event prices (payload (pl_js s) n))"
    by (auto simp: table_rows_def)
  have c: "f (row_content r) = f (event_content parse (priced_event prices (payload (pl_js s) n)))"
    for f :: "event_row \<Rightarrow> 'a" by (simp add: r(2))
  from c [of cr_org_id] c [of cr_event_id] c [of cr_model] c [of cr_prompt_tokens]
    c [of cr_completion_tokens] c [of cr_cost_usd]
  show ?thesis
    by (intro bexI [OF _ r(1)] exI [of _ prices])
      (simp add: row_content_def event_content_def event_to_row_def priced_event_fields Let_def)
qed

theorem acknowledged_events_are_stored_witness:
  "\<exists>s :: pipeline. 0 \<in> set (pl_acked s) \<and> (\<exists>r \<in> set (ch_events (snd (pl_store s))).
        cr_org_id r = 1 \<and> cr_event_id r = ''id'' \<and> cr_prompt_tokens r = 12)"
proof -
  obtain s where s: "(pipe_step (\<lambda>_ _. True) Some (NewBatchWriter 0 0))\<^sup>*\<^sup>* (pipe_start empty_queue (NewBatchWriter 0 0) (empty_bucket, sample_store)) s"
    "0 \<in> set (pl_acked s)" "pl_js s = pl_js sample_published"
    by (rule sample_run [OF sample_published_reachable [where deliver = "\<lambda>_ _. True" and parse = Some]])
      (simp_all add: sample_stores sample_queues)
  have "payload (pl_js s) 0 = sample_message 1" by (simp add: s(3) sample_queues)
  with acknowledged_events_are_stored [OF s(1,2)] s(2) show ?thesis
    by (intro exI [of _ s] conjI) (simp_all add: sample_message_def, blast)
qed



text \<open>
  C34: The default batch size is never reached. As long as the broker keeps to the consumer's
  \<open>MaxAckPending\<close> of 1000 and no message waits long enough to be delivered again, the worker has at
  most 1000 events in memory, fewer than the 10000 that would trigger a flush, so that at most 1000
  events go through a worker in each flush interval.
\<close>

theorem batch_size_never_reached:
  assumes "(pipe_step deliver parse (NewBatchWriter k d))\<^sup>*\<^sup>* (pipe_start js (NewBatchWriter k d) st) s"
    and "\<And>s n. deliver s n \<Longrightarrow>
           n \<notin> set (pl_delivered s) \<and> card (outstanding s) < cc_MaxAckPending EnsureConsumer_cfg"
  shows "size (in_memory s) \<le> cc_MaxAckPending EnsureConsumer_cfg
       \<and> int (length (bw_buffer (wk_batch (pl_worker s)))) < defaultBatchSize"
proof -
  have "once_each s \<and> card (outstanding s) \<le> cc_MaxAckPending EnsureConsumer_cfg"
    using assms(1)
  proof (induction rule: rtranclp_induct)
    case base
    show ?case
      by (simp add: once_each_def in_memory_def outstanding_def pipe_start_def new_worker_def NewBatchWriter_ok)
  next
    case (step y z)
    show ?case
      by (rule once_each_step [OF step.hyps(2) pipe_reach_inv [OF step.hyps(1)] _ _ NewBatchWriter_ok(2) assms(2)])
        (use step.IH in simp_all)
  qed
  then have m: "size (in_memory s) \<le> 1000"
    using size_once_each [of s] by (simp add: EnsureConsumer_cfg_def)
  have "writer_ok (wk_batch (pl_worker s))" using pipe_reach_inv [OF assms(1)] by (simp add: pipe_inv_def)
  then have "size (in_writer (wk_batch (pl_worker s))) = length (bw_buffer (wk_batch (pl_worker s)))"
    by (simp add: in_writer_def writer_ok_def)
  with m show ?thesis by (simp add: in_memory_def defaultBatchSize_def EnsureConsumer_cfg_def)
qed

definition first_deliveries :: "pipeline \<Rightarrow> nat \<Rightarrow> bool" where
  "first_deliveries s n \<longleftrightarrow> n \<notin> set (pl_delivered s) \<and> card (outstanding s) < cc_MaxAckPending EnsureConsumer_cfg"

theorem batch_size_never_reached_witness:
  "\<exists>s. pl_delivered s = [0] \<and> size (in_memory s) \<le> cc_MaxAckPending EnsureConsumer_cfg
       \<and> int (length (bw_buffer (wk_batch (pl_worker s)))) < defaultBatchSize"
proof -
  have e: "pl_delivered sample_published = []" "pl_acked sample_published = []"
    by (simp_all add: sample_published_def sample_start_def pipe_start_def)
  have "0 < length (js_log (pl_js sample_published))" "first_deliveries sample_published 0"
    by (simp_all add: sample_queues first_deliveries_def e outstanding_def EnsureConsumer_cfg_def)
  then have "pipe_step first_deliveries Some (NewBatchWriter 0 0) sample_published
     (sample_published\<lparr>pl_delivered := pl_delivered sample_published @ [0],
        pl_worker := fst (handleMessage zero_time (pl_worker sample_published) (payload (pl_js sample_published) 0) 0)\<rparr>)"
    by (rule pipe_step.deliver)
  from rtranclp.rtrancl_into_rtrancl [OF sample_published_reachable this]
  have "(pipe_step first_deliveries Some (NewBatchWriter 0 0))\<^sup>*\<^sup>* (pipe_start empty_queue (NewBatchWriter 0 0) (empty_bucket, sample_store))
     (sample_published\<lparr>pl_delivered := [0],
        pl_worker := fst (handleMessage zero_time (pl_worker sample_published) (payload (pl_js sample_published) 0) 0)\<rparr>)"
    by (simp add: e)
  from batch_size_never_reached [OF this] show ?thesis
    by (intro exI conjI) (simp, auto simp: first_deliveries_def)
qed


definition no_duplicates :: "pipeline \<Rightarrow> nat \<Rightarrow> bool" where
  "no_duplicates s n \<longleftrightarrow> (\<forall>m < n. msg_id (pl_js s) m \<noteq> msg_id (pl_js s) n)"


end
