(* ===== verification/Click_Queries.thy ===== *)
theory Click_Queries
  imports Click_Store
begin

text \<open>
  Package \<open>storage\<close>, \<open>clickhouse.go\<close>, the reading half (\<open>DashboardReader\<close>): key figures, cost
  breakdowns, time series, comparisons and filter values of one organisation. A query is the
  relational operation that its SQL denotes; the fragments that the Go code appends to a query
  are predicates here. Rows of equal cost keep the order of their groups, which SQL leaves open.
\<close>

record DashboardQueryParams =
  dq_OrgID :: u64
  dq_ProjectID :: string
  dq_From :: gotime
  dq_To :: gotime
  dq_Timezone :: string
  dq_ModelFilter :: string
  dq_ProviderFilter :: string
  dq_FeatureFilter :: string

section \<open>Tables and filters\<close>

definition selectMV :: "string \<Rightarrow> string \<Rightarrow> string" where
  "selectMV base projectID = (if projectID \<noteq> [] then base @ ''_v2_target'' else base @ ''_target'')"

definition model_table :: "clickhouse \<Rightarrow> string \<Rightarrow> model_row list" where
  "model_table st name =
     (if name = ''mv_cost_by_model_daily_v2_target'' then ch_model_v2 st else ch_model st)"

definition tag_table :: "clickhouse \<Rightarrow> string \<Rightarrow> tag_row list" where
  "tag_table st name = (if name = ''mv_cost_by_tag_daily_v2_target'' then ch_tag_v2 st else ch_tag st)"

definition hour_table :: "clickhouse \<Rightarrow> string \<Rightarrow> hour_row list" where
  "hour_table st name = (if name = ''mv_cost_hourly_v2_target'' then ch_hour_v2 st else ch_hour st)"

text \<open>\<open>timeArgs\<close>: the bounds as 32-bit Unix times.\<close>

definition time_arg :: "gotime \<Rightarrow> int" where
  "time_arg t = uint (word_of_int (Unix t) :: 32 word)"

definition timeArgs :: "DashboardQueryParams \<Rightarrow> u64 \<times> int \<times> int" where
  "timeArgs params = (dq_OrgID params, time_arg (dq_From params), time_arg (dq_To params))"

definition projectFilter :: "DashboardQueryParams \<Rightarrow> string \<Rightarrow> bool" where
  "projectFilter params v = (if dq_ProjectID params = [] then True else v = dq_ProjectID params)"

definition modelFilter :: "DashboardQueryParams \<Rightarrow> string \<Rightarrow> bool" where
  "modelFilter params v = (if dq_ModelFilter params = [] then True else v = dq_ModelFilter params)"

definition providerFilter :: "DashboardQueryParams \<Rightarrow> string \<Rightarrow> bool" where
  "providerFilter params v = (if dq_ProviderFilter params = [] then True else v = dq_ProviderFilter params)"

text \<open>\<open>tags['feature']\<close>, the empty string when the key is absent.\<close>

definition feature_tag :: "event_row \<Rightarrow> string" where
  "feature_tag r = (case map_of (cr_tags r) ''feature'' of None \<Rightarrow> [] | Some v \<Rightarrow> v)"

definition featureFilter :: "DashboardQueryParams \<Rightarrow> event_row \<Rightarrow> bool" where
  "featureFilter params r =
     (if dq_FeatureFilter params = [] then True else feature_tag r = dq_FeatureFilter params)"

text \<open>The organisation and day bounds that every query on a daily table has.\<close>

definition day_where :: "DashboardQueryParams \<Rightarrow> u64 \<Rightarrow> int \<Rightarrow> bool" where
  "day_where params org date =
     (case timeArgs params of (o_id, from_s, to_s) \<Rightarrow>
        org = o_id \<and> from_s div 86400 \<le> date \<and> date \<le> to_s div 86400)"

definition hour_where :: "DashboardQueryParams \<Rightarrow> u64 \<Rightarrow> int \<Rightarrow> bool" where
  "hour_where params org h =
     (case timeArgs params of (o_id, from_s, to_s) \<Rightarrow>
        org = o_id \<and> from_s \<le> h * 3600 \<and> h * 3600 < to_s)"

definition event_where :: "DashboardQueryParams \<Rightarrow> event_row \<Rightarrow> bool" where
  "event_where params r \<longleftrightarrow>
     cr_org_id r = dq_OrgID params
     \<and> t_ns (DateTime64_3 (dq_From params)) \<le> t_ns (cr_timestamp r)
     \<and> t_ns (cr_timestamp r) \<le> t_ns (DateTime64_3 (dq_To params))
     \<and> projectFilter params (cr_project_id r) \<and> modelFilter params (cr_model r)
     \<and> providerFilter params (cr_provider r) \<and> featureFilter params r"

text \<open>\<open>ORDER BY cost DESC LIMIT n\<close>.\<close>

definition top_by :: "('a \<Rightarrow> f64) \<Rightarrow> nat \<Rightarrow> 'a list \<Rightarrow> 'a list" where
  "top_by cost n xs = take n (sort_key (\<lambda>x. - cost x) xs)"

section \<open>Key figures\<close>

definition overview_rows :: "clickhouse \<Rightarrow> DashboardQueryParams \<Rightarrow> hour_row list" where
  "overview_rows st params =
     filter (\<lambda>r. hour_where params (hr_org r) (hr_hour r) \<and> projectFilter params (hr_project r))
       (hour_table st (selectMV ''mv_cost_hourly'' (dq_ProjectID params)))"

definition GetOverviewKPIs ::
    "clickhouse \<Rightarrow> DashboardQueryParams \<Rightarrow> clickhouse \<times> OverviewKPIs result" where
  "GetOverviewKPIs st params =
     ch_query (\<lambda>st.
       let rs = overview_rows st params;
           total = (\<Sum>r \<leftarrow> rs. fst (hr_latency r)); n = (\<Sum>r \<leftarrow> rs. snd (hr_latency r))
       in \<lparr>kpi_TotalCost = (if rs = [] then 0 else ch_sum st (map hr_cost rs)),
           kpi_TotalRequests = (\<Sum>r \<leftarrow> rs. hr_requests r),
           kpi_TotalErrors = (\<Sum>r \<leftarrow> rs. hr_errors r),
           kpi_AvgLatencyMs =
             (if 0 < length rs then fdiv (fl (of_nat total)) (fl (of_nat n)) else 0)\<rparr>) st"

section \<open>Breakdowns\<close>

definition needsCrossDimensional :: "DashboardQueryParams \<Rightarrow> string \<Rightarrow> bool" where
  "needsCrossDimensional params groupBy =
     (if groupBy = ''model'' then dq_FeatureFilter params \<noteq> []
      else if groupBy = ''feature'' then dq_ModelFilter params \<noteq> [] \<or> dq_ProviderFilter params \<noteq> []
      else False)"

definition model_rows :: "clickhouse \<Rightarrow> DashboardQueryParams \<Rightarrow> model_row list" where
  "model_rows st params =
     filter (\<lambda>r. day_where params (mr_org r) (mr_date r) \<and> projectFilter params (mr_project r))
       (model_table st (selectMV ''mv_cost_by_model_daily'' (dq_ProjectID params)))"

definition getCostByModel ::
    "clickhouse \<Rightarrow> DashboardQueryParams \<Rightarrow> nat \<Rightarrow> clickhouse \<times> CostBreakdownItem list result" where
  "getCostByModel st params limit =
     ch_query (\<lambda>st.
       top_by cb_CostUSD limit
         (map (\<lambda>((model, prov), rs).
                \<lparr>cb_Group = model, cb_Provider = prov, cb_CostUSD = ch_sum st (map mr_cost rs),
                 cb_Requests = (\<Sum>r \<leftarrow> rs. mr_requests r), cb_Tokens = (\<Sum>r \<leftarrow> rs. mr_tokens r),
                 cb_PercentOfTotal = 0\<rparr>)
           (group_by (\<lambda>r. (mr_model r, mr_provider r))
             (filter (\<lambda>r. modelFilter params (mr_model r) \<and> providerFilter params (mr_provider r))
               (model_rows st params))))) st"

definition tag_rows :: "clickhouse \<Rightarrow> DashboardQueryParams \<Rightarrow> string \<Rightarrow> tag_row list" where
  "tag_rows st params tagKey =
     filter (\<lambda>r. day_where params (tr_org r) (tr_date r) \<and> tr_key r = tagKey
                 \<and> projectFilter params (tr_project r))
       (tag_table st (selectMV ''mv_cost_by_tag_daily'' (dq_ProjectID params)))"

definition getCostByTag ::
    "clickhouse \<Rightarrow> DashboardQueryParams \<Rightarrow> string \<Rightarrow> nat \<Rightarrow> clickhouse \<times> CostBreakdownItem list result" where
  "getCostByTag st params tagKey limit =
     ch_query (\<lambda>st.
       top_by cb_CostUSD limit
         (map (\<lambda>(v, rs).
                \<lparr>cb_Group = v, cb_Provider = [], cb_CostUSD = ch_sum st (map tr_cost rs),
                 cb_Requests = (\<Sum>r \<leftarrow> rs. tr_requests r), cb_Tokens = 0, cb_PercentOfTotal = 0\<rparr>)
           (group_by tr_value (tag_rows st params tagKey)))) st"

text \<open>By project the query always reads the v2 table and has no filter but the time.\<close>

definition getCostByProject ::
    "clickhouse \<Rightarrow> DashboardQueryParams \<Rightarrow> nat \<Rightarrow> clickhouse \<times> CostBreakdownItem list result" where
  "getCostByProject st params limit =
     ch_query (\<lambda>st.
       top_by cb_CostUSD limit
         (map (\<lambda>(prj, rs).
                \<lparr>cb_Group = prj, cb_Provider = [], cb_CostUSD = ch_sum st (map mr_cost rs),
                 cb_Requests = (\<Sum>r \<leftarrow> rs. mr_requests r), cb_Tokens = (\<Sum>r \<leftarrow> rs. mr_tokens r),
                 cb_PercentOfTotal = 0\<rparr>)
           (group_by mr_project
             (filter (\<lambda>r. day_where params (mr_org r) (mr_date r)) (ch_model_v2 st))))) st"

definition getCostCrossDimensional ::
    "clickhouse \<Rightarrow> DashboardQueryParams \<Rightarrow> string \<Rightarrow> nat \<Rightarrow> clickhouse \<times> CostBreakdownItem list result" where
  "getCostCrossDimensional st params groupBy limit =
     ch_query (\<lambda>st.
       let groupExpr = (if groupBy = ''model'' then cr_model
                        else if groupBy = ''feature'' then feature_tag else cr_model);
           featureNotEmpty = (\<lambda>r. if groupBy = ''feature'' then feature_tag r \<noteq> [] else True)
       in top_by cb_CostUSD limit
            (map (\<lambda>(g, rs).
                   \<lparr>cb_Group = g, cb_Provider = [], cb_CostUSD = ch_sum st (map cr_cost_usd rs),
                    cb_Requests = count_u64 rs, cb_Tokens = 0, cb_PercentOfTotal = 0\<rparr>)
              (group_by groupExpr
                (filter (\<lambda>r. event_where params r \<and> featureNotEmpty r) (final_rows (ch_events st)))))) st"

definition GetCostBreakdown ::
    "clickhouse \<Rightarrow> DashboardQueryParams \<Rightarrow> string \<Rightarrow> nat \<Rightarrow> clickhouse \<times> CostBreakdownItem list result" where
  "GetCostBreakdown st params groupBy limit =
     (if needsCrossDimensional params groupBy then getCostCrossDimensional st params groupBy limit
      else if groupBy = ''model'' then getCostByModel st params limit
      else if groupBy = ''feature'' then getCostByTag st params ''feature'' limit
      else if groupBy = ''project'' then getCostByProject st params limit
      else getCostByModel st params limit)"

section \<open>Time series\<close>

text \<open>The start of a day or hour as an instant; \<open>toStartOfWeek\<close> is the Sunday before.\<close>

definition day_time :: "int \<Rightarrow> gotime" where "day_time d = \<lparr>t_ns = d * (24 * hour), t_off = 0\<rparr>"
definition hour_time :: "int \<Rightarrow> gotime" where "hour_time h = \<lparr>t_ns = h * hour, t_off = 0\<rparr>"
definition toStartOfWeek :: "int \<Rightarrow> int" where "toStartOfWeek d = d - (d + 4) mod 7"

definition points :: "(int \<Rightarrow> gotime) \<Rightarrow> (f64 list \<Rightarrow> f64) \<Rightarrow> (int \<times> (f64 \<times> u64) list) list \<Rightarrow> TimeseriesPoint list" where
  "points at_time ssum groups =
     map (\<lambda>(ts, rs). \<lparr>tp_Timestamp = at_time ts, tp_CostUSD = ssum (map fst rs),
                      tp_Requests = (\<Sum>r \<leftarrow> rs. snd r)\<rparr>)
       (sort_key fst groups)"

definition getTimeseriesTotal ::
    "clickhouse \<Rightarrow> DashboardQueryParams \<Rightarrow> string \<Rightarrow> clickhouse \<times> TimeseriesSeries list result" where
  "getTimeseriesTotal st params granularity =
     ch_query (\<lambda>st.
       [\<lparr>ts_Group = ''_total'',
         ts_Points =
           (if granularity = ''hour''
            then points hour_time (ch_sum st)
                   (map (\<lambda>(h, rs). (h, map (\<lambda>r. (hr_cost r, hr_requests r)) rs))
                     (group_by hr_hour (overview_rows st params)))
            else let day_of = (if granularity = ''week'' then toStartOfWeek \<circ> mr_date else mr_date)
                 in points day_time (ch_sum st)
                      (map (\<lambda>(d, rs). (d, map (\<lambda>r. (mr_cost r, mr_requests r)) rs))
                        (group_by day_of (model_rows st params))))\<rparr>]) st"

text \<open>
  The split of the detail rows (instant, group, cost, requests; by instant) over the top groups
  and the series of the others, in the map from groups to series that the code keeps.
\<close>

definition add_point :: "gotime \<Rightarrow> f64 \<Rightarrow> u64 \<Rightarrow> TimeseriesPoint list \<Rightarrow> TimeseriesPoint list" where
  "add_point ts cost requests ps =
     (if 0 < length ps \<and> t_ns (tp_Timestamp (last ps)) = t_ns ts
      then ps[length ps - 1 := (last ps)\<lparr>tp_CostUSD := fadd (tp_CostUSD (last ps)) cost,
                                         tp_Requests := tp_Requests (last ps) + requests\<rparr>]
      else ps @ [\<lparr>tp_Timestamp = ts, tp_CostUSD = cost, tp_Requests = requests\<rparr>])"

fun bucket_loop ::
    "string list \<Rightarrow> (gotime \<times> string \<times> f64 \<times> u64) list \<Rightarrow> (string \<Rightarrow> TimeseriesPoint list)
     \<Rightarrow> (string \<Rightarrow> TimeseriesPoint list)" where
  "bucket_loop topGroups [] seriesMap = seriesMap"
| "bucket_loop topGroups ((ts, g, cost, requests) # rows) seriesMap =
     (let target = (if g \<in> set topGroups then g else ''_other'')
      in bucket_loop topGroups rows
           (seriesMap(target := add_point ts cost requests (seriesMap target))))"

definition bucket_series ::
    "string list \<Rightarrow> (gotime \<times> string \<times> f64 \<times> u64) list \<Rightarrow> TimeseriesSeries list" where
  "bucket_series topGroups rows =
     (let seriesMap = bucket_loop topGroups rows (\<lambda>_. []) in
      map (\<lambda>g. \<lparr>ts_Group = g, ts_Points = seriesMap g\<rparr>)
        (filter (\<lambda>g. 0 < length (seriesMap g)) topGroups)
      @ (if 0 < length (seriesMap ''_other'')
         then [\<lparr>ts_Group = ''_other'', ts_Points = seriesMap ''_other''\<rparr>] else []))"

definition top_groups :: "(f64 list \<Rightarrow> f64) \<Rightarrow> (string \<times> f64) list \<Rightarrow> string list" where
  "top_groups ssum rows =
     map fst (top_by snd 5 (map (\<lambda>(g, rs). (g, ssum (map snd rs))) (group_by fst rows)))"

definition detail_rows ::
    "(int \<Rightarrow> gotime) \<Rightarrow> (f64 list \<Rightarrow> f64) \<Rightarrow> (int \<times> string \<times> f64 \<times> u64) list
     \<Rightarrow> (gotime \<times> string \<times> f64 \<times> u64) list" where
  "detail_rows at_time ssum rows =
     map (\<lambda>((ts, g), rs). (at_time ts, g, ssum (map (\<lambda>(_, _, c, _). c) rs), \<Sum>(_, _, _, n) \<leftarrow> rs. n))
       (sort_key (fst \<circ> fst) (group_by (\<lambda>(ts, g, _, _). (ts, g)) rows))"

definition model_detail :: "clickhouse \<Rightarrow> DashboardQueryParams \<Rightarrow> string \<Rightarrow> (int \<times> string \<times> f64 \<times> u64) list" where
  "model_detail st params granularity =
     map (\<lambda>r. (if granularity = ''week'' then toStartOfWeek (mr_date r) else mr_date r,
               mr_model r, mr_cost r, mr_requests r)) (model_rows st params)"

definition getTimeseriesByModel ::
    "clickhouse \<Rightarrow> DashboardQueryParams \<Rightarrow> string \<Rightarrow> clickhouse \<times> TimeseriesSeries list result" where
  "getTimeseriesByModel st params granularity =
     (case ch_query (\<lambda>st. top_groups (ch_sum st) (map (\<lambda>r. (mr_model r, mr_cost r)) (model_rows st params))) st of
        (st, Inl e) \<Rightarrow> (st, Inl e)
      | (st, Inr topModels) \<Rightarrow>
          ch_query (\<lambda>st. bucket_series topModels
             (detail_rows day_time (ch_sum st) (model_detail st params granularity))) st)"

definition feature_rows :: "clickhouse \<Rightarrow> DashboardQueryParams \<Rightarrow> event_row list" where
  "feature_rows st params =
     filter (\<lambda>r. event_where params r \<and> feature_tag r \<noteq> []) (final_rows (ch_events st))"

text \<open>\<open>tsExpr\<close>: the bucket of an event.\<close>

definition feature_ts :: "string \<Rightarrow> event_row \<Rightarrow> int" where
  "feature_ts granularity r =
     (if granularity = ''hour'' then toStartOfHour (cr_timestamp r)
      else if granularity = ''week'' then toStartOfWeek (toDate (cr_timestamp r))
      else toDate (cr_timestamp r))"

definition getTimeseriesByFeature ::
    "clickhouse \<Rightarrow> DashboardQueryParams \<Rightarrow> string \<Rightarrow> clickhouse \<times> TimeseriesSeries list result" where
  "getTimeseriesByFeature st params granularity =
     (case ch_query (\<lambda>st. top_groups (ch_sum st)
                (map (\<lambda>r. (feature_tag r, cr_cost_usd r)) (feature_rows st params))) st of
        (st, Inl e) \<Rightarrow> (st, Inl e)
      | (st, Inr topFeatures) \<Rightarrow>
          ch_query (\<lambda>st. bucket_series topFeatures
             (detail_rows (if granularity = ''hour'' then hour_time else day_time) (ch_sum st)
               (map (\<lambda>r. (feature_ts granularity r, feature_tag r, cr_cost_usd r, 1))
                 (feature_rows st params)))) st)"

definition GetCostTimeseries ::
    "clickhouse \<Rightarrow> DashboardQueryParams \<Rightarrow> string \<Rightarrow> string \<Rightarrow> clickhouse \<times> TimeseriesSeries list result" where
  "GetCostTimeseries st params groupBy granularity =
     (if groupBy = ''model'' then getTimeseriesByModel st params granularity
      else if groupBy = ''feature'' then getTimeseriesByFeature st params granularity
      else getTimeseriesTotal st params granularity)"

section \<open>Comparison of two periods\<close>

definition period_total :: "CostBreakdownItem list \<Rightarrow> CostComparePeriod" where
  "period_total items =
     foldl (\<lambda>t item. t\<lparr>cp_TotalCost := fadd (cp_TotalCost t) (cb_CostUSD item),
                      cp_Requests := cp_Requests t + cb_Requests item\<rparr>)
       \<lparr>cp_TotalCost = 0, cp_Requests = 0\<rparr> items"

definition period_changes :: "CostComparePeriod \<Rightarrow> CostComparePeriod \<Rightarrow> CostCompareChanges" where
  "period_changes cur prev =
     \<lparr>cc_CostDelta = fsub (cp_TotalCost cur) (cp_TotalCost prev),
      cc_CostPercent =
        (if 0 < cp_TotalCost prev
         then Some (fmul (fdiv (fsub (cp_TotalCost cur) (cp_TotalCost prev)) (cp_TotalCost prev)) 100)
         else None),
      cc_RequestPercent =
        (if 0 < cp_Requests prev
         then Some (fmul (fdiv (f64_of_u64 (cp_Requests cur - cp_Requests prev))
                     (f64_of_u64 (cp_Requests prev))) 100)
         else None)\<rparr>"

definition prevMap :: "CostBreakdownItem list \<Rightarrow> (string \<rightharpoonup> CostBreakdownItem)" where
  "prevMap items = foldl (\<lambda>m item. m(cb_Group item \<mapsto> item)) Map.empty items"

definition compare_entry :: "(string \<rightharpoonup> CostBreakdownItem) \<Rightarrow> CostBreakdownItem \<Rightarrow> CostCompareBreakdownItem" where
  "compare_entry prev_of cur =
     (let entry = \<lparr>ci_Group = cb_Group cur, ci_CurrentCost = cb_CostUSD cur, ci_PreviousCost = 0,
                   ci_CostChange = None, ci_Requests = cb_Requests cur\<rparr>
      in (case prev_of (cb_Group cur) of
            None \<Rightarrow> entry
          | Some prev \<Rightarrow>
              let entry = entry\<lparr>ci_PreviousCost := cb_CostUSD prev\<rparr> in
              if 0 < cb_CostUSD prev
              then entry\<lparr>ci_CostChange :=
                     Some (fmul (fdiv (fsub (cb_CostUSD cur) (cb_CostUSD prev)) (cb_CostUSD prev)) 100)\<rparr>
              else entry))"

definition GetCostCompare ::
    "clickhouse \<Rightarrow> DashboardQueryParams \<Rightarrow> DashboardQueryParams \<Rightarrow> string \<Rightarrow> nat
     \<Rightarrow> clickhouse \<times> CostCompareResponse result" where
  "GetCostCompare st currentParams previousParams groupBy limit =
     (case GetCostBreakdown st currentParams groupBy limit of
        (st, Inl e) \<Rightarrow> (st, Inl e)
      | (st, Inr currentItems) \<Rightarrow>
          (case GetCostBreakdown st previousParams groupBy limit of
             (st, Inl e) \<Rightarrow> (st, Inl e)
           | (st, Inr previousItems) \<Rightarrow>
               (st, Inr \<lparr>cmp_Current = period_total currentItems,
                         cmp_Previous = period_total previousItems,
                         cmp_Changes = period_changes (period_total currentItems) (period_total previousItems),
                         cmp_Breakdown = map (compare_entry (prevMap previousItems)) currentItems\<rparr>)))"

section \<open>Filter values\<close>

definition distinct_values :: "string list \<Rightarrow> string list" where
  "distinct_values vs = take 100 (sort (remdups vs))"

definition GetCostFilters ::
    "clickhouse \<Rightarrow> DashboardQueryParams \<Rightarrow> clickhouse \<times> CostFiltersResponse result" where
  "GetCostFilters st params =
     (case ch_query (\<lambda>st. distinct_values (map mr_model (model_rows st params))) st of
        (st, Inl e) \<Rightarrow> (st, Inl e)
      | (st, Inr models) \<Rightarrow>
          (case ch_query (\<lambda>st. distinct_values (map mr_provider (model_rows st params))) st of
             (st, Inl e) \<Rightarrow> (st, Inl e)
           | (st, Inr providers) \<Rightarrow>
               (case ch_query (\<lambda>st. distinct_values (map tr_value (tag_rows st params ''feature''))) st of
                  (st, Inl e) \<Rightarrow> (st, Inl e)
                | (st, Inr features) \<Rightarrow>
                    (st, Inr \<lparr>cf_Models = models, cf_Providers = providers, cf_Features = features\<rparr>))))"

section \<open>Tenant isolation\<close>

text \<open>The store as if only one organisation had ever sent events.\<close>

definition restrict_org :: "u64 \<Rightarrow> clickhouse \<Rightarrow> clickhouse" where
  "restrict_org org st =
     st\<lparr>ch_events := filter (\<lambda>r. cr_org_id r = org) (ch_events st),
        ch_model := filter (\<lambda>r. mr_org r = org) (ch_model st),
        ch_model_v2 := filter (\<lambda>r. mr_org r = org) (ch_model_v2 st),
        ch_tag := filter (\<lambda>r. tr_org r = org) (ch_tag st),
        ch_tag_v2 := filter (\<lambda>r. tr_org r = org) (ch_tag_v2 st),
        ch_hour := filter (\<lambda>r. hr_org r = org) (ch_hour st),
        ch_hour_v2 := filter (\<lambda>r. hr_org r = org) (ch_hour_v2 st)\<rparr>"

lemma group_by_filter: "group_by f (filter (Q \<circ> f) xs) = filter (Q \<circ> fst) (group_by f xs)"
proof -
  have r: "remdups (map f (filter (Q \<circ> f) xs)) = filter Q (remdups (map f xs))"
    using remdups_filter [of Q "map f xs"] by (simp add: filter_map)
  have "map (\<lambda>k. (k, filter (\<lambda>x. f x = k) (filter (Q \<circ> f) xs))) (filter Q ks)
      = filter (Q \<circ> fst) (map (\<lambda>k. (k, filter (\<lambda>x. f x = k) xs)) ks)" for ks
    by (induction ks) (auto intro!: filter_cong)
  then show ?thesis by (simp add: group_by_def r)
qed

lemma group_by_nonempty: "(k, rs) \<in> set (group_by f xs) \<Longrightarrow> rs \<noteq> [] \<and> set rs \<subseteq> {x. f x = k}"
  by (auto simp: group_by_def filter_empty_conv)

lemma newest_in: "vs \<noteq> [] \<Longrightarrow> newest vs \<in> set vs"
proof -
  have "foldl (\<lambda>a b. if t_ns (cr_inserted_at a) \<le> t_ns (cr_inserted_at b) then b else a) x ys \<in> set (x # ys)"
    for x ys
  proof (induction ys arbitrary: x)
    case (Cons b ys)
    show ?case using Cons.IH [of b] Cons.IH [of x] by auto
  qed simp
  then show "vs \<noteq> [] \<Longrightarrow> newest vs \<in> set vs" unfolding newest_def by (cases vs) force+
qed

lemma final_rows_org:
  "final_rows (filter (\<lambda>r. cr_org_id r = org) rs) = filter (\<lambda>r. cr_org_id r = org) (final_rows rs)"
proof -
  have q: "(\<lambda>r. cr_org_id r = org) = ((\<lambda>(o_id, _). o_id = org) \<circ> sort_columns)"
    by (simp add: fun_eq_iff sort_columns_def)
  have "filter (\<lambda>r. cr_org_id r = org) (map (newest \<circ> snd) gs)
      = map (newest \<circ> snd) (filter ((\<lambda>(o_id, _). o_id = org) \<circ> fst) gs)"
    if "\<forall>(k, vs) \<in> set gs. vs \<noteq> [] \<and> set vs \<subseteq> {x. sort_columns x = k}" for gs
    using that
  proof (induction gs)
    case (Cons g gs)
    obtain k vs where g: "g = (k, vs)" by fastforce
    with Cons.prems have "newest vs \<in> set vs" "set vs \<subseteq> {x. sort_columns x = k}"
      by (auto intro: newest_in)
    then have "sort_columns (newest vs) = k" by blast
    with Cons g show ?case by (auto simp: sort_columns_def)
  qed simp
  moreover have "\<forall>(k, vs) \<in> set (group_by sort_columns rs). vs \<noteq> [] \<and> set vs \<subseteq> {x. sort_columns x = k}"
    by (auto dest: group_by_nonempty)
  ultimately show ?thesis unfolding final_rows_def q group_by_filter by (simp add: comp_def q)
qed

lemma restrict_rows:
  "overview_rows (restrict_org (dq_OrgID p) st) p = overview_rows st p"
  "model_rows (restrict_org (dq_OrgID p) st) p = model_rows st p"
  "tag_rows (restrict_org (dq_OrgID p) st) p k = tag_rows st p k"
  "filter (\<lambda>r. day_where p (mr_org r) (mr_date r)) (ch_model_v2 (restrict_org (dq_OrgID p) st))
     = filter (\<lambda>r. day_where p (mr_org r) (mr_date r)) (ch_model_v2 st)"
  "filter (\<lambda>r. event_where p r \<and> Q r) (final_rows (ch_events (restrict_org (dq_OrgID p) st)))
     = filter (\<lambda>r. event_where p r \<and> Q r) (final_rows (ch_events st))"
  by (auto simp: overview_rows_def model_rows_def tag_rows_def hour_table_def model_table_def
      tag_table_def restrict_org_def hour_where_def day_where_def timeArgs_def event_where_def
      final_rows_org intro!: filter_cong)

lemma restrict_stmts [simp]:
  "(restrict_org org st)\<lparr>ch_stmts := n\<rparr> = restrict_org org (st\<lparr>ch_stmts := n\<rparr>)"
  "ch_fails (restrict_org org st) = ch_fails st" "ch_stmts (restrict_org org st) = ch_stmts st"
  "ch_sum (restrict_org org st) = ch_sum st"
  by (simp_all add: restrict_org_def)

lemma ch_query_restrict:
  assumes "\<And>n. q (restrict_org org (st\<lparr>ch_stmts := n\<rparr>)) = q' (st\<lparr>ch_stmts := n\<rparr>)"
  shows "ch_query q (restrict_org org st)
     = (case ch_query q' st of (st', r) \<Rightarrow> (restrict_org org st', r))"
  using assms by (simp add: ch_query_def ch_exec_def Let_def)

lemma restrict_breakdown:
  "GetCostBreakdown (restrict_org (dq_OrgID p) st) p groupBy limit
     = (case GetCostBreakdown st p groupBy limit of (st', r) \<Rightarrow> (restrict_org (dq_OrgID p) st', r))"
proof -
  have "getCostByModel (restrict_org (dq_OrgID p) st) p limit
      = (case getCostByModel st p limit of (st', r) \<Rightarrow> (restrict_org (dq_OrgID p) st', r))"
    unfolding getCostByModel_def by (rule ch_query_restrict) (simp add: restrict_rows)
  moreover have "getCostByTag (restrict_org (dq_OrgID p) st) p k limit
      = (case getCostByTag st p k limit of (st', r) \<Rightarrow> (restrict_org (dq_OrgID p) st', r))" for k
    unfolding getCostByTag_def by (rule ch_query_restrict) (simp add: restrict_rows)
  moreover have "getCostByProject (restrict_org (dq_OrgID p) st) p limit
      = (case getCostByProject st p limit of (st', r) \<Rightarrow> (restrict_org (dq_OrgID p) st', r))"
    unfolding getCostByProject_def by (rule ch_query_restrict) (simp add: restrict_rows)
  moreover have "getCostCrossDimensional (restrict_org (dq_OrgID p) st) p groupBy limit
      = (case getCostCrossDimensional st p groupBy limit of (st', r) \<Rightarrow> (restrict_org (dq_OrgID p) st', r))"
    unfolding getCostCrossDimensional_def by (rule ch_query_restrict) (simp add: restrict_rows)
  ultimately show ?thesis by (simp add: GetCostBreakdown_def)
qed

lemma restrict_overview:
  "GetOverviewKPIs (restrict_org (dq_OrgID p) st) p
     = (case GetOverviewKPIs st p of (st', r) \<Rightarrow> (restrict_org (dq_OrgID p) st', r))"
  unfolding GetOverviewKPIs_def by (rule ch_query_restrict) (simp add: restrict_rows Let_def)

text \<open>Two queries in a row.\<close>

lemma restrict_bind:
  assumes "q1 (restrict_org org st) = (case q1 st of (st', r) \<Rightarrow> (restrict_org org st', r))"
    and "\<And>st x. q2 (restrict_org org st) x = (case q2 st x of (st', r) \<Rightarrow> (restrict_org org st', r))"
  shows "(case q1 (restrict_org org st) of (st, Inl e) \<Rightarrow> (st, Inl e) | (st, Inr x) \<Rightarrow> q2 st x)
       = (case (case q1 st of (st, Inl e) \<Rightarrow> (st, Inl e) | (st, Inr x) \<Rightarrow> q2 st x) of
            (st', r) \<Rightarrow> (restrict_org org st', r))"
  by (cases "q1 st"; cases "snd (q1 st)") (simp_all add: assms)

lemma restrict_timeseries:
  "GetCostTimeseries (restrict_org (dq_OrgID p) st) p groupBy gran
     = (case GetCostTimeseries st p groupBy gran of (st', r) \<Rightarrow> (restrict_org (dq_OrgID p) st', r))"
proof -
  have "getTimeseriesByModel (restrict_org (dq_OrgID p) st) p gran
      = (case getTimeseriesByModel st p gran of (st', r) \<Rightarrow> (restrict_org (dq_OrgID p) st', r))"
    unfolding getTimeseriesByModel_def
    by (intro restrict_bind ch_query_restrict) (simp_all add: restrict_rows model_detail_def)
  moreover have "getTimeseriesByFeature (restrict_org (dq_OrgID p) st) p gran
      = (case getTimeseriesByFeature st p gran of (st', r) \<Rightarrow> (restrict_org (dq_OrgID p) st', r))"
    unfolding getTimeseriesByFeature_def
    by (intro restrict_bind ch_query_restrict) (simp_all add: restrict_rows feature_rows_def)
  moreover have "getTimeseriesTotal (restrict_org (dq_OrgID p) st) p gran
      = (case getTimeseriesTotal st p gran of (st', r) \<Rightarrow> (restrict_org (dq_OrgID p) st', r))"
    unfolding getTimeseriesTotal_def by (rule ch_query_restrict) (simp add: restrict_rows)
  ultimately show ?thesis by (simp add: GetCostTimeseries_def)
qed

lemma restrict_filters:
  "GetCostFilters (restrict_org (dq_OrgID p) st) p
     = (case GetCostFilters st p of (st', r) \<Rightarrow> (restrict_org (dq_OrgID p) st', r))"
  unfolding GetCostFilters_def
  by (intro restrict_bind ch_query_restrict) (simp_all add: restrict_rows)

lemma restrict_compare:
  assumes "dq_OrgID p' = dq_OrgID p"
  shows "GetCostCompare (restrict_org (dq_OrgID p) st) p p' groupBy limit
     = (case GetCostCompare st p p' groupBy limit of (st', r) \<Rightarrow> (restrict_org (dq_OrgID p) st', r))"
  unfolding GetCostCompare_def
  using restrict_breakdown [of p' _ groupBy limit, unfolded assms]
  by (intro restrict_bind) (simp_all add: restrict_breakdown)

text \<open>
  What the dashboard of an organisation shows depends on its own rows only: every query
  gives the same answer when the rows of all other organisations are removed from every table.
\<close>

lemma queries_isolate_tenants:
  assumes "dq_OrgID p = org" and "dq_OrgID p' = org"
  shows "snd (GetOverviewKPIs (restrict_org org st) p) = snd (GetOverviewKPIs st p)
       \<and> snd (GetCostBreakdown (restrict_org org st) p groupBy limit)
           = snd (GetCostBreakdown st p groupBy limit)
       \<and> snd (GetCostTimeseries (restrict_org org st) p groupBy gran)
           = snd (GetCostTimeseries st p groupBy gran)
       \<and> snd (GetCostCompare (restrict_org org st) p p' groupBy limit)
           = snd (GetCostCompare st p p' groupBy limit)
       \<and> snd (GetCostFilters (restrict_org org st) p) = snd (GetCostFilters st p)"
  using restrict_overview [of p st] restrict_breakdown [of p st groupBy limit]
    restrict_timeseries [of p st groupBy gran] restrict_compare [of p' p st groupBy limit]
    restrict_filters [of p st] assms
  by (simp add: case_prod_unfold)

definition sample_params :: DashboardQueryParams where
  "sample_params =
     \<lparr>dq_OrgID = 1, dq_ProjectID = [], dq_From = \<lparr>t_ns = 1715558400 * second, t_off = 0\<rparr>,
      dq_To = \<lparr>t_ns = 1715644800 * second, t_off = 0\<rparr>, dq_Timezone = ''UTC'', dq_ModelFilter = [],
      dq_ProviderFilter = [], dq_FeatureFilter = []\<rparr>"

section \<open>Breakdowns add up\<close>

lemma sum_list_top_by:
  fixes g :: "'a \<Rightarrow> 'b::comm_monoid_add"
  assumes "length xs \<le> n"
  shows "(\<Sum>x \<leftarrow> top_by cost n xs. g x) = (\<Sum>x \<leftarrow> xs. g x)"
proof -
  have "top_by cost n xs = sort_key (\<lambda>x. - cost x) xs" using assms by (simp add: top_by_def)
  then show ?thesis
    by (metis mset_map mset_sort sum_mset_sum_list)
qed

lemma sum_group_by_all:
  fixes g :: "'a \<Rightarrow> 'b::comm_monoid_add"
  shows "(\<Sum>(k, rs) \<leftarrow> group_by f xs. \<Sum>x \<leftarrow> rs. g x) = (\<Sum>x \<leftarrow> xs. g x)"
  using sum_group_by [where Q = "\<lambda>_. True" and f = f and g = g] by (simp add: comp_def)

definition breakdown_groups :: "clickhouse \<Rightarrow> DashboardQueryParams \<Rightarrow> model_row list" where
  "breakdown_groups st p =
     filter (\<lambda>r. modelFilter p (mr_model r) \<and> providerFilter p (mr_provider r)) (model_rows st p)"

definition in_breakdown :: "DashboardQueryParams \<Rightarrow> event_row \<Rightarrow> bool" where
  "in_breakdown p r \<longleftrightarrow>
     day_where p (cr_org_id r) (toDate (cr_timestamp r)) \<and> projectFilter p (cr_project_id r)
     \<and> modelFilter p (cr_model r) \<and> providerFilter p (cr_provider r)"

lemma breakdown_view:
  assumes "model_view_ok st"
  shows "(\<Sum>r \<leftarrow> breakdown_groups st p. mr_requests r)
     = count_u64 (filter (in_breakdown p) (ch_events st))"
proof -
  let ?v2 = "dq_ProjectID p \<noteq> []"
  let ?Q = "\<lambda>(org, prj, date, model, prov). day_where p org date \<and> projectFilter p prj
                \<and> modelFilter p model \<and> providerFilter p prov"
  have "breakdown_groups st p = filter (?Q \<circ> mrow_key) (model_target ?v2 st)"
    by (auto simp: breakdown_groups_def model_rows_def model_table_def selectMV_def model_target_def
        mrow_key_def comp_def intro!: filter_cong)
  moreover have "filter (?Q \<circ> model_key ?v2) (ch_events st) = filter (in_breakdown p) (ch_events st)"
    by (rule filter_cong) (auto simp: in_breakdown_def model_key_def projectFilter_def)
  ultimately show ?thesis using assms by (simp add: model_view_ok_def)
qed


section \<open>Time series add up\<close>

definition requests_of :: "TimeseriesPoint list \<Rightarrow> u64" where
  "requests_of ps = (\<Sum>p \<leftarrow> ps. tp_Requests p)"

definition series_requests :: "TimeseriesSeries list \<Rightarrow> u64" where
  "series_requests series = (\<Sum>s \<leftarrow> series. requests_of (ts_Points s))"

lemma requests_add_point: "requests_of (add_point ts cost n ps) = requests_of ps + n"
proof (cases "0 < length ps \<and> t_ns (tp_Timestamp (last ps)) = t_ns ts")
  case True
  then obtain qs q where ps: "ps = qs @ [q]" by (metis length_greater_0_conv rev_exhaust)
  have "tp_Requests q + requests_of qs + n = requests_of qs + tp_Requests q + n" by simp
  with True ps show ?thesis
    by (simp add: add_point_def requests_of_def list_update_append add.assoc)
next
  case False
  then have "add_point ts cost n ps
      = ps @ [\<lparr>tp_Timestamp = ts, tp_CostUSD = cost, tp_Requests = n\<rparr>]"
    unfolding add_point_def by (simp only: if_False)
  then show ?thesis by (simp add: requests_of_def)
qed

lemma bucket_loop_total:
  assumes "finite K" "''_other'' \<in> K" "set tops \<subseteq> K"
  shows "(\<Sum>g \<in> K. requests_of (bucket_loop tops rows m g))
     = (\<Sum>g \<in> K. requests_of (m g)) + (\<Sum>(_, _, _, n) \<leftarrow> rows. n)"
proof (induction rows arbitrary: m)
  case (Cons row rows)
  obtain ts g c n where row: "row = (ts, g, c, n)" by (metis prod_cases4)
  let ?t = "if g \<in> set tops then g else ''_other''"
  have t: "?t \<in> K" using assms by auto
  have upd: "(\<Sum>g \<in> K. requests_of ((m(?t := add_point ts c n (m ?t))) g))
      = (\<Sum>g \<in> K. requests_of (m g)) + n"
    using sum.remove [OF assms(1) t, of "\<lambda>g. requests_of (m g)"]
      sum.remove [OF assms(1) t, of "\<lambda>g. requests_of ((m(?t := add_point ts c n (m ?t))) g)"]
    by (simp add: requests_add_point algebra_simps)
  have step: "bucket_loop tops (row # rows) m = bucket_loop tops rows (m(?t := add_point ts c n (m ?t)))"
    by (simp add: row Let_def)
  show ?case unfolding step Cons.IH upd by (simp add: row algebra_simps)
qed simp

lemma series_requests_bucket:
  assumes "distinct tops" "''_other'' \<notin> set tops"
  shows "series_requests (bucket_series tops rows) = (\<Sum>(_, _, _, n) \<leftarrow> rows. n)"
proof -
  let ?m = "bucket_loop tops rows (\<lambda>_. [])"
  have e: "requests_of [] = 0" by (simp add: requests_of_def)
  have "(\<Sum>g \<leftarrow> filter (\<lambda>g. 0 < length (?m g)) gs. requests_of (?m g)) = (\<Sum>g \<leftarrow> gs. requests_of (?m g))" for gs
    by (induction gs) (auto simp: e)
  then have "series_requests (bucket_series tops rows)
      = (\<Sum>g \<leftarrow> tops. requests_of (?m g)) + requests_of (?m ''_other'')"
    by (auto simp: series_requests_def bucket_series_def Let_def comp_def e)
  also have "\<dots> = (\<Sum>g \<in> insert ''_other'' (set tops). requests_of (?m g))"
    using assms by (simp add: sum_list_distinct_conv_sum_set add.commute)
  also have "\<dots> = (\<Sum>(_, _, _, n) \<leftarrow> rows. n)"
    by (subst bucket_loop_total) (auto simp: e)
  finally show ?thesis .
qed

lemma top_groups_facts:
  "distinct (top_groups ssum rows)" "set (top_groups ssum rows) \<subseteq> fst ` set rows"
proof -
  let ?xs = "map (\<lambda>(g, rs). (g, ssum (map snd rs))) (group_by fst rows)"
  have f: "map fst ?xs = remdups (map fst rows)" by (simp add: group_by_def comp_def)
  have "mset (map fst (sort_key (\<lambda>x. - snd x) ?xs)) = mset (map fst ?xs)"
    by (simp only: mset_map mset_sort)
  then have d: "distinct (map fst (sort_key (\<lambda>x. - snd x) ?xs))"
    by (simp only: f distinct_remdups mset_eq_imp_distinct_iff)
  have t: "top_groups ssum rows = take 5 (map fst (sort_key (\<lambda>x. - snd x) ?xs))"
    by (simp only: top_groups_def top_by_def take_map)
  show "distinct (top_groups ssum rows)" unfolding t by (rule distinct_take [OF d])
  have "set (map fst (sort_key (\<lambda>x. - snd x) ?xs)) = set (map fst ?xs)" by (simp only: set_map set_sort)
  also have "\<dots> = fst ` set rows" by (simp only: f set_remdups set_map)
  finally show "set (top_groups ssum rows) \<subseteq> fst ` set rows"
    unfolding t using set_take_subset by (rule subset_trans [rotated, OF equalityD1])
qed

lemma detail_rows_sum:
  "(\<Sum>(_, _, _, n) \<leftarrow> detail_rows at_time ssum rows. n) = (\<Sum>(_, _, _, n) \<leftarrow> rows. n)"
proof -
  have "(\<Sum>(_, _, _, n) \<leftarrow> detail_rows at_time ssum rows. n)
      = (\<Sum>(k, rs) \<leftarrow> sort_key (fst \<circ> fst) (group_by (\<lambda>(ts, g, _, _). (ts, g)) rows). \<Sum>(_, _, _, n) \<leftarrow> rs. n)"
    by (simp add: detail_rows_def comp_def case_prod_unfold)
  also have "\<dots> = (\<Sum>(k, rs) \<leftarrow> group_by (\<lambda>(ts, g, _, _). (ts, g)) rows. \<Sum>(_, _, _, n) \<leftarrow> rs. n)"
    by (metis (no_types, lifting) mset_map mset_sort sum_mset_sum_list)
  also have "\<dots> = (\<Sum>(_, _, _, n) \<leftarrow> rows. n)" by (rule sum_group_by_all)
  finally show ?thesis .
qed

text \<open>
  C20: When no model is called \<open>_other\<close>, the split of the time series over the five costliest
  models and the rest loses and duplicates no request.
\<close>

theorem getTimeseriesByModel_total:
  assumes "getTimeseriesByModel st p gran = (st', Inr series)"
    and "''_other'' \<notin> mr_model ` set (model_rows st p)"
  shows "series_requests series = (\<Sum>r \<leftarrow> model_rows st p. mr_requests r)"
proof -
  let ?tops = "top_groups (ch_sum st) (map (\<lambda>r. (mr_model r, mr_cost r)) (model_rows st p))"
  have rows: "model_rows (st\<lparr>ch_stmts := n\<rparr>) p = model_rows st p" for n
    by (simp add: model_rows_def model_table_def)
  from assms(1) have "series = bucket_series ?tops (detail_rows day_time (ch_sum st) (model_detail st p gran))"
    by (auto simp: getTimeseriesByModel_def ch_query_def ch_exec_def Let_def rows model_detail_def
        split: if_splits)
  moreover have "''_other'' \<notin> set ?tops"
    using top_groups_facts(2) [of "ch_sum st" "map (\<lambda>r. (mr_model r, mr_cost r)) (model_rows st p)"] assms(2)
    by auto
  ultimately have "series_requests series = (\<Sum>(_, _, _, n) \<leftarrow> model_detail st p gran. n)"
    by (simp add: series_requests_bucket top_groups_facts(1) detail_rows_sum)
  then show ?thesis by (simp add: model_detail_def comp_def)
qed

definition one_event_store :: clickhouse where
  "one_event_store = fst (InsertEvents Some zero_time sample_store [sample_llm_event])"

definition one_event_limit :: nat where
  "one_event_limit =
     length (group_by (\<lambda>r. (mr_model r, mr_provider r)) (breakdown_groups one_event_store sample_params))"

lemma one_event_reachable: "ch_step\<^sup>*\<^sup>* (ch_empty sum_list (\<lambda>_. False) (\<lambda>_. False)) one_event_store"
  unfolding one_event_store_def sample_store_def by (rule r_into_rtranclp, rule ch_step.insert_events)

lemma one_event_up: "\<not> ch_fails one_event_store n"
  by (simp add: one_event_store_def InsertEvents_def ch_query_def ch_exec_def batch_Send_def Let_def
      insert_block_def sample_store_def ch_empty_def)


theorem getTimeseriesByModel_total_witness:
  "\<exists>series. snd (getTimeseriesByModel filled_store sample_params ''day'') = Inr series
     \<and> series_requests series = (\<Sum>r \<leftarrow> model_rows filled_store sample_params. mr_requests r)"
proof -
  have "\<not> ch_fails filled_store n" for n
    by (simp add: filled_store_def sample_store_def ch_empty_def insert_block_def)
  then obtain st' series where
    s: "getTimeseriesByModel filled_store sample_params ''day'' = (st', Inr series)"
    by (simp add: getTimeseriesByModel_def ch_query_def ch_exec_def Let_def)
  have "mr_model ` set (mv_cost_by_model_daily v2 ssum b) \<subseteq> cr_model ` set b" for v2 ssum b
    by (auto simp: mv_cost_by_model_daily_def group_by_def)
  moreover have "ch_model filled_store = mv_cost_by_model_daily False sum_list [sample_row]"
    by (simp add: filled_store_def insert_block_def sample_store_def ch_empty_def)
  moreover have "set (model_rows filled_store sample_params) \<subseteq> set (ch_model filled_store)"
    by (auto simp: model_rows_def model_table_def selectMV_def sample_params_def)
  ultimately have "mr_model ` set (model_rows filled_store sample_params) \<subseteq> {cr_model sample_row}"
    by fastforce
  moreover have "''_other'' \<notin> {cr_model sample_row}"
    by (simp add: sample_row_def event_to_row_def sample_llm_event_def Let_def)
  ultimately have other: "''_other'' \<notin> mr_model ` set (model_rows filled_store sample_params)"
    by (rule contra_subsetD)
  have "snd (getTimeseriesByModel filled_store sample_params ''day'') = Inr series" by (simp only: s snd_conv)
  with getTimeseriesByModel_total [OF s other] show ?thesis by blast
qed

text \<open>A group that is itself called \<open>_other\<close> is reported twice.\<close>

lemma bucket_series_other_twice:
  "series_requests (bucket_series [''_other''] [(ts, ''_other'', c, n)]) = n + n"
  by (simp add: bucket_series_def Let_def add_point_def series_requests_def requests_of_def)

section \<open>Percentages\<close>

lemma f64_of_u64_range:
  assumes "0 < w"
  shows "1 \<le> f64_of_u64 w" "f64_of_u64 w \<le> 2 ^ 65"
proof -
  have "fl (of_nat 1) = of_nat 1" by (rule fl_of_nat) simp
  moreover have "1 \<le> unat w" using assms by (simp add: word_less_nat_alt)
  ultimately show l: "1 \<le> f64_of_u64 w"
    using fl_mono [of "of_nat 1" "of_nat (unat w)"] by (simp add: f64_of_u64_def del: of_nat_unat)
  have "unat w \<le> 2 ^ 64" using unsigned_less [of w, where 'a = nat] by simp
  then have "(of_nat (unat w) :: rat) \<le> of_nat (2 ^ 64)" by (rule of_nat_mono)
  then have "f64_of_u64 w \<le> fl 18446744073709551616"
    unfolding f64_of_u64_def by (intro fl_mono) simp
  also have "fl 18446744073709551616 = 18446744073709551616" by code_simp
  finally show "f64_of_u64 w \<le> 2 ^ 65" by simp
qed

text \<open>
  When the requests fall from one period to the next, the unsigned difference wraps around
  and the comparison reports a positive change.
\<close>

lemma period_changes_fall_is_rise:
  assumes "cp_Requests cur < cp_Requests prev"
  shows "\<exists>x. cc_RequestPercent (period_changes cur prev) = Some x \<and> 0 < x"
proof -
  let ?d = "cp_Requests cur - cp_Requests prev"
  have p: "0 < cp_Requests prev" using assms by (rule le_less_trans [rotated]) simp
  have d: "0 < ?d" using assms by (simp add: word_gt_0)
  have grow: "1 / 10 ^ 20 \<le> F * 100" and pos: "0 < F" if "x / 2 \<le> F" "1 / 10 ^ 20 \<le> x" for x F :: rat
  proof -
    have "0 < x" using that(2) by (rule order_less_le_trans [rotated]) simp
    with that show "1 / 10 ^ 20 \<le> F * 100" "0 < F" by linarith+
  qed
  have q: "1 / 10 ^ 20 \<le> f64_of_u64 ?d / f64_of_u64 (cp_Requests prev)"
  proof -
    have "(1 :: rat) / 10 ^ 20 \<le> 1 / 2 ^ 65" by simp
    also have "\<dots> \<le> f64_of_u64 ?d / f64_of_u64 (cp_Requests prev)"
      using f64_of_u64_range [OF d] f64_of_u64_range [OF p] by (intro frac_le) simp_all
    finally show ?thesis .
  qed
  have "1 / 10 ^ 20 \<le> fdiv (f64_of_u64 ?d) (f64_of_u64 (cp_Requests prev)) * 100"
    unfolding fdiv_def by (rule grow [OF fl_half [OF q] q])
  from fl_half [OF this] this
  have "0 < fmul (fdiv (f64_of_u64 ?d) (f64_of_u64 (cp_Requests prev))) 100"
    unfolding fmul_def by (rule pos)
  with p show ?thesis by (simp add: period_changes_def)
qed

end
