(* ===== verification/Pg_Steps.thy ===== *)
theory Pg_Steps
  imports Ingest_Middleware
begin

text \<open>
  Handlers as sequences of small steps. A program is a function from a state to the new state and a
  result; \<open>runs step q\<close> says that \<open>q\<close> takes every state to one that \<open>step\<close> relates to it. The
  locale \<open>handler_steps\<close> proves once, for every reflexive and transitive \<open>step\<close>, that the
  combinations that handler code is made of keep this; its rules follow the shape of the code. The
  first interpretation is the one for PostgreSQL: handlers change it only by the operations of
  \<open>Postgres_Store\<close>, so that what every such operation keeps (\<open>pg_step\<close>) the handler keeps.
\<close>

definition runs :: "('s \<Rightarrow> 's \<Rightarrow> bool) \<Rightarrow> ('s \<Rightarrow> 's \<times> 'r) \<Rightarrow> bool" where
  "runs step q \<longleftrightarrow> (\<forall>st. step st (fst (q st)))"

lemma runsI: "(\<And>st. step st (fst (q st))) \<Longrightarrow> runs step q"
  by (simp add: runs_def)

lemma runsD: "runs step q \<Longrightarrow> step st (fst (q st))"
  by (simp add: runs_def)

lemma find_in_set: "find P xs = Some x \<Longrightarrow> x \<in> set xs"
  by (induction xs) (auto split: if_splits)

locale handler_steps =
  fixes step :: "'s \<Rightarrow> 's \<Rightarrow> bool"
  assumes step_refl: "step s s"
    and step_trans: "step s1 s2 \<Longrightarrow> step s2 s3 \<Longrightarrow> step s1 s3"
begin

lemma runs_return: "runs step (\<lambda>st. (st, x))"
  by (simp add: runs_def step_refl)

lemma runs_bind:
  assumes "runs step q" "\<And>x. runs step (\<lambda>st. f st x)"
  shows "runs step (\<lambda>st. case q st of (st', x) \<Rightarrow> f st' x)"
  using assms by (auto simp: runs_def case_prod_unfold intro: step_trans)

lemma runs_let_state:
  assumes "runs step q" "runs step f"
  shows "runs step (\<lambda>st. let st' = fst (q st) in f st')"
  using assms by (auto simp: runs_def intro: step_trans)

lemma runs_let: "(\<And>x. runs step (\<lambda>st. f x st)) \<Longrightarrow> runs step (\<lambda>st. let x = v in f x st)"
  by simp

lemma runs_if: "runs step f \<Longrightarrow> runs step g \<Longrightarrow> runs step (\<lambda>st. if b then f st else g st)"
  by (cases b) simp_all

lemma runs_sum:
  "(\<And>e. runs step (\<lambda>st. l e st)) \<Longrightarrow> (\<And>y. runs step (\<lambda>st. g y st))
    \<Longrightarrow> runs step (\<lambda>st. case x of Inl e \<Rightarrow> l e st | Inr y \<Rightarrow> g y st)"
  by (cases x) simp_all

lemma runs_option:
  "runs step n \<Longrightarrow> (\<And>y. runs step (\<lambda>st. s y st))
    \<Longrightarrow> runs step (\<lambda>st. case x of None \<Rightarrow> n st | Some y \<Rightarrow> s y st)"
  by (cases x) simp_all

lemma runs_prod:
  "(\<And>a b. runs step (\<lambda>st. f a b st)) \<Longrightarrow> runs step (\<lambda>st. case x of (a, b) \<Rightarrow> f a b st)"
  by (cases x) simp

lemma runs_fst: "runs step q \<Longrightarrow> runs step (\<lambda>st. (fst (q st), x))"
  by (simp add: runs_def)

lemmas runs_rules =
  runs_return runs_let_state runs_if runs_sum runs_option runs_bind runs_prod runs_let runs_fst

text \<open>A router runs one of its handlers or none.\<close>

lemma runs_ServeMux:
  assumes "\<And>m p h vs. (m, p, h) \<in> set routes \<Longrightarrow> runs step (\<lambda>st. h vs st r w)"
  shows "runs step (\<lambda>st. ServeMux routes st r w)"
proof (cases "filter (\<lambda>(m, p, h). match_path p (rq_Path r) \<noteq> None) routes")
  case Nil
  then show ?thesis by (simp add: ServeMux_def runs_return)
next
  case (Cons hit hits)
  show ?thesis
  proof (cases "find (\<lambda>(m, p, h). match_method m (rq_Method r)) (hit # hits)")
    case None
    then show ?thesis unfolding ServeMux_def Cons by (simp add: runs_return)
  next
    case (Some x)
    obtain m p h where x: "x = (m, p, h)" by (metis prod.exhaust)
    have "x \<in> set (hit # hits)" using Some by (rule find_in_set)
    then have "(m, p, h) \<in> set routes" using Cons x by (metis (no_types) filter_is_subset subsetD)
    then have "runs step (\<lambda>st. h (the (match_path p (rq_Path r))) st r w)" by (rule assms)
    then show ?thesis unfolding ServeMux_def Cons list.case Some x option.case prod.case .
  qed
qed

end

section \<open>Store operations\<close>

lemma be_pg_on_pg [simp]: "be_pg (fst (on_pg f st)) = fst (f (be_pg st))"
  by (simp add: on_pg_def case_prod_unfold)

lemma snd_on_pg [simp]: "snd (on_pg f st) = snd (f (be_pg st))"
  by (simp add: on_pg_def case_prod_unfold)

lemma be_redis_on_pg [simp]: "be_redis (fst (on_pg f st)) = be_redis st"
  by (simp add: on_pg_def case_prod_unfold)

lemma be_pg_on_redis [simp]: "be_pg (fst (on_redis f st)) = be_pg st"
  by (simp add: on_redis_def case_prod_unfold)

definition pg_reach :: "'z backends_scheme \<Rightarrow> 'z backends_scheme \<Rightarrow> bool" where
  "pg_reach st st' \<longleftrightarrow> pg_step\<^sup>*\<^sup>* (be_pg st) (be_pg st')"

interpretation pg: handler_steps pg_reach
  by unfold_locales (auto simp: pg_reach_def)

abbreviation pg_runs :: "('z backends_scheme \<Rightarrow> 'z backends_scheme \<times> 'r) \<Rightarrow> bool" where
  "pg_runs \<equiv> runs pg_reach"

lemma pg_runsI: "(\<And>st. pg_step\<^sup>*\<^sup>* (be_pg st) (be_pg (fst (q st)))) \<Longrightarrow> pg_runs q"
  by (simp add: runs_def pg_reach_def)

lemma pg_runsD: "pg_runs q \<Longrightarrow> pg_step\<^sup>*\<^sup>* (be_pg st) (be_pg (fst (q st)))"
  by (simp add: runs_def pg_reach_def)

lemma pg_query_step: "pg_step\<^sup>*\<^sup>* db (fst (pg_query q db))"
  unfolding pg_query_state by (rule r_into_rtranclp, rule pg_step.query)

lemma pg_runs_redis: "pg_runs (on_redis f)"
  by (rule pg_runsI) simp

lemma pg_runs_ops:
  "pg_runs (on_pg (\<lambda>db. GetAPIKeyByHash db h))" "pg_runs (on_pg GetAllPrices)"
  "pg_runs (on_pg (\<lambda>db. GetUserByID db u))" "pg_runs (on_pg (\<lambda>db. GetRefreshTokenByHash db h))"
  "pg_runs (on_pg (\<lambda>db. GetOrg db u))" "pg_runs (on_pg (\<lambda>db. GetOrgByUserID db u))"
  "pg_runs (on_pg CountOrgs)" "pg_runs (on_pg (\<lambda>db. ListProjects db u))"
  "pg_runs (on_pg (\<lambda>db. ListAPIKeys db u))"
  "pg_runs (on_pg (\<lambda>db. CreateOrGetUser db now email name avatar))"
  "pg_runs (on_pg (\<lambda>db. CreateRefreshToken db now u h expires))"
  "pg_runs (on_pg (\<lambda>db. RevokeRefreshToken db now tokenID))"
  "pg_runs (on_pg (\<lambda>db. RevokeAllUserTokens db now u))"
  "pg_runs (on_pg (\<lambda>db. UpdateOrg db now org))" "pg_runs (on_pg (\<lambda>db. CreateOrg db now name slug))"
  "pg_runs (on_pg (\<lambda>db. AddOrgMember db orgID u role))" "pg_runs (on_pg (\<lambda>db. CreateProject db now prj))"
  "pg_runs (on_pg (\<lambda>db. CreateAPIKey db now orgID name pre h scopes projectID))"
  "pg_runs (on_pg (\<lambda>db. RevokeAPIKey db now orgID keyID))"
  by (rule pg_runsI; simp add: GetAPIKeyByHash_def GetAllPrices_def GetUserByID_def
      GetRefreshTokenByHash_def GetOrg_def GetOrgByUserID_def CountOrgs_def ListProjects_def
      ListAPIKeys_def pg_query_step pg_step.intros r_into_rtranclp)+

lemmas pg_runs_rules = pg_runs_ops pg_runs_redis pg.runs_rules

section \<open>What every operation keeps\<close>

lemma pg_steps_wf: "pg_step\<^sup>*\<^sup>* db db' \<Longrightarrow> pg_wf db \<Longrightarrow> pg_wf db'"
  by (induction rule: rtranclp_induct) (blast intro: pg_step_wf)+

lemma pg_empty_wf: "pg_wf (pg_empty uuids fails prices)"
  by (simp add: pg_wf_def pg_empty_def)

lemma pg_exec_up:
  "\<forall>n. \<not> pg_fails db n \<Longrightarrow> pg_exec f db = f (pg_uuid db (pg_stmts db)) (db\<lparr>pg_stmts := pg_stmts db + 1\<rparr>)"
  by (simp add: pg_exec_def Let_def)

lemma pg_exec_fails:
  assumes "\<And>uuid db. pg_fails (fst (f uuid db)) = pg_fails db"
  shows "pg_fails (fst (pg_exec f db)) = pg_fails db"
  using assms by (simp add: pg_exec_def Let_def)

lemma pg_step_fails: "pg_step db db' \<Longrightarrow> pg_fails db' = pg_fails db"
  by (induction rule: pg_step.induct)
    (auto simp: pg_op_defs pg_query_def pg_exec_def Let_def split: option.split sum.split)

lemma pg_steps_fails: "pg_step\<^sup>*\<^sup>* db db' \<Longrightarrow> pg_fails db' = pg_fails db"
  by (induction rule: rtranclp_induct) (simp_all add: pg_step_fails)

end
