(* ===== verification/Dash_Middleware.thy ===== *)
theory Dash_Middleware
  imports Pg_Steps Click_Queries
begin

text \<open>
  Package \<open>middleware\<close> (\<open>common.go\<close>, \<open>cors.go\<close>, \<open>jwt.go\<close>): the middleware of the dashboard API.
  The package repeats some functions of package \<open>ingestion\<close>; those whose names would clash have
  the prefix \<open>mw_\<close>. As in \<open>Ingest_Middleware\<close>, a request is handled at one instant; logging
  and recovery from panics are in theory \<open>Server_Run\<close>. The JSON form of JWT claims is the parameter
  \<open>marshal\<close>/\<open>unmarshal\<close>.
\<close>

section \<open>The request context\<close>

definition mw_RequestIDFromContext :: "reqctx \<Rightarrow> string" where
  "mw_RequestIDFromContext c = (case ctx_RequestID c of None \<Rightarrow> [] | Some v \<Rightarrow> v)"

definition mw_OrgIDFromContext :: "reqctx \<Rightarrow> string" where
  "mw_OrgIDFromContext c = (case ctx_OrgID c of None \<Rightarrow> [] | Some v \<Rightarrow> v)"

definition UserIDFromContext :: "reqctx \<Rightarrow> string" where
  "UserIDFromContext c = (case ctx_UserID c of None \<Rightarrow> [] | Some v \<Rightarrow> v)"

definition OrgNumericFromContext :: "reqctx \<Rightarrow> u64" where
  "OrgNumericFromContext c = (case ctx_OrgNumeric c of None \<Rightarrow> 0 | Some v \<Rightarrow> v)"

section \<open>Responses\<close>

definition request_id_json :: "response \<Rightarrow> json" where
  "request_id_json w = JStr (case rs_Header w ''X-Request-Id'' of None \<Rightarrow> [] | Some v \<Rightarrow> v)"

definition meta_json :: "gotime \<Rightarrow> (string \<times> json) list \<Rightarrow> response \<Rightarrow> json" where
  "meta_json now extra w =
     JObj ([(''request_id'', request_id_json w), (''timestamp'', JTime now)] @ extra)"

definition WriteError ::
    "gotime \<Rightarrow> int \<Rightarrow> string \<Rightarrow> string \<Rightarrow> (string \<times> json) list option \<Rightarrow> response \<Rightarrow> response" where
  "WriteError now status code msg details w =
     (SetHeader ''Content-Type'' ''application/json'' w)
       \<lparr>rs_Status := status,
        rs_Body := JObj
          [(''error'', JObj ([(''code'', JStr code), (''message'', JStr msg)]
              @ (case details of None \<Rightarrow> [] | Some d \<Rightarrow> [(''details'', JObj d)]))),
           (''meta'', meta_json now [] w)]\<rparr>"

definition WriteJSON :: "gotime \<Rightarrow> int \<Rightarrow> json \<Rightarrow> response \<Rightarrow> response" where
  "WriteJSON now status data w =
     (SetHeader ''Content-Type'' ''application/json'' w)
       \<lparr>rs_Status := status, rs_Body := JObj [(''data'', data), (''meta'', meta_json now [] w)]\<rparr>"

lemma WriteError_simps [simp, go_simps]:
  "rs_Status (WriteError now st c m d w) = st"
  "rs_Cookies (WriteError now st c m d w) = rs_Cookies w"
  by (simp_all add: WriteError_def)

lemma WriteJSON_simps [simp, go_simps]:
  "rs_Status (WriteJSON now st d w) = st" "rs_Cookies (WriteJSON now st d w) = rs_Cookies w"
  by (simp_all add: WriteJSON_def)

section \<open>common.go\<close>

definition mw_generateRequestID :: "u8 list \<Rightarrow> string" where
  "mw_generateRequestID b = ''req_'' @ take 6 (EncodeToString b)"

definition mw_RequestIDMiddleware :: "u8 list \<Rightarrow> 's handler \<Rightarrow> 's handler" where
  "mw_RequestIDMiddleware b next_h st r w =
     (let reqID = mw_generateRequestID b
      in next_h st (r\<lparr>rq_Ctx := (rq_Ctx r)\<lparr>ctx_RequestID := Some reqID\<rparr>\<rparr>)
           (SetHeader ''X-Request-Id'' reqID w))"

definition ClientIP :: "request \<Rightarrow> string" where
  "ClientIP r =
     (let xff = rq_Header r ''X-Forwarded-For'' in
      if xff \<noteq> [] then TrimSpace (Split xff (CHR '','') ! 0)
      else let xri = rq_Header r ''X-Real-Ip'' in
      if xri \<noteq> [] then xri
      else (case before_last (rq_RemoteAddr r) (CHR '':'') of
              Some a \<Rightarrow> a | None \<Rightarrow> rq_RemoteAddr r))"

definition SetRateLimitHeaders :: "int \<Rightarrow> int \<Rightarrow> gotime \<Rightarrow> response \<Rightarrow> response" where
  "SetRateLimitHeaders limit remaining resetAt w =
     SetHeader ''X-RateLimit-Reset'' (dec_int (Unix resetAt))
       (SetHeader ''X-RateLimit-Remaining'' (dec_int remaining)
         (SetHeader ''X-RateLimit-Limit'' (dec_int limit) w))"

definition mw_IPRateLimitMiddleware ::
    "'s limiter \<Rightarrow> gotime \<Rightarrow> int \<Rightarrow> int \<Rightarrow> 's handler \<Rightarrow> 's handler" where
  "mw_IPRateLimitMiddleware allowIP now limit window next_h st r w =
     (case allowIP st now (ClientIP r) limit window of
        (st, Inl _) \<Rightarrow> next_h st r w
      | (st, Inr (allowed, remaining, resetAt)) \<Rightarrow>
          let w = SetRateLimitHeaders limit remaining resetAt w in
          if \<not> allowed
          then let retryAfter = Sub resetAt now div second + 1
               in (st, WriteError now 429 ''RATE_LIMIT_EXCEEDED'' ''Rate limit exceeded''
                     (Some [(''limit'', JInt limit), (''retry_after_ms'', JInt (retryAfter * 1000))])
                     (SetHeader ''Retry-After'' (dec_int retryAfter) w))
          else next_h st r w)"

section \<open>cors.go\<close>

definition originSet :: "string \<Rightarrow> string \<Rightarrow> bool" where
  "originSet allowedOrigins origin \<longleftrightarrow>
     origin \<in> set (map TrimSpace (Split allowedOrigins (CHR '','')))"

definition cors_headers :: "string \<Rightarrow> response \<Rightarrow> response" where
  "cors_headers origin w =
     SetHeader ''Access-Control-Max-Age'' ''86400''
       (SetHeader ''Access-Control-Allow-Methods'' ''GET, POST, PUT, DELETE, OPTIONS''
         (SetHeader ''Access-Control-Allow-Headers'' ''Content-Type, Authorization, X-Internal-Secret''
           (SetHeader ''Access-Control-Allow-Credentials'' ''true''
             (SetHeader ''Access-Control-Allow-Origin'' origin w))))"

definition CORSMiddleware :: "string \<Rightarrow> 's handler \<Rightarrow> 's handler" where
  "CORSMiddleware allowedOrigins next_h st r w =
     (let origin = rq_Header r ''Origin'';
          w = (if originSet allowedOrigins origin then cors_headers origin w else w)
      in if rq_Method r = ''OPTIONS'' then (st, w\<lparr>rs_Status := 204\<rparr>)
         else next_h st r w)"

section \<open>jwt.go\<close>

definition claims_ctx :: "JWTClaims \<Rightarrow> reqctx \<Rightarrow> reqctx" where
  "claims_ctx claims c =
     c\<lparr>ctx_UserID := Some (cl_Sub claims), ctx_OrgID := Some (cl_Org claims),
       ctx_OrgNumeric := Some (cl_OrgNumeric claims), ctx_OrgTier := Some (cl_Tier claims),
       ctx_Role := Some (cl_Role claims)\<rparr>"

definition JWTAuthMiddleware ::
    "(string \<Rightarrow> JWTClaims option) \<Rightarrow> gotime \<Rightarrow> string \<Rightarrow> 's handler \<Rightarrow> 's handler" where
  "JWTAuthMiddleware unmarshal now secret next_h st r w =
     (case Cookie r ''pm_session'' of
        None \<Rightarrow> (st, WriteError now 401 ''UNAUTHORIZED'' ''Authentication required'' None w)
      | Some v \<Rightarrow>
          if v = [] then (st, WriteError now 401 ''UNAUTHORIZED'' ''Authentication required'' None w)
          else (case VerifyJWT unmarshal (Unix now) v secret of
                  Inl err \<Rightarrow>
                    if err = ErrTokenExpired
                    then (st, WriteError now 401 ''TOKEN_EXPIRED'' ''Token expired, refresh required'' None w)
                    else (st, WriteError now 401 ''UNAUTHORIZED'' ''Invalid token'' None w)
                | Inr claims \<Rightarrow> next_h st (r\<lparr>rq_Ctx := claims_ctx claims (rq_Ctx r)\<rparr>) w))"

definition autologin_claims :: "string \<Rightarrow> string \<Rightarrow> u64 \<Rightarrow> JWTClaims" where
  "autologin_claims user org orgNumeric =
     \<lparr>cl_Sub = user, cl_Org = org, cl_OrgNumeric = orgNumeric, cl_Role = ''owner'',
      cl_Tier = TierFree, cl_Iat = 0, cl_Exp = 0\<rparr>"

definition session_cookie :: "string \<Rightarrow> bool \<Rightarrow> int \<Rightarrow> cookie" where
  "session_cookie v secure maxAge =
     \<lparr>ck_Name = ''pm_session'', ck_Value = v, ck_Path = ''/'', ck_HttpOnly = True,
      ck_Secure = secure, ck_SameSite = ''Lax'', ck_MaxAge = maxAge\<rparr>"

text \<open>\<open>SignJWT\<close> fails only when the claims cannot be encoded, and strings and numbers always can.\<close>

definition AutoLoginMiddleware ::
    "(JWTClaims \<Rightarrow> string) \<Rightarrow> (string \<Rightarrow> JWTClaims option) \<Rightarrow> gotime \<Rightarrow> string
     \<Rightarrow> string \<Rightarrow> string \<Rightarrow> u64 \<Rightarrow> 's handler \<Rightarrow> 's handler" where
  "AutoLoginMiddleware marshal unmarshal now secret userID orgID orgNumeric next_h st r w =
     (if (case Cookie r ''pm_session'' of
            None \<Rightarrow> False
          | Some v \<Rightarrow>
              v \<noteq> [] \<and> (case VerifyJWT unmarshal (Unix now) v secret of Inl _ \<Rightarrow> False | Inr _ \<Rightarrow> True))
      then next_h st r w
      else let token = SignJWT marshal (Unix now) (autologin_claims userID orgID orgNumeric) secret
           in next_h st (AddCookie r ''pm_session'' token)
                (SetCookie (session_cookie token False 900) w))"

section \<open>Who is let in\<close>

lemma VerifyJWT_Nil: "VerifyJWT unmarshal now [] secret = Inl ErrTokenMalformed"
  by (simp add: VerifyJWT_def)

lemma claims_ctx_fill_times [simp]: "claims_ctx (fill_times n c) ctx = claims_ctx c ctx"
  by (simp add: claims_ctx_def fill_times_def)

lemma claims_ctx_simps [simp]:
  "mw_OrgIDFromContext (claims_ctx c ctx) = cl_Org c" "UserIDFromContext (claims_ctx c ctx) = cl_Sub c"
  "OrgNumericFromContext (claims_ctx c ctx) = cl_OrgNumeric c"
  by (simp_all add: claims_ctx_def mw_OrgIDFromContext_def UserIDFromContext_def OrgNumericFromContext_def)

lemma JWTAuth_accepts:
  assumes "Cookie r ''pm_session'' = Some v" "VerifyJWT unmarshal (Unix now) v secret = Inr c"
  shows "JWTAuthMiddleware unmarshal now secret h st r w = h st (r\<lparr>rq_Ctx := claims_ctx c (rq_Ctx r)\<rparr>) w"
proof -
  have "v \<noteq> []" using assms(2) by (auto simp: VerifyJWT_Nil)
  with assms show ?thesis by (simp add: JWTAuthMiddleware_def)
qed

lemma JWTAuth_rejects:
  assumes "\<And>v c. Cookie r ''pm_session'' = Some v \<Longrightarrow> VerifyJWT unmarshal (Unix now) v secret \<noteq> Inr c"
  shows "\<exists>w'. rs_Status w' = 401 \<and> (\<forall>h. JWTAuthMiddleware unmarshal now secret h st r w = (st, w'))"
proof (cases "Cookie r ''pm_session''")
  case None
  then show ?thesis by (auto simp: JWTAuthMiddleware_def)
next
  case (Some v)
  with assms obtain e where "VerifyJWT unmarshal (Unix now) v secret = Inl e"
    by (metis sumE)
  with Some show ?thesis
    by (cases "v = []"; cases "e = ErrTokenExpired") (auto simp: JWTAuthMiddleware_def)
qed

text \<open>
  C12: The session middleware answers 401 without running the handler, or runs it as the user and
  organisation of unexpired claims that are signed with the server's secret; nothing else in the
  request decides the organisation.
\<close>

theorem JWTAuthMiddleware_admits:
  "(\<exists>w'. rs_Status w' = 401 \<and> (\<forall>h. JWTAuthMiddleware unmarshal now secret h st r w = (st, w')))
   \<or> (\<exists>hdr body payload c.
        Cookie r ''pm_session''
          = Some (hdr @ ''.'' @ body @ ''.'' @ signHS256 (hdr @ ''.'' @ body) secret)
        \<and> b64_decode body = Some payload \<and> unmarshal (string_of payload) = Some c
        \<and> cl_Org c \<noteq> [] \<and> Unix now \<le> cl_Exp c
        \<and> (\<forall>h. JWTAuthMiddleware unmarshal now secret h st r w
                 = h st (r\<lparr>rq_Ctx := claims_ctx c (rq_Ctx r)\<rparr>) w))"
proof (cases "\<exists>v c. Cookie r ''pm_session'' = Some v \<and> VerifyJWT unmarshal (Unix now) v secret = Inr c")
  case True
  then obtain v c where v: "Cookie r ''pm_session'' = Some v"
    "VerifyJWT unmarshal (Unix now) v secret = Inr c" by blast
  from VerifyJWT_parts [OF v(2)] obtain hdr body payload where
    "v = hdr @ ''.'' @ body @ ''.'' @ signHS256 (hdr @ ''.'' @ body) secret"
    "b64_decode body = Some payload" "unmarshal (string_of payload) = Some c"
    "cl_Org c \<noteq> []" "Unix now \<le> cl_Exp c" by blast
  with v(1) show ?thesis
    by - (rule disjI2, rule exI [of _ hdr], rule exI [of _ body], rule exI [of _ payload],
        rule exI [of _ c],
        simp add: JWTAuth_accepts [OF v])
next
  case False
  then show ?thesis by (intro disjI1 JWTAuth_rejects) blast
qed

text \<open>
  In autologin mode a request without a session cookie is served as the default user and given
  a session; one with a valid session is served as its user; but one whose cookie is empty or no
  longer valid is answered 401, because the new cookie is added after the stale one, which is the
  one that the session middleware reads.
\<close>

lemma autologin_stale_cookie:
  assumes "unmarshal (marshal (fill_times (Unix now) (autologin_claims user org n)))
             = Some (fill_times (Unix now) (autologin_claims user org n))"
    and "user \<noteq> []" "org \<noteq> []"
  shows "case Cookie r ''pm_session'' of
      None \<Rightarrow> \<exists>r' w'. rq_Ctx r' = claims_ctx (autologin_claims user org n) (rq_Ctx r)
        \<and> (\<exists>c. rs_Cookies w' = rs_Cookies w @ [c] \<and> ck_Name c = ''pm_session'')
        \<and> AutoLoginMiddleware marshal unmarshal now secret user org n
            (JWTAuthMiddleware unmarshal now secret h) st r w = h st r' w'
    | Some v \<Rightarrow>
        (case VerifyJWT unmarshal (Unix now) v secret of
           Inr c \<Rightarrow> AutoLoginMiddleware marshal unmarshal now secret user org n
               (JWTAuthMiddleware unmarshal now secret h) st r w
               = h st (r\<lparr>rq_Ctx := claims_ctx c (rq_Ctx r)\<rparr>) w
         | Inl _ \<Rightarrow> \<exists>w'. rs_Status w' = 401
             \<and> AutoLoginMiddleware marshal unmarshal now secret user org n
                 (JWTAuthMiddleware unmarshal now secret h) st r w = (st, w'))"
proof (cases "Cookie r ''pm_session''")
  case None
  let ?c = "autologin_claims user org n" let ?t = "SignJWT marshal (Unix now) ?c secret"
  let ?r = "AddCookie r ''pm_session'' ?t"
  have "VerifyJWT unmarshal (Unix now) ?t secret = Inr (fill_times (Unix now) ?c)"
    using assms VerifyJWT_SignJWT [where marshal = marshal and c = ?c and now = "Unix now"
        and unmarshal = unmarshal and now' = "Unix now" and secret = secret]
    by (simp add: fill_times_def autologin_claims_def DefaultJWTExpiry_def)
  moreover have "Cookie ?r ''pm_session'' = Some ?t" by (simp add: Cookie_AddCookie None)
  ultimately have "JWTAuthMiddleware unmarshal now secret h st ?r w'
      = h st (?r\<lparr>rq_Ctx := claims_ctx ?c (rq_Ctx ?r)\<rparr>) w'" for w'
    by (simp add: JWTAuth_accepts)
  then have "AutoLoginMiddleware marshal unmarshal now secret user org n
            (JWTAuthMiddleware unmarshal now secret h) st r w
      = h st (?r\<lparr>rq_Ctx := claims_ctx ?c (rq_Ctx ?r)\<rparr>) (SetCookie (session_cookie ?t False 900) w)"
    by (simp add: None AutoLoginMiddleware_def Let_def)
  moreover have "rq_Ctx (?r\<lparr>rq_Ctx := claims_ctx ?c (rq_Ctx ?r)\<rparr>) = claims_ctx ?c (rq_Ctx r)"
    by (simp add: AddCookie_def)
  moreover have "ck_Name (session_cookie ?t False 900) = ''pm_session''"
    by (simp add: session_cookie_def)
  ultimately show ?thesis unfolding None option.case rs_SetCookie by (metis rs_SetCookie(4))
next
  case (Some v)
  show ?thesis
  proof (cases "VerifyJWT unmarshal (Unix now) v secret")
    case (Inl e)
    have "\<exists>w''. rs_Status w'' = 401 \<and>
        (\<forall>h. JWTAuthMiddleware unmarshal now secret h st (AddCookie r ''pm_session'' t) w' = (st, w''))" for t w'
      by (rule JWTAuth_rejects) (auto simp: Cookie_AddCookie Some Inl)
    then show ?thesis using Some Inl by (simp add: AutoLoginMiddleware_def Let_def) blast
  next
    case (Inr c)
    then have "v \<noteq> []" by (auto simp: VerifyJWT_Nil)
    with Some Inr show ?thesis by (simp add: AutoLoginMiddleware_def JWTAuth_accepts)
  qed
qed

end
