(* ===== verification/Dash_Params.thy ===== *)
theory Dash_Params
  imports Dash_Middleware
begin

text \<open>
  Package \<open>handlers\<close>, \<open>params.go\<close>, and what the read-only dashboard handlers share: the state of
  the dashboard server, the parameters of a query, the cache key and the JSON form of results.
  \<open>time.LoadLocation\<close> consults the zone database \<open>tz\<close> of the host.
\<close>

record dashboard = backends +
  ds_ch :: clickhouse

definition on_ch :: "(clickhouse \<Rightarrow> clickhouse \<times> 'r) \<Rightarrow> dashboard \<Rightarrow> dashboard \<times> 'r" where
  "on_ch f st = (case f (ds_ch st) of (ch, r) \<Rightarrow> (st\<lparr>ds_ch := ch\<rparr>, r))"

section \<open>params.go\<close>

definition validPeriods :: "string \<Rightarrow> int option" where
  "validPeriods period =
     (if period = ''1d'' then Some (24 * hour)
      else if period = ''7d'' then Some (7 * 24 * hour)
      else if period = ''30d'' then Some (30 * 24 * hour)
      else if period = ''90d'' then Some (90 * 24 * hour) else None)"

definition validGroupBy :: "string \<Rightarrow> bool" where
  "validGroupBy g \<longleftrightarrow> g = ''model'' \<or> g = ''feature'' \<or> g = ''project''"

definition granularityForPeriod :: "string \<Rightarrow> string" where
  "granularityForPeriod period =
     (if period = ''1d'' then ''hour''
      else if period = ''7d'' \<or> period = ''30d'' then ''day''
      else if period = ''90d'' then ''week'' else ''day'')"

definition parseDashboardParams ::
    "tzdb \<Rightarrow> gotime \<Rightarrow> request \<Rightarrow> string + DashboardQueryParams \<times> string" where
  "parseDashboardParams tz now r =
     (let period = rq_Query r ''period''; period = (if period = [] then ''7d'' else period) in
      case validPeriods period of
        None \<Rightarrow> Inl (''invalid period: '' @ period)
      | Some dur \<Rightarrow>
          let zone = rq_Query r ''timezone''; zone = (if zone = [] then ''UTC'' else zone) in
          (case LoadLocation tz zone of
             None \<Rightarrow> Inl (''invalid timezone: '' @ zone)
           | Some loc \<Rightarrow>
               let to_t = In_location now loc; from_t = In_location (Add to_t (- dur)) loc in
               Inr (\<lparr>dq_OrgID = OrgNumericFromContext (rq_Ctx r), dq_ProjectID = rq_Query r ''project'',
                     dq_From = from_t, dq_To = to_t, dq_Timezone = zone, dq_ModelFilter = [],
                     dq_ProviderFilter = [], dq_FeatureFilter = []\<rparr>, period)))"

definition parseFilterParams :: "request \<Rightarrow> string \<times> string \<times> string" where
  "parseFilterParams r = (rq_Query r ''model'', rq_Query r ''provider'', rq_Query r ''feature'')"

definition cacheKey :: "string \<Rightarrow> string \<Rightarrow> string list \<Rightarrow> string" where
  "cacheKey orgID endpoint params =
     (let hash = take 12 (EncodeToString (sha256 (concat (map bytes_of params))))
      in ''dashboard:'' @ orgID @ '':'' @ endpoint @ '':'' @ hash)"

section \<open>Cached responses\<close>

text \<open>Every read-only handler answers a cached body as it is, and caches what it computes.\<close>

definition write_cached :: "string \<Rightarrow> json \<Rightarrow> response \<Rightarrow> response" where
  "write_cached hit data w =
     (SetHeader ''X-Cache'' hit (SetHeader ''Content-Type'' ''application/json'' w))\<lparr>rs_Body := data\<rparr>"

definition cached_body :: "gotime \<Rightarrow> string \<Rightarrow> dashboard \<Rightarrow> dashboard \<times> json option" where
  "cached_body now key st =
     (case on_redis (\<lambda>rd. GetCached rd now key) st of
        (st, Inl _) \<Rightarrow> (st, None) | (st, Inr b) \<Rightarrow> (st, b))"

definition cache_body :: "gotime \<Rightarrow> string \<Rightarrow> json \<Rightarrow> int \<Rightarrow> dashboard \<Rightarrow> dashboard" where
  "cache_body now key data ttl st = fst (on_redis (\<lambda>rd. SetCached rd now key data ttl) st)"

definition validation_error :: "gotime \<Rightarrow> string \<Rightarrow> response \<Rightarrow> response" where
  "validation_error now msg w = WriteError now 400 ''VALIDATION_ERROR'' msg None w"

definition internal_error :: "gotime \<Rightarrow> string \<Rightarrow> response \<Rightarrow> response" where
  "internal_error now msg w = WriteError now 500 ''INTERNAL_ERROR'' msg None w"

section \<open>JSON of the results\<close>

definition u64_json :: "u64 \<Rightarrow> json" where "u64_json n = JInt (uint n)"

definition opt_json :: "('a \<Rightarrow> json) \<Rightarrow> 'a option \<Rightarrow> json" where
  "opt_json f v = (case v of None \<Rightarrow> JNull | Some x \<Rightarrow> f x)"

definition omit_empty :: "string \<Rightarrow> string \<Rightarrow> (string \<times> json) list" where
  "omit_empty k v = (if v = [] then [] else [(k, JStr v)])"

text \<open>A list that no element was appended to is a nil slice, which is encoded as \<open>null\<close>.\<close>

definition arr_json :: "('a \<Rightarrow> json) \<Rightarrow> 'a list \<Rightarrow> json" where
  "arr_json f xs = (if xs = [] then JNull else JArr (map f xs))"

definition breakdown_json :: "CostBreakdownItem \<Rightarrow> json" where
  "breakdown_json i =
     JObj ([(''group'', JStr (cb_Group i))] @ omit_empty ''provider'' (cb_Provider i)
       @ [(''cost_usd'', JFloat (cb_CostUSD i)), (''requests'', u64_json (cb_Requests i))]
       @ (if cb_Tokens i = 0 then [] else [(''tokens'', u64_json (cb_Tokens i))])
       @ [(''percent_of_total'', JFloat (cb_PercentOfTotal i))])"

definition point_json :: "TimeseriesPoint \<Rightarrow> json" where
  "point_json p =
     JObj [(''timestamp'', JTime (tp_Timestamp p)), (''cost_usd'', JFloat (tp_CostUSD p)),
           (''requests'', u64_json (tp_Requests p))]"

definition series_json :: "TimeseriesSeries \<Rightarrow> json" where
  "series_json s = JObj [(''group'', JStr (ts_Group s)), (''points'', arr_json point_json (ts_Points s))]"

definition period_json :: "CostComparePeriod \<Rightarrow> json" where
  "period_json p = JObj [(''total_cost'', JFloat (cp_TotalCost p)), (''requests'', u64_json (cp_Requests p))]"

definition compare_json :: "CostCompareResponse \<Rightarrow> json" where
  "compare_json c =
     JObj [(''current'', period_json (cmp_Current c)), (''previous'', period_json (cmp_Previous c)),
       (''changes'', JObj
          [(''cost_delta'', JFloat (cc_CostDelta (cmp_Changes c))),
           (''cost_percent'', opt_json JFloat (cc_CostPercent (cmp_Changes c))),
           (''request_percent'', opt_json JFloat (cc_RequestPercent (cmp_Changes c)))]),
       (''breakdown'', arr_json (\<lambda>i. JObj
          [(''group'', JStr (ci_Group i)), (''current_cost'', JFloat (ci_CurrentCost i)),
           (''previous_cost'', JFloat (ci_PreviousCost i)),
           (''cost_change'', opt_json JFloat (ci_CostChange i)),
           (''requests'', u64_json (ci_Requests i))]) (cmp_Breakdown c))]"

definition filters_json :: "CostFiltersResponse \<Rightarrow> json" where
  "filters_json f =
     JObj [(''models'', JArr (map JStr (cf_Models f))), (''providers'', JArr (map JStr (cf_Providers f))),
           (''features'', JArr (map JStr (cf_Features f)))]"

end
