(* ===== verification/Dash_Auth.thy ===== *)
theory Dash_Auth
  imports Dash_Params
begin

text \<open>
  Package \<open>handlers\<close>, \<open>auth.go\<close>: sign-in after OAuth, rotation of refresh tokens, logout and the
  current user. The decoded body, the random
  bytes and the JSON form of claims are arguments, and so is \<open>strings.ToLower\<close> (\<open>lower\<close>), of which
  only its use matters here. Every handler works on the stores \<open>backends\<close> of the server.
\<close>

section \<open>Tokens and cookies\<close>

datatype issue_error = IssueRand KeyError | IssueStore store_error

definition user_claims :: "User \<Rightarrow> Organization \<Rightarrow> JWTClaims" where
  "user_claims user org =
     \<lparr>cl_Sub = user_ID user, cl_Org = org_ID org, cl_OrgNumeric = OrgIDToUint64 (org_ID org),
      cl_Role = ''owner'', cl_Tier = org_Tier org, cl_Iat = 0, cl_Exp = 0\<rparr>"

definition issueTokenPair ::
    "(JWTClaims \<Rightarrow> string) \<Rightarrow> gotime \<Rightarrow> u8 list option \<Rightarrow> string \<Rightarrow> User \<Rightarrow> Organization
     \<Rightarrow> 'z backends_scheme \<Rightarrow> 'z backends_scheme \<times> (issue_error + string \<times> string)" where
  "issueTokenPair marshal now rnd secret user org st =
     (let jwt = SignJWT marshal (Unix now) (user_claims user org) secret in
      case GenerateRefreshToken rnd of
        Inl e \<Rightarrow> (st, Inl (IssueRand e))
      | Inr (refreshPlaintext, refreshHash) \<Rightarrow>
          let expiresAt = Add now (7 * 24 * hour) in
          (case on_pg (\<lambda>db. CreateRefreshToken db now (user_ID user) refreshHash expiresAt) st of
             (st, Inl e) \<Rightarrow> (st, Inl (IssueStore e))
           | (st, Inr _) \<Rightarrow> (st, Inr (jwt, refreshPlaintext))))"

definition refresh_cookie :: "string \<Rightarrow> int \<Rightarrow> cookie" where
  "refresh_cookie v maxAge =
     \<lparr>ck_Name = ''pm_refresh'', ck_Value = v, ck_Path = ''/api/v1/auth'', ck_HttpOnly = True,
      ck_Secure = True, ck_SameSite = ''Lax'', ck_MaxAge = maxAge\<rparr>"

definition setAuthCookies :: "string \<Rightarrow> string \<Rightarrow> response \<Rightarrow> response" where
  "setAuthCookies jwt refresh_v w =
     SetCookie (refresh_cookie refresh_v 604800) (SetCookie (session_cookie jwt True 900) w)"

definition clearAuthCookies :: "response \<Rightarrow> response" where
  "clearAuthCookies w = SetCookie (refresh_cookie [] (- 1)) (SetCookie (session_cookie [] True (- 1)) w)"

definition unauthorized_session :: "gotime \<Rightarrow> string \<Rightarrow> response \<Rightarrow> response" where
  "unauthorized_session now msg w = WriteError now 401 ''UNAUTHORIZED'' msg None w"

section \<open>Sign-in\<close>

record oauthCallbackRequest =
  oa_Provider :: string
  oa_Email :: string
  oa_Name :: string
  oa_AvatarURL :: string

definition default_project :: "string \<Rightarrow> Project" where
  "default_project orgID =
     \<lparr>prj_ID = [], prj_OrgID = orgID, prj_Name = ''Default'', prj_Slug = ''default'', prj_Description = [],
      prj_PIIEnabled = True, prj_IsDefault = True, prj_CreatedAt = zero_time, prj_UpdatedAt = zero_time,
      prj_ArchivedAt = None\<rparr>"

text \<open>The default project and key, whose failures are only logged.\<close>

definition create_defaults ::
    "gotime \<Rightarrow> u8 list option \<Rightarrow> string \<Rightarrow> 'z backends_scheme \<Rightarrow> 'z backends_scheme" where
  "create_defaults now rnd orgID st =
     (let st = fst (on_pg (\<lambda>db. CreateProject db now (default_project orgID)) st) in
      case GenerateKey rnd PrefixLive of
        Inl _ \<Rightarrow> st
      | Inr (plaintext, keyHash, keyPrefix) \<Rightarrow>
          fst (on_pg (\<lambda>db. CreateAPIKey db now orgID ''Default Key'' keyPrefix keyHash
                             [''write'', ''read''] None) st))"

definition org_slug :: "(string \<Rightarrow> string) \<Rightarrow> string \<Rightarrow> string" where
  "org_slug lower name = lower (map (\<lambda>c. if c = CHR '' '' then CHR ''-'' else c) name) @ ''-org''"

text \<open>The branch \<open>org == nil\<close>.\<close>

definition create_user_org ::
    "(string \<Rightarrow> string) \<Rightarrow> gotime \<Rightarrow> u8 list option \<Rightarrow> string \<Rightarrow> User
     \<Rightarrow> 'z backends_scheme \<Rightarrow> 'z backends_scheme \<times> Organization result" where
  "create_user_org lower now rnd name user st =
     (case on_pg (\<lambda>db. CreateOrg db now (name @ [CHR 39] @ ''s Organization'') (org_slug lower name)) st of
        (st, Inl e) \<Rightarrow> (st, Inl e)
      | (st, Inr org) \<Rightarrow>
          let st = fst (on_pg (\<lambda>db. AddOrgMember db (org_ID org) (user_ID user) ''owner'') st)
          in (create_defaults now rnd (org_ID org) st, Inr org))"

definition user_org ::
    "(string \<Rightarrow> string) \<Rightarrow> gotime \<Rightarrow> u8 list option \<Rightarrow> string \<Rightarrow> User
     \<Rightarrow> 'z backends_scheme \<Rightarrow> 'z backends_scheme \<times> (string + Organization)" where
  "user_org lower now rnd name user st =
     (case on_pg (\<lambda>db. GetOrgByUserID db (user_ID user)) st of
        (st, Inl _) \<Rightarrow> (st, Inl ''Internal server error'')
      | (st, Inr (Some org)) \<Rightarrow> (st, Inr org)
      | (st, Inr None) \<Rightarrow>
          (case create_user_org lower now rnd name user st of
             (st, Inl _) \<Rightarrow> (st, Inl ''Failed to create organization'')
           | (st, Inr org) \<Rightarrow> (st, Inr org)))"

definition HandleOAuthCallback ::
    "(string \<Rightarrow> string) \<Rightarrow> (JWTClaims \<Rightarrow> string) \<Rightarrow> gotime \<Rightarrow> u8 list option \<Rightarrow> u8 list option
     \<Rightarrow> string \<Rightarrow> string \<Rightarrow> oauthCallbackRequest option \<Rightarrow> 'z backends_scheme handler" where
  "HandleOAuthCallback lower marshal now keyrnd rnd secret internalSecret body st r w =
     (if rq_Header r ''X-Internal-Secret'' \<noteq> internalSecret
      then (st, unauthorized_session now ''Invalid internal secret'' w)
      else (case body of
        None \<Rightarrow> (st, validation_error now ''Invalid request body'' w)
      | Some req \<Rightarrow>
          if oa_Email req = [] then (st, validation_error now ''Email is required'' w)
          else (case on_pg (\<lambda>db. CreateOrGetUser db now (oa_Email req) (oa_Name req) (oa_AvatarURL req)) st of
            (st, Inl _) \<Rightarrow> (st, internal_error now ''Failed to process user'' w)
          | (st, Inr (user, isNew)) \<Rightarrow>
              (case user_org lower now keyrnd (oa_Name req) user st of
                 (st, Inl msg) \<Rightarrow> (st, internal_error now msg w)
               | (st, Inr org) \<Rightarrow>
                   (case issueTokenPair marshal now rnd secret user org st of
                      (st, Inl _) \<Rightarrow> (st, internal_error now ''Failed to issue tokens'' w)
                    | (st, Inr (jwt, refresh_v)) \<Rightarrow>
                        (st, WriteJSON now 200 (JObj
                           [(''user'', JObj [(''id'', JStr (user_ID user)), (''email'', JStr (user_Email user)),
                                             (''name'', JStr (user_Name user))]),
                            (''organization'', JObj [(''id'', JStr (org_ID org)), (''name'', JStr (org_Name org)),
                                                     (''tier'', JStr (org_Tier org))]),
                            (''is_new_user'', JBool isNew)])
                           (setAuthCookies jwt refresh_v w)))))))"

section \<open>Refresh\<close>

text \<open>The part after the presented token is revoked.\<close>

definition renew_session ::
    "(JWTClaims \<Rightarrow> string) \<Rightarrow> gotime \<Rightarrow> u8 list option \<Rightarrow> string \<Rightarrow> string \<Rightarrow> response
     \<Rightarrow> 'z backends_scheme \<Rightarrow> 'z backends_scheme \<times> response" where
  "renew_session marshal now rnd secret userID w st =
     (case on_pg (\<lambda>db. GetUserByID db userID) st of
        (st, Inr (Some user)) \<Rightarrow>
          (case on_pg (\<lambda>db. GetOrgByUserID db (user_ID user)) st of
             (st, Inr (Some org)) \<Rightarrow>
               (case issueTokenPair marshal now rnd secret user org st of
                  (st, Inl _) \<Rightarrow> (st, internal_error now ''Failed to refresh tokens'' w)
                | (st, Inr (jwt, refresh_v)) \<Rightarrow>
                    (st, WriteJSON now 200 (JObj [(''refreshed'', JBool True)])
                           (setAuthCookies jwt refresh_v w)))
           | (st, _) \<Rightarrow> (st, unauthorized_session now ''Organization not found'' w))
      | (st, _) \<Rightarrow> (st, unauthorized_session now ''User not found'' w))"

definition HandleRefresh ::
    "(JWTClaims \<Rightarrow> string) \<Rightarrow> gotime \<Rightarrow> u8 list option \<Rightarrow> string \<Rightarrow> 'z backends_scheme handler" where
  "HandleRefresh marshal now rnd secret st r w =
     (case Cookie r ''pm_refresh'' of
        None \<Rightarrow> (st, unauthorized_session now ''Missing refresh token'' w)
      | Some v \<Rightarrow>
          if v = [] then (st, unauthorized_session now ''Missing refresh token'' w)
          else let tokenHash = HashRefreshToken v in
          (case on_pg (\<lambda>db. GetRefreshTokenByHash db tokenHash) st of
             (st, Inl _) \<Rightarrow> (st, internal_error now ''Internal server error'' w)
           | (st, Inr None) \<Rightarrow> (st, unauthorized_session now ''Invalid refresh token'' w)
           | (st, Inr (Some storedToken)) \<Rightarrow>
               if rt_RevokedAt storedToken \<noteq> None
               then let st = fst (on_pg (\<lambda>db. RevokeAllUserTokens db now (rt_UserID storedToken)) st)
                    in (st, unauthorized_session now ''Token reuse detected'' (clearAuthCookies w))
               else if After now (rt_ExpiresAt storedToken)
               then (st, unauthorized_session now ''Refresh token expired'' w)
               else let st = fst (on_pg (\<lambda>db. RevokeRefreshToken db now (rt_ID storedToken)) st)
                    in renew_session marshal now rnd secret (rt_UserID storedToken) w st))"

section \<open>Logout and the current user\<close>

definition revoke_presented :: "gotime \<Rightarrow> string \<Rightarrow> 'z backends_scheme \<Rightarrow> 'z backends_scheme" where
  "revoke_presented now v st =
     (case on_pg (\<lambda>db. GetRefreshTokenByHash db (HashRefreshToken v)) st of
        (st, Inr (Some storedToken)) \<Rightarrow> fst (on_pg (\<lambda>db. RevokeRefreshToken db now (rt_ID storedToken)) st)
      | (st, _) \<Rightarrow> st)"

definition HandleLogout :: "gotime \<Rightarrow> 'z backends_scheme handler" where
  "HandleLogout now st r w =
     (let st = (case Cookie r ''pm_refresh'' of
                  None \<Rightarrow> st | Some v \<Rightarrow> if v \<noteq> [] then revoke_presented now v st else st)
      in (st, WriteJSON now 200 (JObj [(''logged_out'', JBool True)]) (clearAuthCookies w)))"

definition not_found :: "gotime \<Rightarrow> string \<Rightarrow> response \<Rightarrow> response" where
  "not_found now msg w = WriteError now 404 ''NOT_FOUND'' msg None w"

definition HandleMe :: "gotime \<Rightarrow> 'z backends_scheme handler" where
  "HandleMe now st r w =
     (case on_pg (\<lambda>db. GetUserByID db (UserIDFromContext (rq_Ctx r))) st of
        (st, Inr (Some user)) \<Rightarrow>
          (case on_pg (\<lambda>db. GetOrg db (mw_OrgIDFromContext (rq_Ctx r))) st of
             (st, Inr (Some org)) \<Rightarrow>
               (st, WriteJSON now 200 (JObj
                  [(''user'', JObj [(''id'', JStr (user_ID user)), (''email'', JStr (user_Email user)),
                      (''name'', JStr (user_Name user)), (''avatar_url'', JStr (user_AvatarURL user))]),
                   (''organization'', JObj [(''id'', JStr (org_ID org)), (''name'', JStr (org_Name org)),
                      (''slug'', JStr (org_Slug org)), (''tier'', JStr (org_Tier org)),
                      (''timezone'', JStr (org_Timezone org)),
                      (''pii_enabled'', JBool (org_PIIEnabled org))])]) w)
           | (st, _) \<Rightarrow> (st, not_found now ''Organization not found'' w))
      | (st, _) \<Rightarrow> (st, not_found now ''User not found'' w))"

section \<open>Spent refresh tokens\<close>

text \<open>The stored tokens with a hash are revoked tokens of one user, and there is one.\<close>

definition spent :: "RefreshToken list \<Rightarrow> string \<Rightarrow> string \<Rightarrow> bool" where
  "spent ts h u \<longleftrightarrow>
     h \<in> rt_TokenHash ` set ts
     \<and> (\<forall>t \<in> set ts. rt_TokenHash t = h \<longrightarrow> rt_RevokedAt t \<noteq> None \<and> rt_UserID t = u)"

lemma tokens_unchanged:
  "pg_refresh_tokens (fst (CreateOrGetUser db now email name avatar)) = pg_refresh_tokens db"
  "pg_refresh_tokens (fst (UpdateOrg db now org)) = pg_refresh_tokens db"
  "pg_refresh_tokens (fst (CreateOrg db now name slug)) = pg_refresh_tokens db"
  "pg_refresh_tokens (fst (AddOrgMember db o_id u role)) = pg_refresh_tokens db"
  "pg_refresh_tokens (fst (CreateProject db now prj)) = pg_refresh_tokens db"
  "pg_refresh_tokens (fst (CreateAPIKey db now o_id name pre hash scopes p)) = pg_refresh_tokens db"
  "pg_refresh_tokens (fst (RevokeAPIKey db now o_id k)) = pg_refresh_tokens db"
  by (auto simp: CreateOrGetUser_def UpdateOrg_def CreateOrg_def AddOrgMember_def CreateProject_def
      CreateAPIKey_def RevokeAPIKey_def pg_query_def pg_exec_def Let_def split: option.split sum.split)

lemma spent_revoke: "spent ts h u \<Longrightarrow> spent (revoke_where p now ts) h u"
  unfolding spent_def revoke_where_def by (subst update_where_col) (auto simp: update_where_def)

lemma pg_step_spent:
  assumes "pg_step db db'" "spent (pg_refresh_tokens db) h u" shows "spent (pg_refresh_tokens db') h u"
  using assms
proof (induction rule: pg_step.induct)
  case (token db now userID tokenHash expiresAt)
  then show ?case by (auto simp: CreateRefreshToken_def pg_exec_def Let_def spent_def)
next
  case (revoke_token db now tokenID)
  then show ?case by (simp add: RevokeRefreshToken_def pg_exec_def Let_def spent_revoke)
next
  case (revoke_all db now userID)
  then show ?case by (simp add: RevokeAllUserTokens_def pg_exec_def Let_def spent_revoke)
qed (simp_all add: tokens_unchanged)

lemma pg_steps_spent:
  "pg_step\<^sup>*\<^sup>* db db' \<Longrightarrow> spent (pg_refresh_tokens db) h u \<Longrightarrow> spent (pg_refresh_tokens db') h u"
  by (induction rule: rtranclp_induct) (blast intro: pg_step_spent)+

section \<open>The handlers as store operations\<close>

lemma pg_runs_issueTokenPair: "pg_runs (issueTokenPair marshal now rnd secret user org)"
  unfolding issueTokenPair_def by (intro pg_runs_rules)

lemma pg_runs_create_defaults: "pg_runs (\<lambda>st. (create_defaults now rnd orgID st, x))"
proof -
  have "pg_runs (\<lambda>st. let st' = fst (on_pg (\<lambda>db. CreateProject db now (default_project orgID)) st) in
      case GenerateKey rnd PrefixLive of
        Inl _ \<Rightarrow> (st', x)
      | Inr (plaintext, keyHash, keyPrefix) \<Rightarrow>
          (fst (on_pg (\<lambda>db. CreateAPIKey db now orgID ''Default Key'' keyPrefix keyHash
                             [''write'', ''read''] None) st'), x))"
    by (intro pg_runs_rules)
  then show ?thesis
    by (cases "GenerateKey rnd PrefixLive") (simp_all add: create_defaults_def Let_def runs_def pg_reach_def case_prod_unfold)
qed

lemma pg_runs_create_user_org: "pg_runs (create_user_org lower now rnd name user)"
  unfolding create_user_org_def by (intro pg_runs_rules pg_runs_create_defaults)

lemma pg_runs_user_org: "pg_runs (user_org lower now rnd name user)"
  unfolding user_org_def by (intro pg_runs_rules pg_runs_create_user_org)

lemma pg_runs_HandleOAuthCallback:
  "pg_runs (\<lambda>st. HandleOAuthCallback lower marshal now keyrnd rnd secret internalSecret body st r w)"
  unfolding HandleOAuthCallback_def
  by (intro pg_runs_rules pg_runs_user_org pg_runs_issueTokenPair)

lemma pg_runs_renew_session: "pg_runs (renew_session marshal now rnd secret userID w)"
  unfolding renew_session_def by (intro pg_runs_rules pg_runs_issueTokenPair)

lemma pg_runs_HandleRefresh: "pg_runs (\<lambda>st. HandleRefresh marshal now rnd secret st r w)"
  unfolding HandleRefresh_def by (intro pg_runs_rules pg_runs_renew_session)

lemma pg_runs_revoke_presented: "pg_runs (\<lambda>st. (revoke_presented now v st, x))"
proof -
  have "pg_runs (\<lambda>st. case on_pg (\<lambda>db. GetRefreshTokenByHash db (HashRefreshToken v)) st of
        (st, Inr (Some storedToken)) \<Rightarrow> (fst (on_pg (\<lambda>db. RevokeRefreshToken db now (rt_ID storedToken)) st), x)
      | (st, _) \<Rightarrow> (st, x))"
    by (intro pg_runs_rules)
  then show ?thesis by (auto simp: revoke_presented_def runs_def pg_reach_def case_prod_unfold split: sum.splits option.splits)
qed

lemma pg_runs_HandleLogout: "pg_runs (\<lambda>st. HandleLogout now st r w)"
  using pg_runs_revoke_presented
  by (auto simp: HandleLogout_def Let_def runs_def pg_reach_def split: option.split)

lemma pg_runs_HandleMe: "pg_runs (\<lambda>st. HandleMe now st r w)"
  unfolding HandleMe_def by (intro pg_runs_rules)

section \<open>Rotation\<close>

lemma find_token:
  assumes "pg_wf db" "t \<in> set (pg_refresh_tokens db)" "rt_TokenHash t = h"
  shows "find (\<lambda>t. rt_TokenHash t = h) (pg_refresh_tokens db) = Some t"
proof -
  have inj: "inj_on rt_TokenHash (set (pg_refresh_tokens db))"
    using assms(1) by (simp add: pg_wf_def distinct_map)
  from assms obtain t' where t': "find (\<lambda>t. rt_TokenHash t = h) (pg_refresh_tokens db) = Some t'"
    by (metis (mono_tags, lifting) find_None_iff2 not_None_eq)
  then have "t' \<in> set (pg_refresh_tokens db)" "rt_TokenHash t' = h" by (auto simp: find_Some_iff)
  with inj assms have "t' = t" by (auto dest: inj_onD)
  with t' show ?thesis by simp
qed

lemma find_spent:
  assumes "spent ts h u"
  obtains t where "find (\<lambda>t. rt_TokenHash t = h) ts = Some t" "rt_UserID t = u" "rt_RevokedAt t \<noteq> None"
proof -
  from assms obtain t where f: "find (\<lambda>t. rt_TokenHash t = h) ts = Some t"
    by (cases "find (\<lambda>t. rt_TokenHash t = h) ts") (auto simp: spent_def find_None_iff)
  then have "t \<in> set ts" "rt_TokenHash t = h" by (auto simp: find_Some_iff)
  with assms f that show thesis by (simp add: spent_def)
qed

lemma get_token:
  assumes "\<forall>n. \<not> pg_fails (be_pg st) n"
  shows "on_pg (\<lambda>db. GetRefreshTokenByHash db h) st
    = (st\<lparr>be_pg := (be_pg st)\<lparr>pg_stmts := pg_stmts (be_pg st) + 1\<rparr>\<rparr>,
       Inr (find (\<lambda>t. rt_TokenHash t = h) (pg_refresh_tokens (be_pg st))))"
  using assms by (simp add: on_pg_def GetRefreshTokenByHash_def pg_query_def pg_exec_def Let_def)

lemma revoke_token_spends:
  assumes "pg_wf db" "\<forall>n. \<not> pg_fails db n" "t \<in> set (pg_refresh_tokens db)"
  shows "spent (pg_refresh_tokens (fst (RevokeRefreshToken db now (rt_ID t)))) (rt_TokenHash t) (rt_UserID t)"
proof -
  have u: "t' = t" if "t' \<in> set (pg_refresh_tokens db)" "rt_TokenHash t' = rt_TokenHash t" for t'
    using assms that unfolding pg_wf_def by (auto simp: distinct_map dest: inj_onD)
  then show ?thesis
    using assms(2,3)
    unfolding spent_def revoke_where_def RevokeRefreshToken_def pg_exec_def Let_def
    by (simp add: update_where_col) (auto simp: update_where_def dest: u)
qed

text \<open>Presenting a token that has not expired spends it, whatever the answer.\<close>

lemma HandleRefresh_spends:
  assumes wf: "pg_wf (be_pg st)" and up: "\<forall>n. \<not> pg_fails (be_pg st) n"
    and cookie: "Cookie r ''pm_refresh'' = Some v" "v \<noteq> []"
    and t: "t \<in> set (pg_refresh_tokens (be_pg st))" "rt_TokenHash t = HashRefreshToken v"
      "\<not> After now (rt_ExpiresAt t)"
  shows "spent (pg_refresh_tokens (be_pg (fst (HandleRefresh marshal now rnd secret st r w))))
           (HashRefreshToken v) (rt_UserID t)"
proof (cases "rt_RevokedAt t")
  case (Some at)
  have "t' = t" if "t' \<in> set (pg_refresh_tokens (be_pg st))" "rt_TokenHash t' = HashRefreshToken v" for t'
    using find_token [OF wf that] find_token [OF wf t(1,2)] by simp
  with t Some have "spent (pg_refresh_tokens (be_pg st)) (HashRefreshToken v) (rt_UserID t)"
    unfolding spent_def by (metis image_eqI option.distinct(1))
  then show ?thesis by (rule pg_steps_spent [OF pg_runsD [OF pg_runs_HandleRefresh]])
next
  case None
  let ?st1 = "st\<lparr>be_pg := (be_pg st)\<lparr>pg_stmts := pg_stmts (be_pg st) + 1\<rparr>\<rparr>"
  let ?st2 = "fst (on_pg (\<lambda>db. RevokeRefreshToken db now (rt_ID t)) ?st1)"
  have "HandleRefresh marshal now rnd secret st r w = renew_session marshal now rnd secret (rt_UserID t) w ?st2"
    by (simp add: HandleRefresh_def cookie get_token [OF up] find_token [OF wf t(1,2)] None t(3) Let_def)
  moreover have "spent (pg_refresh_tokens (be_pg ?st2)) (HashRefreshToken v) (rt_UserID t)"
    using revoke_token_spends [of "be_pg ?st1" t now] wf up t by simp
  ultimately show ?thesis by (simp add: pg_steps_spent [OF pg_runsD [OF pg_runs_renew_session]])
qed

lemma HandleRefresh_spent:
  assumes up: "\<forall>n. \<not> pg_fails (be_pg st) n"
    and cookie: "Cookie r ''pm_refresh'' = Some v" "v \<noteq> []"
    and sp: "spent (pg_refresh_tokens (be_pg st)) (HashRefreshToken v) u"
    and call: "HandleRefresh marshal now rnd secret st r w = (st', w')"
  shows "rs_Status w' = 401"
    "\<And>t. t \<in> set (pg_refresh_tokens (be_pg st')) \<Longrightarrow> rt_UserID t = u \<Longrightarrow> rt_RevokedAt t \<noteq> None"
proof -
  from sp obtain t where "find (\<lambda>t. rt_TokenHash t = HashRefreshToken v) (pg_refresh_tokens (be_pg st)) = Some t"
    "rt_UserID t = u" "rt_RevokedAt t \<noteq> None"
    by (rule find_spent)
  with call have e: "st' = fst (on_pg (\<lambda>db. RevokeAllUserTokens db now u)
      (st\<lparr>be_pg := (be_pg st)\<lparr>pg_stmts := pg_stmts (be_pg st) + 1\<rparr>\<rparr>))"
    "w' = unauthorized_session now ''Token reuse detected'' (clearAuthCookies w)"
    by (auto simp: HandleRefresh_def cookie get_token [OF up] Let_def)
  show "rs_Status w' = 401" by (simp add: e(2) unauthorized_session_def)
  have ts: "pg_refresh_tokens (be_pg st') = revoke_where (\<lambda>t. rt_UserID t = u \<and> rt_RevokedAt t = None) now
      (pg_refresh_tokens (be_pg st))"
    using up by (simp add: e(1) RevokeAllUserTokens_def pg_exec_def Let_def)
  fix t assume "t \<in> set (pg_refresh_tokens (be_pg st'))" and u: "rt_UserID t = u"
  then obtain x where "t = (if rt_UserID x = u \<and> rt_RevokedAt x = None then x\<lparr>rt_RevokedAt := Some now\<rparr> else x)"
    unfolding ts revoke_where_def update_where_def set_map by (elim imageE)
  with u show "rt_RevokedAt t \<noteq> None"
    by (cases "rt_UserID x = u \<and> rt_RevokedAt x = None") (simp_all split: if_splits)
qed

text \<open>
  C5: While the database works, a refresh token is good for one use: when a token that has not
  expired has been presented once, and whatever store operations of any server follow, presenting
  it again is answered 401 and leaves every token of its user revoked.
\<close>

theorem refresh_token_single_use:
  assumes reach: "pg_step\<^sup>*\<^sup>* (pg_empty uuids (\<lambda>_. False) prices) (be_pg st)"
    and t: "t \<in> set (pg_refresh_tokens (be_pg st))" "rt_TokenHash t = HashRefreshToken v"
      "\<not> After now (rt_ExpiresAt t)"
    and cookie: "Cookie r ''pm_refresh'' = Some v" "Cookie r2 ''pm_refresh'' = Some v" "v \<noteq> []"
    and once: "HandleRefresh marshal now rnd secret st r w = (st1, w1)"
    and later: "pg_step\<^sup>*\<^sup>* (be_pg st1) (be_pg st2)"
    and again: "HandleRefresh marshal now2 rnd2 secret st2 r2 w2 = (st3, w3)"
  shows "rs_Status w3 = 401
    \<and> (\<forall>t' \<in> set (pg_refresh_tokens (be_pg st3)). rt_UserID t' = rt_UserID t \<longrightarrow> rt_RevokedAt t' \<noteq> None)"
proof -
  have wf: "pg_wf (be_pg st)" by (rule pg_steps_wf [OF reach pg_empty_wf])
  have up: "\<forall>n. \<not> pg_fails (be_pg st) n" using pg_steps_fails [OF reach] by (simp add: pg_empty_def)
  have st1: "st1 = fst (HandleRefresh marshal now rnd secret st r w)" by (simp add: once)
  have "\<forall>n. \<not> pg_fails (be_pg st2) n"
    using up pg_steps_fails [OF pg_runsD [OF pg_runs_HandleRefresh [of marshal now rnd secret r w], of st]]
      pg_steps_fails [OF later] by (simp add: st1)
  moreover have "spent (pg_refresh_tokens (be_pg st2)) (HashRefreshToken v) (rt_UserID t)"
    using HandleRefresh_spends [OF wf up cookie(1,3) t] by (intro pg_steps_spent [OF later]) (simp add: st1)
  ultimately show ?thesis using HandleRefresh_spent [OF _ cookie(2,3) _ again] by blast
qed

text \<open>A user with one refresh token.\<close>

definition sample_user_db :: pgdb where
  "sample_user_db = fst (CreateOrGetUser (pg_empty (\<lambda>n. replicate n (CHR ''u'')) (\<lambda>_. False) []) zero_time ''a@b.c'' ''Ada'' [])"

definition sample_token_state :: backends where
  "sample_token_state =
     \<lparr>be_redis = \<lparr>rd_data = Map.empty, rd_cmds = 0, rd_fails = \<lambda>_. False\<rparr>,
      be_pg = fst (CreateRefreshToken sample_user_db zero_time ''u'' (HashRefreshToken ''rt_x'') zero_time)\<rparr>"

definition sample_refresh :: request where
  "sample_refresh = sample_request\<lparr>rq_Cookies := [(''pm_refresh'', ''rt_x'')]\<rparr>"

theorem refresh_token_single_use_witness:
  "\<exists>st3 w3. HandleRefresh (\<lambda>_. []) zero_time None ''k''
        (fst (HandleRefresh (\<lambda>_. []) zero_time None ''k'' sample_token_state sample_refresh fresh_response))
        sample_refresh fresh_response = (st3, w3) \<and> rs_Status w3 = 401"
proof -
  let ?once = "HandleRefresh (\<lambda>_. []) zero_time None ''k'' sample_token_state sample_refresh fresh_response"
  let ?t = "\<lparr>rt_ID = ''uu'', rt_UserID = ''u'', rt_TokenHash = HashRefreshToken ''rt_x'',
             rt_ExpiresAt = zero_time, rt_RevokedAt = None, rt_CreatedAt = zero_time\<rparr>"
  have r: "pg_step\<^sup>*\<^sup>* (pg_empty (\<lambda>n. replicate n (CHR ''u'')) (\<lambda>_. False) []) (be_pg sample_token_state)"
    unfolding sample_token_state_def sample_user_db_def
    by (simp, rule rtranclp.intros(2), rule r_into_rtranclp, rule pg_step.user, rule pg_step.token)
  have t: "?t \<in> set (pg_refresh_tokens (be_pg sample_token_state))"
    by (simp add: sample_token_state_def sample_user_db_def CreateRefreshToken_def CreateOrGetUser_def
        pg_query_def pg_exec_def pg_empty_def Let_def)
  obtain st3 w3 where again:
    "HandleRefresh (\<lambda>_. []) zero_time None ''k'' (fst ?once) sample_refresh fresh_response = (st3, w3)"
    by fastforce
  have "rs_Status w3 = 401"
    using refresh_token_single_use [OF r t _ _ _ _ _ surjective_pairing rtranclp.rtrancl_refl again]
    by (simp add: sample_refresh_def Cookie_def After_def)
  with again show ?thesis by blast
qed

section \<open>A revocation that fails\<close>

lemma tokens_kept:
  "t \<in> set (pg_refresh_tokens db) \<Longrightarrow>
     t \<in> set (pg_refresh_tokens (fst (CreateRefreshToken (db\<lparr>pg_stmts := n\<rparr>) now u h expires)))"
  by (auto simp: CreateRefreshToken_def pg_exec_def Let_def)

lemma renew_session_keeps:
  "t \<in> set (pg_refresh_tokens (be_pg s)) \<Longrightarrow>
     t \<in> set (pg_refresh_tokens (be_pg (fst (renew_session marshal now rnd secret u w s))))"
  by (auto intro: tokens_kept simp: renew_session_def issueTokenPair_def Let_def case_prod_unfold
      GetUserByID_def GetOrgByUserID_def pg_query_state split: sum.split option.split)

text \<open>
  An error of \<open>RevokeRefreshToken\<close> is only logged: when that statement fails, the presented token
  stays as it was, good for another session.
\<close>

lemma HandleRefresh_ignores_failed_revocation:
  assumes wf: "pg_wf (be_pg st)" and cookie: "Cookie r ''pm_refresh'' = Some v" "v \<noteq> []"
    and t: "t \<in> set (pg_refresh_tokens (be_pg st))" "rt_TokenHash t = HashRefreshToken v"
      "rt_RevokedAt t = None" "\<not> After now (rt_ExpiresAt t)"
    and fails: "\<not> pg_fails (be_pg st) (pg_stmts (be_pg st))" "pg_fails (be_pg st) (pg_stmts (be_pg st) + 1)"
  shows "t \<in> set (pg_refresh_tokens (be_pg (fst (HandleRefresh marshal now rnd secret st r w))))"
proof -
  let ?st1 = "st\<lparr>be_pg := (be_pg st)\<lparr>pg_stmts := pg_stmts (be_pg st) + 1\<rparr>\<rparr>"
  let ?st2 = "fst (on_pg (\<lambda>db. RevokeRefreshToken db now (rt_ID t)) ?st1)"
  have g: "on_pg (\<lambda>db. GetRefreshTokenByHash db (HashRefreshToken v)) st = (?st1, Inr (Some t))"
    using fails(1) find_token [OF wf t(1,2)]
    by (simp add: on_pg_def GetRefreshTokenByHash_def pg_query_def pg_exec_def Let_def)
  have e: "HandleRefresh marshal now rnd secret st r w = renew_session marshal now rnd secret (rt_UserID t) w ?st2"
    by (simp add: HandleRefresh_def cookie g t(3,4) Let_def)
  have "pg_refresh_tokens (be_pg ?st2) = pg_refresh_tokens (be_pg st)"
    using fails(2) by (simp add: RevokeRefreshToken_def pg_exec_def Let_def)
  then show ?thesis unfolding e using t(1) by (intro renew_session_keeps) (simp only:)
qed

end
