(* ===== verification/Dash_Keys.thy ===== *)
theory Dash_Keys
  imports Dash_Auth Key_Revocation
begin

text \<open>
  Package \<open>handlers\<close>, \<open>apikeys.go\<close>, \<open>projects.go\<close> and \<open>settings.go\<close>: the management of API keys,
  the list of projects and the settings of an organisation. Decoded bodies, path values and random
  bytes are arguments.
\<close>

section \<open>apikeys.go\<close>

definition key_json :: "APIKey \<Rightarrow> json" where
  "key_json k =
     JObj ([(''id'', JStr (key_ID k)), (''name'', JStr (key_Name k)), (''key_prefix'', JStr (key_KeyPrefix k))]
       @ (case key_ProjectID k of None \<Rightarrow> [] | Some p \<Rightarrow> [(''project_id'', JStr p)])
       @ [(''scopes'', arr_json JStr (key_Scopes k))]
       @ (case key_LastUsedAt k of None \<Rightarrow> [] | Some t \<Rightarrow> [(''last_used_at'', JStr (Format_literal_Z t))])
       @ [(''created_at'', JStr (Format_literal_Z (key_CreatedAt k)))]
       @ (case key_RevokedAt k of None \<Rightarrow> [] | Some t \<Rightarrow> [(''revoked_at'', JStr (Format_literal_Z t))]))"

definition HandleListKeys :: "gotime \<Rightarrow> 'z backends_scheme handler" where
  "HandleListKeys now st r w =
     (case on_pg (\<lambda>db. ListAPIKeys db (mw_OrgIDFromContext (rq_Ctx r))) st of
        (st, Inl _) \<Rightarrow> (st, internal_error now ''Failed to list API keys'' w)
      | (st, Inr keys) \<Rightarrow> (st, WriteJSON now 200 (arr_json key_json keys) w))"

record createAPIKeyRequest =
  ca_ReqName :: string
  ca_ReqType :: string
  ca_ReqProjectID :: "string option"

definition HandleCreate ::
    "gotime \<Rightarrow> u8 list option \<Rightarrow> createAPIKeyRequest option \<Rightarrow> 'z backends_scheme handler" where
  "HandleCreate now rnd body st r w =
     (let orgID = mw_OrgIDFromContext (rq_Ctx r) in
      case body of
        None \<Rightarrow> (st, validation_error now ''Invalid request body'' w)
      | Some req \<Rightarrow>
          if ca_ReqName req = [] then (st, validation_error now ''Name is required'' w)
          else if 100 < length (ca_ReqName req)
          then (st, validation_error now ''Name must be 100 characters or fewer'' w)
          else let pfx = (if ca_ReqType req = ''test'' then PrefixTest else PrefixLive) in
          (case GenerateKey rnd pfx of
             Inl _ \<Rightarrow> (st, internal_error now ''Failed to generate API key'' w)
           | Inr (plaintext, keyHash, displayPrefix) \<Rightarrow>
               (case on_pg (\<lambda>db. CreateAPIKey db now orgID (ca_ReqName req) displayPrefix keyHash
                                   [''write'', ''read''] (ca_ReqProjectID req)) st of
                  (st, Inl _) \<Rightarrow> (st, internal_error now ''Failed to create API key'' w)
                | (st, Inr key) \<Rightarrow>
                    (st, WriteJSON now 201 (JObj
                       [(''id'', JStr (key_ID key)), (''name'', JStr (key_Name key)),
                        (''key'', JStr plaintext), (''key_prefix'', JStr displayPrefix),
                        (''project_id'', opt_json JStr (key_ProjectID key)),
                        (''scopes'', arr_json JStr (key_Scopes key)),
                        (''created_at'', JStr (Format_literal_Z (key_CreatedAt key)))]) w))))"

text \<open>The key is looked up by its id in place of its hash, and an error of that is only logged.\<close>

definition HandleRevoke :: "gotime \<Rightarrow> string \<Rightarrow> 'z backends_scheme handler" where
  "HandleRevoke now keyID st r w =
     (let orgID = mw_OrgIDFromContext (rq_Ctx r) in
      if keyID = [] then (st, validation_error now ''Key ID is required'' w)
      else (case on_pg (\<lambda>db. GetAPIKeyByHash db keyID) st of
        (st, key) \<Rightarrow>
          (case on_pg (\<lambda>db. RevokeAPIKey db now orgID keyID) st of
             (st, Inl _) \<Rightarrow> (st, not_found now ''API key not found or already revoked'' w)
           | (st, Inr _) \<Rightarrow>
               (case key of
                  Inr (Some k) \<Rightarrow>
                    (fst (on_redis (\<lambda>rd. DeleteCachedAPIKey rd (key_KeyHash k)) st),
                     WriteJSON now 200 (JObj [(''revoked'', JBool True)]) w)
                | _ \<Rightarrow> (st, WriteJSON now 200 (JObj [(''revoked'', JBool True)]) w)))))"

section \<open>projects.go\<close>

definition project_json :: "Project \<Rightarrow> json" where
  "project_json p =
     JObj [(''id'', JStr (prj_ID p)), (''name'', JStr (prj_Name p)), (''slug'', JStr (prj_Slug p)),
       (''description'', JStr (prj_Description p)), (''is_default'', JBool (prj_IsDefault p)),
       (''created_at'', JStr (Format_literal_Z (prj_CreatedAt p)))]"

definition HandleListProjects :: "gotime \<Rightarrow> 'z backends_scheme handler" where
  "HandleListProjects now st r w =
     (case on_pg (\<lambda>db. ListProjects db (mw_OrgIDFromContext (rq_Ctx r))) st of
        (st, Inl _) \<Rightarrow> (st, internal_error now ''Failed to list projects'' w)
      | (st, Inr projects) \<Rightarrow> (st, WriteJSON now 200 (arr_json project_json projects) w))"

section \<open>settings.go\<close>

definition settings_json :: "Organization \<Rightarrow> json" where
  "settings_json org =
     JObj [(''name'', JStr (org_Name org)), (''slug'', JStr (org_Slug org)),
       (''timezone'', JStr (org_Timezone org)), (''pii_enabled'', JBool (org_PIIEnabled org)),
       (''slack_webhook_url'', opt_json JStr (org_SlackWebhookURL org)), (''tier'', JStr (org_Tier org))]"

definition HandleGetSettings :: "gotime \<Rightarrow> 'z backends_scheme handler" where
  "HandleGetSettings now st r w =
     (case on_pg (\<lambda>db. GetOrg db (mw_OrgIDFromContext (rq_Ctx r))) st of
        (st, Inr (Some org)) \<Rightarrow> (st, WriteJSON now 200 (settings_json org) w)
      | (st, _) \<Rightarrow> (st, not_found now ''Organization not found'' w))"

record updateOrgRequest =
  up_Name :: "string option"
  up_Timezone :: "string option"
  up_PIIEnabled :: "bool option"
  up_SlackWebhookURL :: "string option"

definition slackPrefix :: string where "slackPrefix = ''https://hooks.slack.com/''"

text \<open>The partial updates, in order: an error message, or the changed organisation.\<close>

definition update_name :: "string option \<Rightarrow> Organization \<Rightarrow> string + Organization" where
  "update_name v org =
     (case v of None \<Rightarrow> Inr org
      | Some s \<Rightarrow> let name = TrimSpace s in
          if name = [] \<or> 100 < length name then Inl ''Name must be 1-100 characters''
          else Inr (org\<lparr>org_Name := name\<rparr>))"

definition update_timezone :: "tzdb \<Rightarrow> string option \<Rightarrow> Organization \<Rightarrow> string + Organization" where
  "update_timezone tz v org =
     (case v of None \<Rightarrow> Inr org
      | Some s \<Rightarrow> (case LoadLocation tz s of
          None \<Rightarrow> Inl ''Invalid IANA timezone'' | Some _ \<Rightarrow> Inr (org\<lparr>org_Timezone := s\<rparr>)))"

definition update_slack :: "string option \<Rightarrow> Organization \<Rightarrow> string + Organization" where
  "update_slack v org =
     (case v of None \<Rightarrow> Inr org
      | Some url \<Rightarrow>
          if url \<noteq> [] \<and> \<not> HasPrefix url slackPrefix
          then Inl ''Slack webhook URL must start with https://hooks.slack.com/''
          else Inr (org\<lparr>org_SlackWebhookURL := (if url = [] then None else Some url)\<rparr>))"

definition apply_updates :: "tzdb \<Rightarrow> updateOrgRequest \<Rightarrow> Organization \<Rightarrow> string + Organization" where
  "apply_updates tz req org =
     (case update_name (up_Name req) org of
        Inl e \<Rightarrow> Inl e
      | Inr org \<Rightarrow> (case update_timezone tz (up_Timezone req) org of
          Inl e \<Rightarrow> Inl e
        | Inr org \<Rightarrow>
            let org = (case up_PIIEnabled req of None \<Rightarrow> org | Some b \<Rightarrow> org\<lparr>org_PIIEnabled := b\<rparr>)
            in update_slack (up_SlackWebhookURL req) org))"

definition HandleUpdate ::
    "tzdb \<Rightarrow> gotime \<Rightarrow> updateOrgRequest option \<Rightarrow> 'z backends_scheme handler" where
  "HandleUpdate tz now body st r w =
     (let orgID = mw_OrgIDFromContext (rq_Ctx r) in
      case body of
        None \<Rightarrow> (st, validation_error now ''Invalid request body'' w)
      | Some req \<Rightarrow>
          (case on_pg (\<lambda>db. GetOrg db orgID) st of
             (st, Inr (Some org)) \<Rightarrow>
               (case apply_updates tz req org of
                  Inl msg \<Rightarrow> (st, validation_error now msg w)
                | Inr org \<Rightarrow>
                    (case on_pg (\<lambda>db. UpdateOrg db now org) st of
                       (st, Inl _) \<Rightarrow> (st, internal_error now ''Failed to update settings'' w)
                     | (st, Inr _) \<Rightarrow> (st, WriteJSON now 200 (settings_json org) w)))
           | (st, _) \<Rightarrow> (st, not_found now ''Organization not found'' w)))"

section \<open>The handlers as store operations\<close>

lemma pg_runs_keys:
  "pg_runs (\<lambda>st. HandleListKeys now st r w)" "pg_runs (\<lambda>st. HandleCreate now rnd kb st r w)"
  "pg_runs (\<lambda>st. HandleRevoke now keyID st r w)" "pg_runs (\<lambda>st. HandleListProjects now st r w)"
  "pg_runs (\<lambda>st. HandleGetSettings now st r w)" "pg_runs (\<lambda>st. HandleUpdate tz now ub st r w)"
  unfolding HandleListKeys_def HandleCreate_def HandleRevoke_def HandleListProjects_def
    HandleGetSettings_def HandleUpdate_def
  by (intro pg_runs_rules)+

section \<open>A new key\<close>

lemma api_key_row_stmts [simp]: "api_key_row (db\<lparr>pg_stmts := n\<rparr>) h = api_key_row db h"
  by (simp add: api_key_row_def cong: option.case_cong)

lemma auth_lookup_database:
  assumes none: "be_entry st now h = None" and up: "\<forall>n. \<not> pg_fails (be_pg st) n"
  shows "\<exists>st2. auth_lookup get_key set_key key_by_hash now h st = (st2, Inr (api_key_row (be_pg st) h))"
proof -
  obtain s1 r1 where g: "get_key st now h = (s1, r1)" by fastforce
  have r1: "r1 \<noteq> Inr (Some k)" for k using keys.get_hit g none by force
  have "be_pg s1 = be_pg st" using g by (auto simp: get_key_def on_redis_def split: prod.splits)
  then have "snd (key_by_hash s1 h) = Inr (api_key_row (be_pg st) h)"
    using up by (simp add: key_by_hash_def GetAPIKeyByHash_def pg_query_def pg_exec_up)
  then obtain s2 where k: "key_by_hash s1 h = (s2, Inr (api_key_row (be_pg st) h))" by (metis prod.collapse)
  show ?thesis
  proof (cases r1)
    case (Inl e)
    then show ?thesis by (simp add: auth_lookup_def g k split: option.split)
  next
    case (Inr b)
    with r1 have "b = None" by (metis option.exhaust)
    with Inr show ?thesis by (simp add: auth_lookup_def g k split: option.split)
  qed
qed

lemma AuthMiddleware_runs:
  assumes token: "rq_Header r ''Authorization'' = ''Bearer '' @ token" "ValidateFormat token = None"
    and l: "auth_lookup get_key set_key key_by_hash now (HashKey token) st = (st2, Inr (Some k))"
    and k: "\<not> IsRevoked k" "HasScope k ''write''"
  shows "AuthMiddleware get_key set_key key_by_hash now next_h st r w = next_h st2
      (r\<lparr>rq_Ctx := (rq_Ctx r)\<lparr>ctx_OrgID := Some (key_OrgID k), ctx_OrgTier := Some (key_Tier k)\<rparr>\<rparr>) w"
proof -
  have "''Bearer '' @ token \<noteq> []" by simp
  moreover have "TrimPrefix (''Bearer '' @ token) ''Bearer '' = token" by (rule TrimPrefix_append)
  moreover have "token \<noteq> ''Bearer '' @ token" by simp
  ultimately show ?thesis unfolding AuthMiddleware_def Let_def token(1) using token(2) l k by simp
qed

text \<open>What a successful creation leaves: the new row, found by the hash of the plaintext.\<close>

lemma CreateAPIKey_row:
  assumes "\<forall>n. \<not> pg_fails db n" "CreateAPIKey db now orgID name pre h scopes prj = (db', Inr key)"
  shows "\<exists>org. find (\<lambda>org. org_ID org = orgID) (pg_organizations db) = Some org
    \<and> api_key_row db' h = Some (key\<lparr>key_ProjectID := None, key_Tier := org_Tier org\<rparr>)
    \<and> key_OrgID key = orgID \<and> key_Scopes key = scopes \<and> key_RevokedAt key = None"
proof -
  from assms have orgs: "orgID \<in> org_ID ` set (pg_organizations db)"
    and fresh: "h \<notin> key_KeyHash ` set (pg_api_keys db)"
    and db': "pg_api_keys db' = pg_api_keys db @ [key]" "pg_organizations db' = pg_organizations db"
    and key: "key_KeyHash key = h" "key_OrgID key = orgID" "key_Scopes key = scopes" "key_RevokedAt key = None"
    by (auto simp: CreateAPIKey_def pg_exec_up Let_def split: if_splits)
  from find_key [OF orgs] obtain org where
    "find (\<lambda>org. org_ID org = orgID) (pg_organizations db) = Some org" by blast
  moreover have "find (\<lambda>k. key_KeyHash k = h) (pg_api_keys db) = None"
    using fresh by (auto simp: find_None_iff)
  ultimately show ?thesis using key by (simp add: api_key_row_def db' find_append_None)
qed

text \<open>
  C21: The key that \<open>POST /api/v1/api-keys\<close> returns works: the answer 201 carries a plaintext for
  which, from then on and while the cache has no entry for it, the ingestion API runs its handler
  for the organisation of the session that created it.
\<close>

theorem HandleCreate_key_accepted:
  assumes up: "\<forall>n. \<not> pg_fails (be_pg st) n"
    and call: "HandleCreate now rnd body st r w = (st1, w1)" "rs_Status w1 = 201"
  shows "\<exists>members plaintext. rs_Body w1 = JObj [(''data'', JObj members), (''meta'', meta_json now [] w)]
    \<and> (''key'', JStr plaintext) \<in> set members
    \<and> (\<forall>now2 r2 w2 next_h. be_entry st1 now2 (HashKey plaintext) = None
         \<longrightarrow> rq_Header r2 ''Authorization'' = ''Bearer '' @ plaintext
         \<longrightarrow> (\<exists>st2 tier. AuthMiddleware get_key set_key key_by_hash now2 next_h st1 r2 w2 = next_h st2
               (r2\<lparr>rq_Ctx := (rq_Ctx r2)\<lparr>ctx_OrgID := Some (mw_OrgIDFromContext (rq_Ctx r)),
                                        ctx_OrgTier := Some tier\<rparr>\<rparr>) w2))"
proof -
  let ?org = "mw_OrgIDFromContext (rq_Ctx r)"
  from call obtain req where b: "body = Some req" "ca_ReqName req \<noteq> []" "\<not> 100 < length (ca_ReqName req)"
    by (cases body) (auto simp: HandleCreate_def validation_error_def split: if_splits)
  let ?pfx = "if ca_ReqType req = ''test'' then PrefixTest else PrefixLive"
  from call b obtain plaintext keyHash displayPrefix where
    g: "GenerateKey rnd ?pfx = Inr (plaintext, keyHash, displayPrefix)"
    by (cases "GenerateKey rnd ?pfx") (auto simp: HandleCreate_def Let_def internal_error_def)
  obtain s' res where c: "on_pg (\<lambda>db. CreateAPIKey db now ?org (ca_ReqName req) displayPrefix keyHash
          [''write'', ''read''] (ca_ReqProjectID req)) st = (s', res)" by fastforce
  with call b g obtain key where "res = Inr key"
    by (cases res) (auto simp: HandleCreate_def Let_def internal_error_def)
  with call b g c have c: "on_pg (\<lambda>db. CreateAPIKey db now ?org (ca_ReqName req) displayPrefix keyHash
          [''write'', ''read''] (ca_ReqProjectID req)) st = (st1, Inr key)"
    and w1: "w1 = WriteJSON now 201 (JObj
                       [(''id'', JStr (key_ID key)), (''name'', JStr (key_Name key)),
                        (''key'', JStr plaintext), (''key_prefix'', JStr displayPrefix),
                        (''project_id'', opt_json JStr (key_ProjectID key)),
                        (''scopes'', arr_json JStr (key_Scopes key)),
                        (''created_at'', JStr (Format_literal_Z (key_CreatedAt key)))]) w"
    by (simp_all add: HandleCreate_def Let_def)
  from GenerateKey_facts [OF g] have key: "ValidateFormat plaintext = None" "keyHash = HashKey plaintext" by simp_all
  have d: "CreateAPIKey (be_pg st) now ?org (ca_ReqName req) displayPrefix keyHash
          [''write'', ''read''] (ca_ReqProjectID req) = (be_pg st1, Inr key)"
    using c by (auto simp: on_pg_def split: prod.splits)
  from CreateAPIKey_row [OF up d] obtain org :: Organization where
    row: "api_key_row (be_pg st1) keyHash = Some (key\<lparr>key_ProjectID := None, key_Tier := org_Tier org\<rparr>)"
    "key_OrgID key = ?org" "key_Scopes key = [''write'', ''read'']" "key_RevokedAt key = None"
    by (elim exE conjE) (rule that)
  have up1: "\<forall>n. \<not> pg_fails (be_pg st1) n"
    using up pg_step_fails [OF pg_step.create_key, of "be_pg st" now ?org "ca_ReqName req" displayPrefix keyHash
        "[''write'', ''read'']" "ca_ReqProjectID req"] d by simp
  have "\<exists>st2 tier. AuthMiddleware get_key set_key key_by_hash now2 next_h st1 r2 w2 = next_h st2
               (r2\<lparr>rq_Ctx := (rq_Ctx r2)\<lparr>ctx_OrgID := Some ?org, ctx_OrgTier := Some tier\<rparr>\<rparr>) w2"
    if "be_entry st1 now2 (HashKey plaintext) = None"
      "rq_Header r2 ''Authorization'' = ''Bearer '' @ plaintext" for now2 r2 w2 and next_h :: "'a backends_scheme handler"
  proof -
    from auth_lookup_database [OF that(1) up1] obtain st2 where
      l: "auth_lookup get_key set_key key_by_hash now2 (HashKey plaintext) st1
         = (st2, Inr (Some (key\<lparr>key_ProjectID := None, key_Tier := org_Tier org\<rparr>)))"
      by (auto simp: row(1) key(2) [symmetric])
    show ?thesis
      by (intro exI, rule trans, rule AuthMiddleware_runs [OF that(2) key(1) l])
        (simp_all add: IsRevoked_def HasScope_iff row)
  qed
  then show ?thesis by (simp add: w1 WriteJSON_def)
qed

text \<open>A session of the organisation of \<open>sample_backends\<close>, whose id is \<open>0\<close>.\<close>

definition acme_session :: request where
  "acme_session = sample_request\<lparr>rq_Ctx := empty_ctx\<lparr>ctx_OrgID := Some ''0''\<rparr>\<rparr>"

definition sample_create :: "backends \<times> response" where
  "sample_create = HandleCreate zero_time (Some (replicate 32 7))
     (Some \<lparr>ca_ReqName = ''ci'', ca_ReqType = ''test'', ca_ReqProjectID = None\<rparr>)
     sample_backends acme_session fresh_response"

lemma sample_create_ok: "rs_Status (snd sample_create) = 201"
  by (simp add: sample_create_def HandleCreate_def GenerateKey_def randomBase62_def on_pg_def
      CreateAPIKey_def pg_exec_def sample_backends_def CreateOrg_def pg_empty_def Let_def
      acme_session_def mw_OrgIDFromContext_def dec.simps [of 0])

theorem HandleCreate_key_accepted_witness:
  "\<exists>members plaintext. rs_Body (snd sample_create)
      = JObj [(''data'', JObj members), (''meta'', meta_json zero_time [] fresh_response)]
    \<and> (''key'', JStr plaintext) \<in> set members"
proof -
  have "HandleCreate zero_time (Some (replicate 32 7))
     (Some \<lparr>ca_ReqName = ''ci'', ca_ReqType = ''test'', ca_ReqProjectID = None\<rparr>)
     sample_backends acme_session fresh_response = (fst sample_create, snd sample_create)"
    by (simp add: sample_create_def)
  moreover have "\<forall>n. \<not> pg_fails (be_pg sample_backends) n"
    by (simp add: sample_backends_def CreateOrg_def pg_exec_def pg_empty_def Let_def)
  ultimately show ?thesis using HandleCreate_key_accepted sample_create_ok by blast
qed

section \<open>A revoked key\<close>

lemma get_key_entry:
  assumes "\<forall>n. \<not> rd_fails (be_redis st) n" "be_entry st now h = Some k"
  shows "\<exists>st'. get_key st now h = (st', Inr (Some k))"
  using assms
  by (auto simp: get_key_def on_redis_def be_entry_def key_entry_def GetCachedAPIKey_def rd_defs
      rd_live_def split: option.splits redis_value.splits if_splits)

lemma api_key_row_hash: "api_key_row db h = Some k \<Longrightarrow> h \<in> key_KeyHash ` set (pg_api_keys db)"
  by (auto simp: api_key_row_def find_Some_iff split: option.splits)

lemma HandleRevoke_redis:
  assumes "keyID \<notin> key_KeyHash ` set (pg_api_keys (be_pg st))"
  shows "be_redis (fst (HandleRevoke now keyID st r w)) = be_redis st"
proof -
  have "snd (GetAPIKeyByHash (be_pg st) keyID) \<noteq> Inr (Some k)" for k
    using assms api_key_row_hash [of "be_pg st" keyID]
    by (auto simp: GetAPIKeyByHash_def pg_query_def pg_exec_def Let_def)
  then show ?thesis
    by (auto simp: HandleRevoke_def Let_def case_prod_unfold split: sum.split option.split)
qed

text \<open>
  C38: \<open>DELETE /api/v1/api-keys/{id}\<close> never removes a key from the cache, since it looks the hash up
  by the id (hashes have 64 digits, ids do not): a key that the ingestion API has cached is still
  accepted after the revocation has been answered, until its cache entry expires.
\<close>

theorem HandleRevoke_leaves_key_accepted:
  assumes hashes: "\<forall>k \<in> set (pg_api_keys (be_pg st)). length (key_KeyHash k) = 64" "length keyID \<noteq> 64"
    and up: "\<forall>n. \<not> rd_fails (be_redis st) n"
    and cached: "be_entry st now2 (HashKey token) = Some k" "\<not> IsRevoked k" "HasScope k ''write''"
    and token: "rq_Header r2 ''Authorization'' = ''Bearer '' @ token" "ValidateFormat token = None"
    and call: "HandleRevoke now keyID st r w = (st1, w1)"
  shows "\<exists>st2. AuthMiddleware get_key set_key key_by_hash now2 next_h st1 r2 w2 = next_h st2
      (r2\<lparr>rq_Ctx := (rq_Ctx r2)\<lparr>ctx_OrgID := Some (key_OrgID k), ctx_OrgTier := Some (key_Tier k)\<rparr>\<rparr>) w2"
proof -
  have "be_redis st1 = be_redis st"
    using HandleRevoke_redis [of keyID st now r w] hashes call by force
  then have "be_entry st1 now2 (HashKey token) = Some k" "\<forall>n. \<not> rd_fails (be_redis st1) n"
    using cached(1) up by (simp_all add: be_entry_def)
  from get_key_entry [OF this(2,1)] obtain st2 where
    "get_key st1 now2 (HashKey token) = (st2, Inr (Some k))" by blast
  then have "auth_lookup get_key set_key key_by_hash now2 (HashKey token) st1 = (st2, Inr (Some k))"
    by (simp add: auth_lookup_def)
  from AuthMiddleware_runs [OF token this cached(2,3)] show ?thesis by blast
qed

text \<open>A key that the ingestion API has just cached.\<close>

definition warm_backends :: backends where
  "warm_backends = fst (set_key sample_backends zero_time (HashKey sample_key)
     \<lparr>key_ID = ''1'', key_OrgID = ''0'', key_ProjectID = None, key_KeyPrefix = ''pm_live_xxxx'',
      key_KeyHash = HashKey sample_key, key_Name = ''Default'', key_Scopes = [''write''],
      key_LastUsedAt = None, key_CreatedAt = zero_time, key_RevokedAt = None, key_Tier = TierFree\<rparr> cacheTTL)"

theorem HandleRevoke_leaves_key_accepted_witness:
  "\<exists>st2. AuthMiddleware get_key set_key key_by_hash zero_time (\<lambda>st r w. (st, w))
      (fst (HandleRevoke zero_time ''1'' warm_backends acme_session fresh_response))
      (sample_request\<lparr>rq_Header := \<lambda>_. ''Bearer '' @ sample_key\<rparr>) fresh_response
    = (st2, fresh_response)"
proof -
  obtain st1 w1 where call: "HandleRevoke zero_time ''1'' warm_backends acme_session fresh_response = (st1, w1)"
    by fastforce
  note d = warm_backends_def sample_backends_def set_key_def on_redis_def SetCachedAPIKey_def rd_Set_def
    rd_exec_def be_entry_def key_entry_def rd_live_def cacheTTL_def Let_def
  obtain k where k: "be_entry warm_backends zero_time (HashKey sample_key) = Some k"
    "\<not> IsRevoked k" "HasScope k ''write''"
    by (simp add: d IsRevoked_def HasScope_iff of_cached_def cached_of_def)
  have h: "\<forall>k \<in> set (pg_api_keys (be_pg warm_backends)). length (key_KeyHash k) = 64"
    by (simp add: d CreateOrg_def pg_exec_def pg_empty_def)
  have u: "\<forall>n. \<not> rd_fails (be_redis warm_backends) n" by (simp add: d)
  have v: "ValidateFormat sample_key = None"
    unfolding ValidateFormat_iff by (intro exI [of _ PrefixLive] exI [of _ "replicate 32 (CHR ''x'')"])
      (simp add: sample_key_def PrefixLive_def keyLength_def base62Chars_def)
  have t: "rq_Header (sample_request\<lparr>rq_Header := \<lambda>_. ''Bearer '' @ sample_key\<rparr>) ''Authorization''
      = ''Bearer '' @ sample_key" by simp
  from HandleRevoke_leaves_key_accepted [OF h _ u k(1-3) t v call, of "\<lambda>st r w. (st, w)" fresh_response]
  show ?thesis by (simp add: call)
qed

section \<open>Settings\<close>

text \<open>What an accepted update asks for.\<close>

definition update_ok :: "tzdb \<Rightarrow> updateOrgRequest \<Rightarrow> bool" where
  "update_ok tz req \<longleftrightarrow>
     (case up_Name req of None \<Rightarrow> True | Some s \<Rightarrow> TrimSpace s \<noteq> [] \<and> length (TrimSpace s) \<le> 100)
     \<and> (case up_Timezone req of None \<Rightarrow> True | Some s \<Rightarrow> LoadLocation tz s \<noteq> None)
     \<and> (case up_SlackWebhookURL req of None \<Rightarrow> True | Some s \<Rightarrow> s = [] \<or> HasPrefix s slackPrefix)"

definition updated_org :: "gotime \<Rightarrow> updateOrgRequest \<Rightarrow> Organization \<Rightarrow> Organization" where
  "updated_org now req org =
     org\<lparr>org_Name := (case up_Name req of None \<Rightarrow> org_Name org | Some s \<Rightarrow> TrimSpace s),
         org_Timezone := (case up_Timezone req of None \<Rightarrow> org_Timezone org | Some s \<Rightarrow> s),
         org_PIIEnabled := (case up_PIIEnabled req of None \<Rightarrow> org_PIIEnabled org | Some b \<Rightarrow> b),
         org_SlackWebhookURL := (case up_SlackWebhookURL req of
            None \<Rightarrow> org_SlackWebhookURL org | Some s \<Rightarrow> if s = [] then None else Some s),
         org_UpdatedAt := now\<rparr>"

lemma apply_updates_ok:
  "apply_updates tz req org = Inr org' \<longleftrightarrow>
     update_ok tz req \<and> org' = (updated_org now req org)\<lparr>org_UpdatedAt := org_UpdatedAt org\<rparr>"
  by (auto simp: apply_updates_def update_name_def update_timezone_def update_slack_def update_ok_def
      updated_org_def Let_def split: option.splits)

lemma update_first:
  assumes "distinct (map key xs)" "find (\<lambda>x. key x = k) xs = Some y"
  shows "update_where (\<lambda>x. key x = k) (\<lambda>x. f x y) xs = map (\<lambda>x. if key x = k then f x x else x) xs"
proof -
  have "x = y" if "x \<in> set xs" "key x = k" for x
    using assms that by (auto simp: distinct_map find_Some_iff dest: inj_onD)
  then show ?thesis unfolding update_where_def by (intro map_cong) auto
qed

lemma UpdateOrg_rows:
  assumes up: "\<forall>n. \<not> pg_fails db n" and d: "distinct (map org_ID (pg_organizations db))"
    and f: "find (\<lambda>org. org_ID org = orgID) (pg_organizations db) = Some org"
    and org': "org' = (updated_org now req org)\<lparr>org_UpdatedAt := t\<rparr>"
  shows "snd (UpdateOrg db now org') = Inr ()"
    "pg_organizations (fst (UpdateOrg db now org')) =
       map (\<lambda>x. if org_ID x = orgID then updated_org now req x else x) (pg_organizations db)"
proof -
  have i: "org_ID org' = orgID" using f by (auto simp: org' updated_org_def find_Some_iff)
  show "snd (UpdateOrg db now org') = Inr ()" using up by (simp add: UpdateOrg_def pg_exec_up)
  let ?f = "\<lambda>x y. x\<lparr>org_Name := org_Name (updated_org now req y),
      org_Timezone := org_Timezone (updated_org now req y),
      org_PIIEnabled := org_PIIEnabled (updated_org now req y),
      org_SlackWebhookURL := org_SlackWebhookURL (updated_org now req y), org_UpdatedAt := now\<rparr>"
  have "pg_organizations (fst (UpdateOrg db now org'))
      = update_where (\<lambda>x. org_ID x = orgID) (\<lambda>x. ?f x org) (pg_organizations db)"
    using up i by (simp add: UpdateOrg_def pg_exec_up) (simp add: org')
  also have "\<dots> = map (\<lambda>x. if org_ID x = orgID then ?f x x else x) (pg_organizations db)"
    by (rule update_first [OF d f])
  also have "\<dots> = map (\<lambda>x. if org_ID x = orgID then updated_org now req x else x) (pg_organizations db)"
    by (intro map_cong refl) (simp add: updated_org_def)
  finally show "pg_organizations (fst (UpdateOrg db now org')) =
       map (\<lambda>x. if org_ID x = orgID then updated_org now req x else x) (pg_organizations db)" .
qed

text \<open>
  \<open>PUT /api/v1/settings/org\<close> answers 400 to an undecodable or invalid request, 404 when the
  organisation of the session does not exist, and otherwise 200; only in the last case a row
  changes, and it is the row of that organisation, by exactly what was asked for.
\<close>

lemma HandleUpdate_changes:
  assumes up: "\<forall>n. \<not> pg_fails (be_pg st) n"
    and ids: "distinct (map org_ID (pg_organizations (be_pg st)))"
    and call: "HandleUpdate tz now body st r w = (st', w')"
  shows "case body of
      None \<Rightarrow> rs_Status w' = 400 \<and> pg_organizations (be_pg st') = pg_organizations (be_pg st)
    | Some req \<Rightarrow>
        if mw_OrgIDFromContext (rq_Ctx r) \<notin> org_ID ` set (pg_organizations (be_pg st))
        then rs_Status w' = 404 \<and> pg_organizations (be_pg st') = pg_organizations (be_pg st)
        else if \<not> update_ok tz req
        then rs_Status w' = 400 \<and> pg_organizations (be_pg st') = pg_organizations (be_pg st)
        else rs_Status w' = 200 \<and> pg_organizations (be_pg st') =
               map (\<lambda>x. if org_ID x = mw_OrgIDFromContext (rq_Ctx r) then updated_org now req x else x)
                 (pg_organizations (be_pg st))"
proof (cases body)
  case None
  with call show ?thesis by (auto simp: HandleUpdate_def validation_error_def)
next
  case (Some req)
  let ?o = "mw_OrgIDFromContext (rq_Ctx r)"
  let ?st1 = "st\<lparr>be_pg := (be_pg st)\<lparr>pg_stmts := pg_stmts (be_pg st) + 1\<rparr>\<rparr>"
  have g: "on_pg (\<lambda>db. GetOrg db ?o) st = (?st1, Inr (find (\<lambda>org. org_ID org = ?o) (pg_organizations (be_pg st))))"
    using up by (simp add: on_pg_def GetOrg_def pg_query_def pg_exec_up)
  show ?thesis
  proof (cases "find (\<lambda>org. org_ID org = ?o) (pg_organizations (be_pg st))")
    case None
    then have "?o \<notin> org_ID ` set (pg_organizations (be_pg st))" by (auto simp: find_None_iff)
    with call None Some show ?thesis by (auto simp: HandleUpdate_def g not_found_def)
  next
    case found: (Some org)
    then have known: "?o \<in> org_ID ` set (pg_organizations (be_pg st))" 
      unfolding find_Some_iff by (metis imageI nth_mem)
    show ?thesis
    proof (cases "apply_updates tz req org")
      case (Inl e)
      then have "\<not> update_ok tz req" 
        using apply_updates_ok [of tz req org _ now] by (metis Inl_Inr_False)
      with call Some found known Inl show ?thesis
        by (auto simp: HandleUpdate_def g [simplified] validation_error_def Let_def)
    next
      case (Inr org')
      then have ok: "update_ok tz req" and org': "org' = (updated_org now req org)\<lparr>org_UpdatedAt := org_UpdatedAt org\<rparr>"
        by (simp_all add: apply_updates_ok [where now = now])
      note u = UpdateOrg_rows [of "be_pg ?st1", OF _ _ _ org', simplified, OF up ids found]
      obtain st2 where u2: "on_pg (\<lambda>db. UpdateOrg db now org') ?st1 = (st2, Inr ())"
        "be_pg st2 = fst (UpdateOrg (be_pg ?st1) now org')"
        using u(1) by (simp add: on_pg_def case_prod_unfold)
      from call have "st' = st2" "rs_Status w' = 200"
        by (auto simp: HandleUpdate_def Some g found Inr u2(1) Let_def simp del: One_nat_def)
      with u2(2) u(2) Some known ok show ?thesis by simp
    qed
  qed
qed

end
