(* ===== verification/Dash_Cost.thy ===== *)
theory Dash_Cost
  imports Dash_Params
begin

text \<open>
  Package \<open>handlers\<close>, \<open>overview.go\<close> and \<open>cost.go\<close>: the five read-only endpoints of the dashboard.
  Each looks its parameters up in the cache, asks ClickHouse on a miss, and caches the body that it
  writes. A JSON object lists its members in the order of the code.
\<close>

section \<open>overview.go\<close>

definition percentChange :: "f64 \<Rightarrow> f64 \<Rightarrow> f64 option" where
  "percentChange old new =
     (if old = 0 then (if new = 0 then Some 0 else None)
      else Some (fmul (fdiv (fsub new old) old) 100))"

record overviewResponse =
  ov_TotalCost :: f64
  ov_TotalRequests :: u64
  ov_ErrorRate :: f64
  ov_AvgCostPerReq :: f64
  ov_AvgLatencyMs :: f64
  ov_CostChange :: "f64 option"
  ov_RequestsChange :: "f64 option"
  ov_ErrorRateChange :: "f64 option"
  ov_CostPerReqChange :: "f64 option"
  ov_TopModel :: string
  ov_TopFeature :: string

definition error_rate :: "OverviewKPIs \<Rightarrow> f64" where
  "error_rate k =
     (if 0 < kpi_TotalRequests k
      then fmul (fdiv (f64_of_u64 (kpi_TotalErrors k)) (f64_of_u64 (kpi_TotalRequests k))) 100 else 0)"

definition cost_per_request :: "OverviewKPIs \<Rightarrow> f64" where
  "cost_per_request k =
     (if 0 < kpi_TotalRequests k then fdiv (kpi_TotalCost k) (f64_of_u64 (kpi_TotalRequests k)) else 0)"

definition top_group :: "CostBreakdownItem list result \<Rightarrow> string" where
  "top_group r = (case r of Inr (i # _) \<Rightarrow> cb_Group i | _ \<Rightarrow> [])"

definition overview_response ::
    "OverviewKPIs \<Rightarrow> OverviewKPIs option \<Rightarrow> CostBreakdownItem list result
     \<Rightarrow> CostBreakdownItem list result \<Rightarrow> overviewResponse" where
  "overview_response current previous models features =
     \<lparr>ov_TotalCost = kpi_TotalCost current, ov_TotalRequests = kpi_TotalRequests current,
      ov_ErrorRate = error_rate current, ov_AvgCostPerReq = cost_per_request current,
      ov_AvgLatencyMs = kpi_AvgLatencyMs current,
      ov_CostChange = (case previous of None \<Rightarrow> None
        | Some p \<Rightarrow> percentChange (kpi_TotalCost p) (kpi_TotalCost current)),
      ov_RequestsChange = (case previous of None \<Rightarrow> None
        | Some p \<Rightarrow> percentChange (f64_of_u64 (kpi_TotalRequests p)) (f64_of_u64 (kpi_TotalRequests current))),
      ov_ErrorRateChange = (case previous of None \<Rightarrow> None
        | Some p \<Rightarrow> percentChange (error_rate p) (error_rate current)),
      ov_CostPerReqChange = (case previous of None \<Rightarrow> None
        | Some p \<Rightarrow> percentChange (cost_per_request p) (cost_per_request current)),
      ov_TopModel = top_group models, ov_TopFeature = top_group features\<rparr>"

definition overview_json :: "overviewResponse \<Rightarrow> json" where
  "overview_json v =
     JObj ([(''total_cost'', JFloat (ov_TotalCost v)), (''total_requests'', u64_json (ov_TotalRequests v)),
       (''error_rate'', JFloat (ov_ErrorRate v)), (''avg_cost_per_request'', JFloat (ov_AvgCostPerReq v)),
       (''avg_latency_ms'', JFloat (ov_AvgLatencyMs v)),
       (''cost_change_percent'', opt_json JFloat (ov_CostChange v)),
       (''requests_change_percent'', opt_json JFloat (ov_RequestsChange v)),
       (''error_rate_change_percent'', opt_json JFloat (ov_ErrorRateChange v)),
       (''cost_per_req_change_percent'', opt_json JFloat (ov_CostPerReqChange v))]
       @ omit_empty ''top_model'' (ov_TopModel v) @ omit_empty ''top_feature'' (ov_TopFeature v))"

text \<open>The period before.\<close>

definition prev_params :: "DashboardQueryParams \<Rightarrow> DashboardQueryParams" where
  "prev_params p =
     p\<lparr>dq_To := dq_From p, dq_From := Add (dq_From p) (- Sub (dq_To p) (dq_From p))\<rparr>"

definition HandleOverview :: "tzdb \<Rightarrow> gotime \<Rightarrow> dashboard handler" where
  "HandleOverview tz now st r w =
     (case parseDashboardParams tz now r of
        Inl msg \<Rightarrow> (st, validation_error now msg w)
      | Inr (params, period) \<Rightarrow>
          let orgID = mw_OrgIDFromContext (rq_Ctx r);
              key = cacheKey orgID ''overview'' [period, dq_ProjectID params, dq_Timezone params]
          in (case cached_body now key st of
                (st, Some cached) \<Rightarrow> (st, write_cached ''HIT'' cached w)
              | (st, None) \<Rightarrow>
                  (case on_ch (\<lambda>ch. GetOverviewKPIs ch params) st of
                     (st, Inl _) \<Rightarrow> (st, internal_error now ''Failed to load overview data'' w)
                   | (st, Inr current) \<Rightarrow>
                       (case on_ch (\<lambda>ch. GetOverviewKPIs ch (prev_params params)) st of
                          (st, previous) \<Rightarrow>
                       (case on_ch (\<lambda>ch. GetCostBreakdown ch params ''model'' 1) st of
                          (st, models) \<Rightarrow>
                       (case on_ch (\<lambda>ch. GetCostBreakdown ch params ''feature'' 1) st of
                          (st, features) \<Rightarrow>
                            let resp = overview_response current
                                  (case previous of Inl _ \<Rightarrow> None | Inr k \<Rightarrow> Some k) models features;
                                data = JObj [(''data'', overview_json resp), (''meta'', meta_json now [] w)]
                            in (cache_body now key data (60 * second) st, write_cached ''MISS'' data w)))))))"

section \<open>cost.go\<close>

definition validTimeseriesGroupBy :: "string \<Rightarrow> bool" where
  "validTimeseriesGroupBy g \<longleftrightarrow> g = [] \<or> g = ''model'' \<or> g = ''feature''"

definition with_filters :: "request \<Rightarrow> DashboardQueryParams \<Rightarrow> DashboardQueryParams" where
  "with_filters r p =
     (case parseFilterParams r of (m, v, f) \<Rightarrow>
        p\<lparr>dq_ModelFilter := m, dq_ProviderFilter := v, dq_FeatureFilter := f\<rparr>)"

definition percent_of_total :: "CostBreakdownItem list \<Rightarrow> CostBreakdownItem list" where
  "percent_of_total items =
     (let totalCost = foldl (\<lambda>t i. fadd t (cb_CostUSD i)) 0 items
      in if 0 < totalCost
         then map (\<lambda>i. i\<lparr>cb_PercentOfTotal := fmul (fdiv (cb_CostUSD i) totalCost) 100\<rparr>) items
         else items)"

definition HandleCostBreakdown :: "tzdb \<Rightarrow> gotime \<Rightarrow> dashboard handler" where
  "HandleCostBreakdown tz now st r w =
     (case parseDashboardParams tz now r of
        Inl msg \<Rightarrow> (st, validation_error now msg w)
      | Inr (params, period) \<Rightarrow>
          let params = with_filters r params;
              (modelF, providerF, featureF) = parseFilterParams r;
              groupBy = rq_Query r ''group_by'';
              groupBy = (if groupBy = [] then ''model'' else groupBy)
          in if \<not> validGroupBy groupBy
             then (st, validation_error now ''Invalid group_by parameter'' w)
             else let orgID = mw_OrgIDFromContext (rq_Ctx r);
                      key = cacheKey orgID ''cost''
                        [period, dq_ProjectID params, groupBy, modelF, providerF, featureF, dq_Timezone params]
                  in (case cached_body now key st of
                        (st, Some cached) \<Rightarrow> (st, write_cached ''HIT'' cached w)
                      | (st, None) \<Rightarrow>
                          (case on_ch (\<lambda>ch. GetCostBreakdown ch params groupBy 20) st of
                             (st, Inl _) \<Rightarrow> (st, internal_error now ''Failed to load cost data'' w)
                           | (st, Inr items) \<Rightarrow>
                               let filters = omit_empty ''model'' modelF @ omit_empty ''provider'' providerF
                                             @ omit_empty ''feature'' featureF;
                                   data = JObj
                                     [(''data'', arr_json breakdown_json (percent_of_total items)),
                                      (''meta'', meta_json now [(''group_by'', JStr groupBy),
                                          (''period'', JStr period), (''filters'', JObj filters)] w)]
                               in (cache_body now key data (60 * second) st, write_cached ''MISS'' data w))))"

definition HandleCostTimeseries :: "tzdb \<Rightarrow> gotime \<Rightarrow> dashboard handler" where
  "HandleCostTimeseries tz now st r w =
     (case parseDashboardParams tz now r of
        Inl msg \<Rightarrow> (st, validation_error now msg w)
      | Inr (params, period) \<Rightarrow>
          let params = with_filters r params;
              (modelF, providerF, featureF) = parseFilterParams r;
              groupBy = rq_Query r ''group_by''
          in if \<not> validTimeseriesGroupBy groupBy
             then (st, validation_error now
                     (''Timeseries group_by must be '' @ [CHR 39] @ ''model'' @ [CHR 39] @ '', ''
                      @ [CHR 39] @ ''feature'' @ [CHR 39] @ '', or empty'') w)
             else let granularity = granularityForPeriod period;
                      orgID = mw_OrgIDFromContext (rq_Ctx r);
                      key = cacheKey orgID ''timeseries''
                        [period, dq_ProjectID params, groupBy, modelF, providerF, featureF, dq_Timezone params]
                  in (case cached_body now key st of
                        (st, Some cached) \<Rightarrow> (st, write_cached ''HIT'' cached w)
                      | (st, None) \<Rightarrow>
                          (case on_ch (\<lambda>ch. GetCostTimeseries ch params groupBy granularity) st of
                             (st, Inl _) \<Rightarrow> (st, internal_error now ''Failed to load timeseries data'' w)
                           | (st, Inr series) \<Rightarrow>
                               let data = JObj
                                     [(''data'', JObj [(''series'', arr_json series_json series),
                                                       (''granularity'', JStr granularity)]),
                                      (''meta'', meta_json now [(''period'', JStr period),
                                          (''group_by'', JStr groupBy)] w)]
                               in (cache_body now key data (60 * second) st, write_cached ''MISS'' data w))))"

text \<open>\<open>Duration.Seconds\<close> and \<open>Duration.Hours\<close>.\<close>

definition Seconds :: "int \<Rightarrow> f64" where
  "Seconds d = fadd (fl (of_int (quot d second))) (fdiv (fl (of_int (d - quot d second * second))) (of_int second))"

definition Hours :: "int \<Rightarrow> f64" where
  "Hours d = fadd (fl (of_int (quot d hour))) (fdiv (fl (of_int (d - quot d hour * hour))) (of_int hour))"

definition date_param :: "request \<Rightarrow> string \<Rightarrow> string + gotime" where
  "date_param r name =
     (case parse_RFC3339Nano (rq_Query r name) of
        None \<Rightarrow> Inl (''Invalid '' @ name @ '': must be ISO 8601'') | Some t \<Rightarrow> Inr t)"

definition compare_dates :: "request \<Rightarrow> string + gotime \<times> gotime \<times> gotime \<times> gotime" where
  "compare_dates r =
     (case date_param r ''current_from'' of Inl e \<Rightarrow> Inl e | Inr currentFrom \<Rightarrow>
     (case date_param r ''current_to'' of Inl e \<Rightarrow> Inl e | Inr currentTo \<Rightarrow>
     (case date_param r ''previous_from'' of Inl e \<Rightarrow> Inl e | Inr previousFrom \<Rightarrow>
     (case date_param r ''previous_to'' of Inl e \<Rightarrow> Inl e | Inr previousTo \<Rightarrow>
        Inr (currentFrom, currentTo, previousFrom, previousTo)))))"

definition compare_params :: "request \<Rightarrow> gotime \<Rightarrow> gotime \<Rightarrow> string \<Rightarrow> DashboardQueryParams" where
  "compare_params r from_t to_t zone =
     with_filters r
       \<lparr>dq_OrgID = OrgNumericFromContext (rq_Ctx r), dq_ProjectID = rq_Query r ''project'',
        dq_From = from_t, dq_To = to_t, dq_Timezone = zone, dq_ModelFilter = [],
        dq_ProviderFilter = [], dq_FeatureFilter = []\<rparr>"

definition HandleCostCompare :: "gotime \<Rightarrow> dashboard handler" where
  "HandleCostCompare now st r w =
     (case compare_dates r of
        Inl msg \<Rightarrow> (st, validation_error now msg w)
      | Inr (currentFrom, currentTo, previousFrom, previousTo) \<Rightarrow>
          let currentDur = Sub currentTo currentFrom; previousDur = Sub previousTo previousFrom
          in if 1 < \<bar>fsub (Seconds currentDur) (Seconds previousDur)\<bar>
             then (st, WriteError now 400 ''VALIDATION_ERROR''
                     ''Current and previous periods must have the same duration''
                     (Some [(''current_duration_hours'', JFloat (Hours currentDur)),
                            (''previous_duration_hours'', JFloat (Hours previousDur))]) w)
             else let groupBy = rq_Query r ''group_by'';
                      groupBy = (if groupBy = [] then ''model'' else groupBy)
             in if \<not> validGroupBy groupBy
             then (st, validation_error now ''Invalid group_by parameter'' w)
             else let zone = rq_Query r ''timezone'';
                      zone = (if zone = [] then ''UTC'' else zone);
                      (modelF, providerF, featureF) = parseFilterParams r;
                      orgID = mw_OrgIDFromContext (rq_Ctx r);
                      key = cacheKey orgID ''compare''
                        [Format_RFC3339 currentFrom, Format_RFC3339 currentTo,
                         Format_RFC3339 previousFrom, Format_RFC3339 previousTo,
                         rq_Query r ''project'', groupBy, modelF, providerF, featureF, zone]
                  in (case cached_body now key st of
                        (st, Some cached) \<Rightarrow> (st, write_cached ''HIT'' cached w)
                      | (st, None) \<Rightarrow>
                          (case on_ch (\<lambda>ch. GetCostCompare ch
                                   (compare_params r currentFrom currentTo zone)
                                   (compare_params r previousFrom previousTo zone) groupBy 20) st of
                             (st, Inl _) \<Rightarrow> (st, internal_error now ''Failed to load compare data'' w)
                           | (st, Inr result) \<Rightarrow>
                               let data = JObj
                                     [(''data'', compare_json result),
                                      (''meta'', meta_json now [(''group_by'', JStr groupBy)] w)]
                               in (cache_body now key data (60 * second) st, write_cached ''MISS'' data w))))"

definition HandleCostFilters :: "tzdb \<Rightarrow> gotime \<Rightarrow> dashboard handler" where
  "HandleCostFilters tz now st r w =
     (case parseDashboardParams tz now r of
        Inl msg \<Rightarrow> (st, validation_error now msg w)
      | Inr (params, _) \<Rightarrow>
          let orgID = mw_OrgIDFromContext (rq_Ctx r);
              key = cacheKey orgID ''cost-filters'' [dq_ProjectID params, dq_Timezone params]
          in (case cached_body now key st of
                (st, Some cached) \<Rightarrow> (st, write_cached ''HIT'' cached w)
              | (st, None) \<Rightarrow>
                  (case on_ch (\<lambda>ch. GetCostFilters ch params) st of
                     (st, Inl _) \<Rightarrow> (st, internal_error now ''Failed to load filter values'' w)
                   | (st, Inr result) \<Rightarrow>
                       let data = JObj [(''data'', filters_json result), (''meta'', meta_json now [] w)]
                       in (cache_body now key data (5 * minute) st, write_cached ''MISS'' data w))))"

section \<open>Tenant isolation\<close>

text \<open>The dashboard as if only one organisation had ever sent events.\<close>

definition only_org :: "u64 \<Rightarrow> dashboard \<Rightarrow> dashboard" where
  "only_org org st = st\<lparr>ds_ch := restrict_org org (ds_ch st)\<rparr>"

lemma on_ch_only_org:
  assumes "\<And>ch. f (restrict_org org ch) = (case f ch of (ch', r) \<Rightarrow> (restrict_org org ch', r))"
  shows "on_ch f (only_org org st) = (case on_ch f st of (st', r) \<Rightarrow> (only_org org st', r))"
  by (simp add: on_ch_def only_org_def assms case_prod_unfold)

lemma cached_body_only_org:
  "cached_body now key (only_org org st) = (case cached_body now key st of (st', b) \<Rightarrow> (only_org org st', b))"
  by (auto simp: cached_body_def on_redis_def only_org_def case_prod_unfold split: sum.splits)

lemma cache_body_only_org:
  "cache_body now key data ttl (only_org org st) = only_org org (cache_body now key data ttl st)"
  by (simp add: cache_body_def on_redis_def only_org_def case_prod_unfold)

lemma only_org_queries:
  "on_ch (\<lambda>ch. GetOverviewKPIs ch p) (only_org (dq_OrgID p) st)
     = (case on_ch (\<lambda>ch. GetOverviewKPIs ch p) st of (st', r) \<Rightarrow> (only_org (dq_OrgID p) st', r))"
  "on_ch (\<lambda>ch. GetCostBreakdown ch p g n) (only_org (dq_OrgID p) st)
     = (case on_ch (\<lambda>ch. GetCostBreakdown ch p g n) st of (st', r) \<Rightarrow> (only_org (dq_OrgID p) st', r))"
  "on_ch (\<lambda>ch. GetCostTimeseries ch p g gran) (only_org (dq_OrgID p) st)
     = (case on_ch (\<lambda>ch. GetCostTimeseries ch p g gran) st of (st', r) \<Rightarrow> (only_org (dq_OrgID p) st', r))"
  "on_ch (\<lambda>ch. GetCostFilters ch p) (only_org (dq_OrgID p) st)
     = (case on_ch (\<lambda>ch. GetCostFilters ch p) st of (st', r) \<Rightarrow> (only_org (dq_OrgID p) st', r))"
  by (intro on_ch_only_org restrict_overview restrict_breakdown restrict_timeseries restrict_filters)+

lemma only_org_compare:
  assumes "dq_OrgID p' = dq_OrgID p"
  shows "on_ch (\<lambda>ch. GetCostCompare ch p p' g n) (only_org (dq_OrgID p) st)
     = (case on_ch (\<lambda>ch. GetCostCompare ch p p' g n) st of (st', r) \<Rightarrow> (only_org (dq_OrgID p) st', r))"
  by (intro on_ch_only_org restrict_compare assms)

lemma params_org:
  "parseDashboardParams tz now r = Inr (p, period) \<Longrightarrow> dq_OrgID p = OrgNumericFromContext (rq_Ctx r)"
  by (auto simp: parseDashboardParams_def Let_def split: option.splits)

lemma derived_org [simp]:
  "dq_OrgID (prev_params p) = dq_OrgID p" "dq_OrgID (with_filters r p) = dq_OrgID p"
  "dq_OrgID (compare_params r f t z) = OrgNumericFromContext (rq_Ctx r)"
  by (simp_all add: prev_params_def with_filters_def compare_params_def case_prod_unfold)

text \<open>The shape that the handlers share commutes with the restriction when their query does.\<close>

definition lifts :: "u64 \<Rightarrow> (dashboard \<Rightarrow> dashboard \<times> 'r) \<Rightarrow> bool" where
  "lifts org q \<longleftrightarrow> (\<forall>st. q (only_org org st) = (case q st of (st', r) \<Rightarrow> (only_org org st', r)))"

lemma lifts_cached_body: "lifts org (cached_body now key)"
  by (simp add: lifts_def cached_body_only_org)

lemma lifts_return: "lifts org (\<lambda>st. (st, x))"
  by (simp add: lifts_def)

lemma lifts_cache: "lifts org (\<lambda>st. (cache_body now key data ttl st, x))"
  by (simp add: lifts_def cache_body_only_org)

lemma lifts_bind:
  assumes "lifts org q" "\<And>x. lifts org (f x)"
  shows "lifts org (\<lambda>st. case q st of (st', x) \<Rightarrow> f x st')"
  using assms by (simp add: lifts_def case_prod_unfold)

lemma lifts_bind_option:
  assumes "lifts org q" "lifts org n" "\<And>x. lifts org (s x)"
  shows "lifts org (\<lambda>st. case q st of (st', None) \<Rightarrow> n st' | (st', Some x) \<Rightarrow> s x st')"
proof -
  have "(\<lambda>st. case q st of (st', None) \<Rightarrow> n st' | (st', Some x) \<Rightarrow> s x st')
      = (\<lambda>st. case q st of (st', x) \<Rightarrow> (case x of None \<Rightarrow> n | Some y \<Rightarrow> s y) st')"
    by (auto simp: fun_eq_iff split: prod.split option.split)
  then show ?thesis using assms by (auto intro!: lifts_bind split: option.split)
qed

lemma lifts_bind_result:
  assumes "lifts org q" "\<And>e. lifts org (l e)" "\<And>x. lifts org (s x)"
  shows "lifts org (\<lambda>st. case q st of (st', Inl e) \<Rightarrow> l e st' | (st', Inr x) \<Rightarrow> s x st')"
proof -
  have "(\<lambda>st. case q st of (st', Inl e) \<Rightarrow> l e st' | (st', Inr x) \<Rightarrow> s x st')
      = (\<lambda>st. case q st of (st', x) \<Rightarrow> (case x of Inl e \<Rightarrow> l e | Inr y \<Rightarrow> s y) st')"
    by (auto simp: fun_eq_iff split: prod.split sum.split)
  then show ?thesis using assms by (auto intro!: lifts_bind split: sum.split)
qed

lemma lifts_queries:
  assumes "dq_OrgID p = org"
  shows "lifts org (on_ch (\<lambda>ch. GetOverviewKPIs ch p))"
    "lifts org (on_ch (\<lambda>ch. GetCostBreakdown ch p g n))"
    "lifts org (on_ch (\<lambda>ch. GetCostTimeseries ch p g gran))"
    "lifts org (on_ch (\<lambda>ch. GetCostFilters ch p))"
    "dq_OrgID p' = org \<Longrightarrow> lifts org (on_ch (\<lambda>ch. GetCostCompare ch p p' g n))"
  using only_org_queries [of p] only_org_compare [of p' p] by (simp_all add: lifts_def assms)

lemma lifts_if: "lifts org f \<Longrightarrow> lifts org g \<Longrightarrow> lifts org (\<lambda>st. if b then f st else g st)"
  by (cases b) simp_all

lemmas lifts_rules =
  lifts_if lifts_cached_body lifts_return lifts_cache lifts_bind_option lifts_bind_result lifts_queries lifts_bind

lemma parsed_params:
  assumes "OrgNumericFromContext (rq_Ctx r) = org" "parseDashboardParams tz now r = Inr y"
  obtains p period where "y = (p, period)" "dq_OrgID p = org"
  using params_org assms by (metis prod.exhaust)

lemma lifts_HandleCostFilters:
  assumes "OrgNumericFromContext (rq_Ctx r) = org"
  shows "lifts org (\<lambda>st. HandleCostFilters tz now st r w)"
proof (cases "parseDashboardParams tz now r")
  case (Inr y)
  then obtain p period where y: "y = (p, period)" "dq_OrgID p = org" by (rule parsed_params [OF assms])
  show ?thesis unfolding HandleCostFilters_def Inr y Let_def sum.case prod.case
    by (intro lifts_rules y)
qed (simp add: HandleCostFilters_def lifts_return)

lemma lifts_HandleOverview:
  assumes "OrgNumericFromContext (rq_Ctx r) = org"
  shows "lifts org (\<lambda>st. HandleOverview tz now st r w)"
proof (cases "parseDashboardParams tz now r")
  case (Inr y)
  then obtain p period where y: "y = (p, period)" "dq_OrgID p = org" by (rule parsed_params [OF assms])
  then have p': "dq_OrgID (prev_params p) = org" by simp
  show ?thesis unfolding HandleOverview_def Inr y Let_def sum.case prod.case
    by (intro lifts_rules y p')
qed (simp add: HandleOverview_def lifts_return)

lemma lifts_HandleCostBreakdown:
  assumes "OrgNumericFromContext (rq_Ctx r) = org"
  shows "lifts org (\<lambda>st. HandleCostBreakdown tz now st r w)"
proof (cases "parseDashboardParams tz now r")
  case (Inr y)
  then obtain p period where y: "y = (p, period)" "dq_OrgID p = org" by (rule parsed_params [OF assms])
  then have p': "dq_OrgID (with_filters r p) = org" by simp
  show ?thesis unfolding HandleCostBreakdown_def Inr y Let_def sum.case prod.case parseFilterParams_def
    by (intro lifts_rules p')
qed (simp add: HandleCostBreakdown_def lifts_return)

lemma lifts_HandleCostTimeseries:
  assumes "OrgNumericFromContext (rq_Ctx r) = org"
  shows "lifts org (\<lambda>st. HandleCostTimeseries tz now st r w)"
proof (cases "parseDashboardParams tz now r")
  case (Inr y)
  then obtain p period where y: "y = (p, period)" "dq_OrgID p = org" by (rule parsed_params [OF assms])
  then have p': "dq_OrgID (with_filters r p) = org" by simp
  show ?thesis unfolding HandleCostTimeseries_def Inr y Let_def sum.case prod.case parseFilterParams_def
    by (intro lifts_rules p')
qed (simp add: HandleCostTimeseries_def lifts_return)

lemma lifts_HandleCostCompare:
  assumes "OrgNumericFromContext (rq_Ctx r) = org"
  shows "lifts org (\<lambda>st. HandleCostCompare now st r w)"
proof (cases "compare_dates r")
  case (Inr y)
  obtain a b c d where y: "y = (a, b, c, d)" by (metis prod.exhaust)
  have p: "dq_OrgID (compare_params r f t z) = org" for f t z by (simp add: assms)
  show ?thesis unfolding HandleCostCompare_def Inr y Let_def sum.case prod.case parseFilterParams_def
    by (intro lifts_rules p)
qed (simp add: HandleCostCompare_def lifts_return)

text \<open>
  C4: The read-only endpoints serve an organisation from its own rows: with the rows of all other
  organisations removed from every table they answer the same and cache the same.
\<close>

theorem dashboard_isolates_tenants:
  assumes "OrgNumericFromContext (rq_Ctx r) = org"
    and "H \<in> {HandleOverview tz now, HandleCostBreakdown tz now, HandleCostTimeseries tz now,
              HandleCostCompare now, HandleCostFilters tz now}"
  shows "H (st\<lparr>ds_ch := restrict_org org (ds_ch st)\<rparr>) r w
       = (case H st r w of (st', w') \<Rightarrow> (st'\<lparr>ds_ch := restrict_org org (ds_ch st')\<rparr>, w'))"
proof -
  have "lifts org (\<lambda>st. H st r w)"
    using assms(2) lifts_HandleOverview [OF assms(1)] lifts_HandleCostBreakdown [OF assms(1)]
      lifts_HandleCostTimeseries [OF assms(1)] lifts_HandleCostCompare [OF assms(1)]
      lifts_HandleCostFilters [OF assms(1)]
    by (elim insertE emptyE) simp_all
  then show ?thesis by (simp add: lifts_def only_org_def)
qed

text \<open>A dashboard with stored events and a session of organisation 1.\<close>

definition sample_dashboard :: dashboard where
  "sample_dashboard =
     \<lparr>be_redis = \<lparr>rd_data = Map.empty, rd_cmds = 0, rd_fails = \<lambda>_. False\<rparr>,
      be_pg = pg_empty (\<lambda>n. dec n) (\<lambda>_. False) [], ds_ch = filled_store\<rparr>"

definition sample_session :: request where
  "sample_session =
     sample_request\<lparr>rq_Ctx := empty_ctx\<lparr>ctx_OrgID := Some ''acme'', ctx_OrgNumeric := Some 1\<rparr>\<rparr>"

theorem dashboard_isolates_tenants_witness:
  "HandleOverview (\<lambda>_. None) zero_time
      (sample_dashboard\<lparr>ds_ch := restrict_org 1 (ds_ch sample_dashboard)\<rparr>) sample_session fresh_response
   = (case HandleOverview (\<lambda>_. None) zero_time sample_dashboard sample_session fresh_response of
        (st', w') \<Rightarrow> (st'\<lparr>ds_ch := restrict_org 1 (ds_ch st')\<rparr>, w'))"
  by (rule dashboard_isolates_tenants [where tz = "\<lambda>_. None" and now = zero_time])
    (simp_all add: sample_session_def OrgNumericFromContext_def)

section \<open>What the cache answers\<close>

lemma cached_body_fails [simp]: "rd_fails (be_redis (fst (cached_body now key st))) = rd_fails (be_redis st)"
  by (auto simp: cached_body_def on_redis_def GetCached_def rd_defs case_prod_unfold
      split: sum.split option.split redis_value.split)

lemma on_ch_redis [simp]: "be_redis (fst (on_ch f st)) = be_redis st"
  by (simp add: on_ch_def case_prod_unfold)

lemma cached_after:
  assumes "\<forall>n. \<not> rd_fails (be_redis st) n" "0 < ttl" "t_ns now' < t_ns now + ttl"
  shows "snd (cached_body now' key (cache_body now key data ttl st)) = Some data"
  using assms
  by (simp add: cached_body_def cache_body_def on_redis_def GetCached_def SetCached_def rd_defs rd_live_def)

text \<open>The key of a breakdown request.\<close>

definition cost_key :: "request \<Rightarrow> string" where
  "cost_key r =
     (let period = rq_Query r ''period''; g = rq_Query r ''group_by''; zone = rq_Query r ''timezone'' in
      cacheKey (mw_OrgIDFromContext (rq_Ctx r)) ''cost''
        [if period = [] then ''7d'' else period, rq_Query r ''project'', if g = [] then ''model'' else g,
         rq_Query r ''model'', rq_Query r ''provider'', rq_Query r ''feature'',
         if zone = [] then ''UTC'' else zone])"

lemma parsed_values:
  assumes "parseDashboardParams tz now r = Inr (p, period)"
  shows "period = (if rq_Query r ''period'' = [] then ''7d'' else rq_Query r ''period'')"
    "dq_ProjectID p = rq_Query r ''project''"
    "dq_Timezone p = (if rq_Query r ''timezone'' = [] then ''UTC'' else rq_Query r ''timezone'')"
  using assms by (auto simp: parseDashboardParams_def Let_def split: option.splits)

lemma with_filters_same [simp]:
  "dq_ProjectID (with_filters r p) = dq_ProjectID p" "dq_Timezone (with_filters r p) = dq_Timezone p"
  by (simp_all add: with_filters_def case_prod_unfold)

text \<open>A request that is not refused looks its key up, and on a miss stores what it answers.\<close>

lemma HandleCostBreakdown_served:
  assumes p: "parseDashboardParams tz now r = Inr (p, period)"
    and g: "validGroupBy (if rq_Query r ''group_by'' = [] then ''model'' else rq_Query r ''group_by'')"
  obtains q :: "dashboard \<Rightarrow> dashboard \<times> CostBreakdownItem list result" and bad body where
    "\<And>st. be_redis (fst (q st)) = be_redis st"
    "rs_Header bad ''X-Cache'' = rs_Header w ''X-Cache''"
    "\<And>st. HandleCostBreakdown tz now st r w =
        (case cached_body now (cost_key r) st of
           (st, Some cached) \<Rightarrow> (st, write_cached ''HIT'' cached w)
         | (st, None) \<Rightarrow> (case q st of
             (st, Inl e) \<Rightarrow> (st, bad)
           | (st, Inr items) \<Rightarrow> (cache_body now (cost_key r) (body items) (60 * second) st,
                               write_cached ''MISS'' (body items) w)))"
proof -
  let ?g = "if rq_Query r ''group_by'' = [] then ''model'' else rq_Query r ''group_by''"
  let ?q = "on_ch (\<lambda>ch. GetCostBreakdown ch (with_filters r p) ?g 20)"
  let ?filters = "omit_empty ''model'' (rq_Query r ''model'') @ omit_empty ''provider'' (rq_Query r ''provider'')
      @ omit_empty ''feature'' (rq_Query r ''feature'')"
  let ?body = "\<lambda>items. JObj [(''data'', arr_json breakdown_json (percent_of_total items)),
      (''meta'', meta_json now [(''group_by'', JStr ?g), (''period'', JStr period), (''filters'', JObj ?filters)] w)]"
  have k: "cacheKey (mw_OrgIDFromContext (rq_Ctx r)) ''cost''
      [period, dq_ProjectID p, ?g, rq_Query r ''model'', rq_Query r ''provider'', rq_Query r ''feature'',
       dq_Timezone p] = cost_key r"
    by (simp add: cost_key_def parsed_values [OF p] Let_def)
  have h: "HandleCostBreakdown tz now st r w =
        (case cached_body now (cost_key r) st of
           (st, Some cached) \<Rightarrow> (st, write_cached ''HIT'' cached w)
         | (st, None) \<Rightarrow> (case ?q st of
             (st, Inl e) \<Rightarrow> (st, internal_error now ''Failed to load cost data'' w)
           | (st, Inr items) \<Rightarrow> (cache_body now (cost_key r) (?body items) (60 * second) st,
                               write_cached ''MISS'' (?body items) w)))" for st
    unfolding HandleCostBreakdown_def p sum.case prod.case Let_def parseFilterParams_def
      with_filters_same k using g by (simp only: not_True_eq_False if_False)
  have "rs_Header (internal_error now ''Failed to load cost data'' w) ''X-Cache'' = rs_Header w ''X-Cache''"
    by (simp add: internal_error_def WriteError_def)
  then show thesis by (rule that [OF on_ch_redis _ h])
qed

lemma HandleCostBreakdown_refused:
  assumes "\<And>p period. parseDashboardParams tz now r = Inr (p, period) \<Longrightarrow>
      \<not> validGroupBy (if rq_Query r ''group_by'' = [] then ''model'' else rq_Query r ''group_by'')"
  shows "\<exists>w'. rs_Status w' = 400 \<and> rs_Header w' ''X-Cache'' = rs_Header w ''X-Cache''
      \<and> (\<forall>st. HandleCostBreakdown tz now st r w = (st, w'))"
  using assms
  by (cases "parseDashboardParams tz now r")
    (auto simp: HandleCostBreakdown_def validation_error_def WriteError_def Let_def case_prod_unfold)

lemma HandleCostBreakdown_miss:
  assumes "HandleCostBreakdown tz now st r w = (st1, w1)"
    and "rs_Header w1 ''X-Cache'' = Some ''MISS''" "rs_Header w ''X-Cache'' = None"
  shows "(\<exists>p period. parseDashboardParams tz now r = Inr (p, period))
    \<and> validGroupBy (if rq_Query r ''group_by'' = [] then ''model'' else rq_Query r ''group_by'')
    \<and> (\<exists>st0. st1 = cache_body now (cost_key r) (rs_Body w1) (60 * second) st0
         \<and> rd_fails (be_redis st0) = rd_fails (be_redis st))"
proof (cases "\<exists>p period. parseDashboardParams tz now r = Inr (p, period)
    \<and> validGroupBy (if rq_Query r ''group_by'' = [] then ''model'' else rq_Query r ''group_by'')")
  case False
  from HandleCostBreakdown_refused [of tz now r w] False assms show ?thesis by fastforce
next
  case True
  then obtain p period where p: "parseDashboardParams tz now r = Inr (p, period)"
    "validGroupBy (if rq_Query r ''group_by'' = [] then ''model'' else rq_Query r ''group_by'')" by blast
  obtain q :: "dashboard \<Rightarrow> dashboard \<times> CostBreakdownItem list result" and bad body where
    q: "\<And>st. be_redis (fst (q st)) = be_redis st" "rs_Header bad ''X-Cache'' = rs_Header w ''X-Cache''"
    and h: "\<And>st. HandleCostBreakdown tz now st r w =
        (case cached_body now (cost_key r) st of
           (st, Some cached) \<Rightarrow> (st, write_cached ''HIT'' cached w)
         | (st, None) \<Rightarrow> (case q st of
             (st, Inl e) \<Rightarrow> (st, bad)
           | (st, Inr items) \<Rightarrow> (cache_body now (cost_key r) (body items) (60 * second) st,
                               write_cached ''MISS'' (body items) w)))"
    by (rule HandleCostBreakdown_served [OF p, where w = w]) (rule that)
  obtain sc b where c: "cached_body now (cost_key r) st = (sc, b)" by fastforce
  have "b = None" using assms h c by (cases b) (auto simp: write_cached_def)
  moreover obtain s2 x where s2: "q sc = (s2, x)" by fastforce
  moreover have "\<exists>items. x = Inr items" using assms h c calculation q(2) by (cases x) auto
  ultimately obtain items where e: "st1 = cache_body now (cost_key r) (body items) (60 * second) s2"
    "w1 = write_cached ''MISS'' (body items) w" using assms(1) h c by auto
  have "rd_fails (be_redis s2) = rd_fails (be_redis st)"
    using q(1) s2 c cached_body_fails [of now "cost_key r" st] by (metis fst_conv)
  moreover have "rs_Body w1 = body items" by (simp add: e(2) write_cached_def)
  ultimately show ?thesis using p e(1) by (intro conjI exI [of _ s2]) (auto simp only:)
qed

lemma cost_key_shared:
  assumes "rq_Query r1 = q(''model'' := x, ''provider'' := [])"
    and "rq_Query r2 = q(''model'' := [], ''provider'' := x)" and "rq_Ctx r2 = rq_Ctx r1"
  shows "cost_key r2 = cost_key r1"
  by (simp add: cost_key_def cacheKey_def assms bytes_of_def)

text \<open>
  C39: The cache key of a breakdown joins the filters without a separator, so a model filter and
  the same provider filter share it: within a minute after a request that filters by a model, a
  request of the same organisation that filters by that name as a provider is answered with the
  costs of the model.
\<close>

theorem cost_cache_confuses_filters:
  assumes up: "\<forall>n. \<not> rd_fails (be_redis st) n"
    and q1: "rq_Query r1 = q(''model'' := x, ''provider'' := [])"
    and q2: "rq_Query r2 = q(''model'' := [], ''provider'' := x)" and ctx: "rq_Ctx r2 = rq_Ctx r1"
    and miss: "HandleCostBreakdown tz now st r1 w = (st1, w1)"
      "rs_Header w1 ''X-Cache'' = Some ''MISS''" "rs_Header w ''X-Cache'' = None"
    and soon: "t_ns now' < t_ns now + 60 * second"
  shows "rs_Body (snd (HandleCostBreakdown tz now' st1 r2 w')) = rs_Body w1
       \<and> rs_Header (snd (HandleCostBreakdown tz now' st1 r2 w')) ''X-Cache'' = Some ''HIT''"
proof -
  from HandleCostBreakdown_miss [OF miss] obtain p period st0 where
    p: "parseDashboardParams tz now r1 = Inr (p, period)"
      "validGroupBy (if rq_Query r1 ''group_by'' = [] then ''model'' else rq_Query r1 ''group_by'')"
    and st1: "st1 = cache_body now (cost_key r1) (rs_Body w1) (60 * second) st0"
      "rd_fails (be_redis st0) = rd_fails (be_redis st)" by blast
  have same: "rq_Query r2 ''period'' = rq_Query r1 ''period''"
    "rq_Query r2 ''timezone'' = rq_Query r1 ''timezone''"
    "rq_Query r2 ''group_by'' = rq_Query r1 ''group_by''" by (simp_all add: q1 q2)
  from p(1) obtain p2 period2 where p2: "parseDashboardParams tz now' r2 = Inr (p2, period2)"
    by (auto simp: parseDashboardParams_def Let_def same split: option.splits)
  have "snd (cached_body now' (cost_key r2) st1) = Some (rs_Body w1)"
    unfolding cost_key_shared [OF q1 q2 ctx] st1(1)
    using up soon by (intro cached_after) (simp_all add: st1(2))
  then obtain sc where "cached_body now' (cost_key r2) st1 = (sc, Some (rs_Body w1))"
    by (metis prod.collapse)
  moreover have "validGroupBy (if rq_Query r2 ''group_by'' = [] then ''model'' else rq_Query r2 ''group_by'')"
    using p(2) by (simp only: same)
  ultimately have "HandleCostBreakdown tz now' st1 r2 w' = (sc, write_cached ''HIT'' (rs_Body w1) w')"
    by (elim HandleCostBreakdown_served [OF p2, where w = w']) simp
  then show ?thesis by (simp add: write_cached_def)
qed

definition sample_filter :: "string \<Rightarrow> string \<Rightarrow> request" where
  "sample_filter model provider =
     sample_session\<lparr>rq_Query := (\<lambda>_. [])(''model'' := model, ''provider'' := provider)\<rparr>"

definition quiet_dashboard :: dashboard where
  "quiet_dashboard = sample_dashboard\<lparr>ds_ch := ch_empty sum_list (\<lambda>_. False) (\<lambda>_. False)\<rparr>"

lemma quiet_miss:
  "rs_Header (snd (HandleCostBreakdown (\<lambda>_. None) zero_time quiet_dashboard (sample_filter ''o1'' []) fresh_response))
     ''X-Cache'' = Some ''MISS''"
  by (simp add: HandleCostBreakdown_def parseDashboardParams_def sample_filter_def validPeriods_def
      LoadLocation_def Let_def parseFilterParams_def validGroupBy_def cached_body_def on_redis_def
      quiet_dashboard_def sample_dashboard_def GetCached_def rd_defs rd_live_def on_ch_def
      GetCostBreakdown_def needsCrossDimensional_def with_filters_def getCostByModel_def ch_query_def
      ch_exec_def ch_empty_def write_cached_def split: prod.split)

theorem cost_cache_confuses_filters_witness:
  "rs_Body (snd (HandleCostBreakdown (\<lambda>_. None) zero_time
       (fst (HandleCostBreakdown (\<lambda>_. None) zero_time quiet_dashboard (sample_filter ''o1'' []) fresh_response))
       (sample_filter [] ''o1'') fresh_response))
   = rs_Body (snd (HandleCostBreakdown (\<lambda>_. None) zero_time quiet_dashboard (sample_filter ''o1'' [])
       fresh_response))"
proof (rule conjunct1 [OF cost_cache_confuses_filters [where q = "\<lambda>_. []" and x = "''o1''"]])
  show "\<forall>n. \<not> rd_fails (be_redis quiet_dashboard) n" by (simp add: quiet_dashboard_def sample_dashboard_def)
  show "HandleCostBreakdown (\<lambda>_. None) zero_time quiet_dashboard (sample_filter ''o1'' []) fresh_response
      = (fst (HandleCostBreakdown (\<lambda>_. None) zero_time quiet_dashboard (sample_filter ''o1'' []) fresh_response),
         snd (HandleCostBreakdown (\<lambda>_. None) zero_time quiet_dashboard (sample_filter ''o1'' []) fresh_response))"
    by simp
qed (rule quiet_miss | simp add: sample_filter_def | simp add: fresh_response_def)+

end
