(* ===== verification/Dash_Signup.thy ===== *)
theory Dash_Signup
  imports Dash_Auth
begin

text \<open>
  How organisations come to be: \<open>bootstrapSelfHosted\<close> of \<open>cmd/dashboard/main.go\<close>, which prepares
  the default organisation of a self-hosted installation, and the first sign-in of a user
  (\<open>HandleOAuthCallback\<close>). The errors of the bootstrap are its messages.
\<close>

section \<open>bootstrapSelfHosted\<close>

definition adminEmail :: string where "adminEmail = ''admin@localhost''"

text \<open>The branch \<open>count > 0\<close>.\<close>

definition existing_default ::
    "gotime \<Rightarrow> 'z backends_scheme \<Rightarrow> 'z backends_scheme \<times> (string + string \<times> string \<times> u64)" where
  "existing_default now st =
     (case on_pg (\<lambda>db. CreateOrGetUser db now adminEmail ''Admin'' []) st of
        (st, Inl _) \<Rightarrow> (st, Inl ''get default user'')
      | (st, Inr (user, _)) \<Rightarrow>
          (case on_pg (\<lambda>db. GetOrgByUserID db (user_ID user)) st of
             (st, Inl _) \<Rightarrow> (st, Inl ''get org for user'')
           | (st, Inr None) \<Rightarrow> (st, Inl ''no org found for default user'')
           | (st, Inr (Some org)) \<Rightarrow> (st, Inr (user_ID user, org_ID org, OrgIDToUint64 (org_ID org)))))"

definition new_default ::
    "gotime \<Rightarrow> u8 list option \<Rightarrow> 'z backends_scheme
     \<Rightarrow> 'z backends_scheme \<times> (string + string \<times> string \<times> u64)" where
  "new_default now rnd st =
     (case on_pg (\<lambda>db. CreateOrg db now ''Default Organization'' ''default'') st of
        (st, Inl _) \<Rightarrow> (st, Inl ''create default org'')
      | (st, Inr org) \<Rightarrow>
          (case on_pg (\<lambda>db. CreateOrGetUser db now adminEmail ''Admin'' []) st of
             (st, Inl _) \<Rightarrow> (st, Inl ''create default user'')
           | (st, Inr (user, _)) \<Rightarrow>
               (case on_pg (\<lambda>db. AddOrgMember db (org_ID org) (user_ID user) ''owner'') st of
                  (st, Inl _) \<Rightarrow> (st, Inl ''add org member'')
                | (st, Inr _) \<Rightarrow>
                    (create_defaults now rnd (org_ID org) st,
                     Inr (user_ID user, org_ID org, OrgIDToUint64 (org_ID org))))))"

definition bootstrapSelfHosted ::
    "gotime \<Rightarrow> u8 list option \<Rightarrow> 'z backends_scheme
     \<Rightarrow> 'z backends_scheme \<times> (string + string \<times> string \<times> u64)" where
  "bootstrapSelfHosted now rnd st =
     (case on_pg CountOrgs st of
        (st, Inl _) \<Rightarrow> (st, Inl ''count orgs'')
      | (st, Inr n) \<Rightarrow> if 0 < n then existing_default now st else new_default now rnd st)"

lemma pg_runs_existing_default: "pg_runs (existing_default now)"
  unfolding existing_default_def by (intro pg_runs_rules)

lemma pg_runs_new_default: "pg_runs (new_default now rnd)"
  unfolding new_default_def by (intro pg_runs_rules pg_runs_create_defaults)

lemma pg_runs_bootstrap: "pg_runs (bootstrapSelfHosted now rnd)"
  unfolding bootstrapSelfHosted_def by (intro pg_runs_rules pg_runs_existing_default pg_runs_new_default)

section \<open>The organisation of a user\<close>

text \<open>The first membership of a user.\<close>

definition first_member :: "pgdb \<Rightarrow> string \<Rightarrow> (string \<times> string \<times> string) option" where
  "first_member db u = find (\<lambda>m. fst (snd m) = u) (pg_org_members db)"

definition owned_org :: "pgdb \<Rightarrow> string \<Rightarrow> Organization option" where
  "owned_org db u =
     (case first_member db u of
        None \<Rightarrow> None | Some m \<Rightarrow> find (\<lambda>org. org_ID org = fst m) (pg_organizations db))"

lemma owned_org_stmts [simp]: "owned_org (db\<lparr>pg_stmts := n\<rparr>) u = owned_org db u"
  by (simp add: owned_org_def first_member_def cong: option.case_cong)

lemma hd_filter_find: "(case filter P xs of [] \<Rightarrow> None | x # _ \<Rightarrow> Some x) = find P xs"
  by (induction xs) auto

lemma GetOrgByUserID_owned:
  assumes "pg_wf db" "\<forall>n. \<not> pg_fails db n"
  shows "snd (GetOrgByUserID db u) = Inr (owned_org db u)"
proof -
  have "(case concat (map (\<lambda>(o_id, u_id, _).
              if u_id = u then filter (\<lambda>org. org_ID org = o_id) orgs else []) ms) of
         [] \<Rightarrow> None | org # _ \<Rightarrow> Some org)
      = (case find (\<lambda>m. fst (snd m) = u) ms of
           None \<Rightarrow> None | Some m \<Rightarrow> find (\<lambda>org. org_ID org = fst m) orgs)"
    if "(\<lambda>(o_id, _, _). o_id) ` set ms \<subseteq> org_ID ` set orgs" for ms and orgs :: "Organization list"
    using that
  proof (induction ms)
    case (Cons m ms)
    obtain o_id u_id role where m: "m = (o_id, u_id, role)" by (metis prod.exhaust)
    with Cons.prems have "filter (\<lambda>org. org_ID org = o_id) orgs \<noteq> []" by (auto simp: filter_empty_conv)
    then obtain a as where a: "filter (\<lambda>org. org_ID org = o_id) orgs = a # as"
      by (meson neq_Nil_conv)
    then have "find (\<lambda>org. org_ID org = o_id) orgs = Some a"
      using hd_filter_find [of "\<lambda>org. org_ID org = o_id" orgs] by simp
    with a Cons show ?case by (simp add: m)
  qed simp
  moreover have "(\<lambda>(o_id, _, _). o_id) ` set (pg_org_members db) \<subseteq> org_ID ` set (pg_organizations db)"
    using assms(1) by (simp add: pg_wf_def)
  ultimately show ?thesis
    using assms(2)
    by (simp add: GetOrgByUserID_def pg_query_def pg_exec_def Let_def owned_org_def first_member_def
        cong: if_cong)
qed

section \<open>A bootstrap that has succeeded\<close>

text \<open>What later starts of the server find: the default user, and its first membership.\<close>

definition booted :: "pgdb \<Rightarrow> string \<Rightarrow> string \<Rightarrow> bool" where
  "booted db u orgID \<longleftrightarrow>
     pg_organizations db \<noteq> []
     \<and> (\<exists>user. find (\<lambda>x. user_Email x = adminEmail) (pg_users db) = Some user \<and> user_ID user = u)
     \<and> (\<exists>role. first_member db u = Some (orgID, u, role))"

text \<open>Users and memberships are only appended, organisations never removed.\<close>

definition grows :: "pgdb \<Rightarrow> pgdb \<Rightarrow> bool" where
  "grows db db' \<longleftrightarrow>
     prefix (pg_users db) (pg_users db') \<and> prefix (pg_org_members db) (pg_org_members db')
     \<and> length (pg_organizations db) \<le> length (pg_organizations db')"

lemma grows_same:
  "pg_users db' = pg_users db \<Longrightarrow> pg_org_members db' = pg_org_members db
    \<Longrightarrow> length (pg_organizations db') = length (pg_organizations db) \<Longrightarrow> grows db db'"
  by (simp add: grows_def)

lemma grows_stmts: "grows (db\<lparr>pg_stmts := n\<rparr>) db' = grows db db'"
  by (simp add: grows_def)

lemma grows_exec:
  assumes "\<And>uuid db. grows db (fst (f uuid db))" shows "grows db (fst (pg_exec f db))"
  using assms [of "db\<lparr>pg_stmts := Suc (pg_stmts db)\<rparr>" "pg_uuid db (pg_stmts db)"]
  by (simp add: pg_exec_def Let_def grows_stmts) (simp add: grows_def)

lemma grows_trans: "grows db1 db2 \<Longrightarrow> grows db2 db3 \<Longrightarrow> grows db1 db3"
  unfolding grows_def by (meson order_trans prefix_order.trans)

lemma grows_CreateOrGetUser: "grows db (fst (CreateOrGetUser db now email name avatar))"
proof -
  let ?ins = "\<lambda>uuid db. if email \<in> user_Email ` set (pg_users db) then (db, Inl PostgresError)
      else let user = \<lparr>user_ID = uuid, user_Email = email, user_Name = name,
                       user_AvatarURL = avatar, user_CreatedAt = now\<rparr>
           in (db\<lparr>pg_users := pg_users db @ [user]\<rparr>, Inr user)"
  have "grows db (fst (pg_exec ?ins db))" for db
    by (rule grows_exec) (simp add: grows_def Let_def)
  moreover have "grows db (fst (pg_query q db))" for q :: "pgdb \<Rightarrow> User option"
    by (simp add: pg_query_state grows_def)
  ultimately show ?thesis
    unfolding CreateOrGetUser_def case_prod_unfold
    by (auto split: sum.split option.split intro: grows_trans)
qed

lemma pg_step_grows: "pg_step db db' \<Longrightarrow> grows db db'"
proof (induction rule: pg_step.induct)
  case (user db now email name avatar)
  show ?case by (rule grows_CreateOrGetUser)
next
  case (query db)
  show ?case by (simp add: grows_def)
qed (unfold pg_op_defs, (rule grows_exec, simp add: grows_def Let_def update_where_def)+)

lemma pg_steps_grows: "pg_step\<^sup>*\<^sup>* db db' \<Longrightarrow> grows db db'"
proof (induction rule: rtranclp_induct)
  case base
  show ?case by (simp add: grows_def)
next
  case (step y z)
  from pg_step_grows [OF step.hyps(2)] step.IH show ?case
    unfolding grows_def by (meson order_trans prefix_order.trans)
qed

lemma booted_grows: "grows db db' \<Longrightarrow> booted db u orgID \<Longrightarrow> booted db' u orgID"
  by (auto simp: grows_def booted_def first_member_def prefix_def find_append_Some)

lemma booted_owned:
  assumes "pg_wf db" "booted db u orgID"
  shows "\<exists>org. owned_org db u = Some org \<and> org_ID org = orgID"
proof -
  from assms(2) obtain role where m: "first_member db u = Some (orgID, u, role)"
    by (auto simp: booted_def)
  then have "(orgID, u, role) \<in> set (pg_org_members db)"
    by (auto simp: first_member_def find_Some_iff)
  with assms(1) have "orgID \<in> org_ID ` set (pg_organizations db)"
    unfolding pg_wf_def by force
  then have "\<exists>org. find (\<lambda>org. org_ID org = orgID) (pg_organizations db) = Some org \<and> org_ID org = orgID"
    by (rule find_key)
  with m show ?thesis by (simp add: owned_org_def)
qed

lemma on_pg_pair: "on_pg f st = (fst (on_pg f st), snd (f (be_pg st)))"
  by (simp add: prod_eq_iff)

lemma existing_default_owned:
  assumes "pg_wf (be_pg st)" "\<forall>n. \<not> pg_fails (be_pg st) n"
    and u: "find (\<lambda>x. user_Email x = adminEmail) (pg_users (be_pg st)) = Some user"
  shows "snd (existing_default now st) =
      (case owned_org (be_pg st) (user_ID user) of
         None \<Rightarrow> Inl ''no org found for default user''
       | Some org \<Rightarrow> Inr (user_ID user, org_ID org, OrgIDToUint64 (org_ID org)))"
    "pg_users (be_pg (fst (existing_default now st))) = pg_users (be_pg st)"
    "pg_org_members (be_pg (fst (existing_default now st))) = pg_org_members (be_pg st)"
    "pg_organizations (be_pg (fst (existing_default now st))) = pg_organizations (be_pg st)"
proof -
  let ?st1 = "st\<lparr>be_pg := (be_pg st)\<lparr>pg_stmts := pg_stmts (be_pg st) + 1\<rparr>\<rparr>"
  have 1: "on_pg (\<lambda>db. CreateOrGetUser db now adminEmail ''Admin'' []) st = (?st1, Inr (user, False))"
    using assms(2) u by (simp add: on_pg_def CreateOrGetUser_def pg_query_def pg_exec_up)
  have "snd (GetOrgByUserID (be_pg ?st1) (user_ID user)) = Inr (owned_org (be_pg ?st1) (user_ID user))"
    by (rule GetOrgByUserID_owned) (use assms in simp_all)
  then have "snd (on_pg (\<lambda>db. GetOrgByUserID db (user_ID user)) ?st1) = Inr (owned_org (be_pg st) (user_ID user))"
    by simp
  then obtain st2 where 2: "on_pg (\<lambda>db. GetOrgByUserID db (user_ID user)) ?st1
      = (st2, Inr (owned_org (be_pg st) (user_ID user)))" by (metis prod.collapse)
  then have st2: "st2 = fst (on_pg (\<lambda>db. GetOrgByUserID db (user_ID user)) ?st1)" by (simp only: fst_conv)
  have t: "pg_users (be_pg st2) = pg_users (be_pg st)"
    "pg_org_members (be_pg st2) = pg_org_members (be_pg st)"
    "pg_organizations (be_pg st2) = pg_organizations (be_pg st)"
    by (simp_all add: st2 GetOrgByUserID_def pg_query_state)
  have e: "existing_default now st = (case owned_org (be_pg st) (user_ID user) of
         None \<Rightarrow> (st2, Inl ''no org found for default user'')
       | Some org \<Rightarrow> (st2, Inr (user_ID user, org_ID org, OrgIDToUint64 (org_ID org))))"
    unfolding existing_default_def 1 prod.case sum.case 2 by (simp split: option.split)
  show "snd (existing_default now st) =
      (case owned_org (be_pg st) (user_ID user) of
         None \<Rightarrow> Inl ''no org found for default user''
       | Some org \<Rightarrow> Inr (user_ID user, org_ID org, OrgIDToUint64 (org_ID org)))"
    by (simp add: e split: option.split)
  show "pg_users (be_pg (fst (existing_default now st))) = pg_users (be_pg st)"
    "pg_org_members (be_pg (fst (existing_default now st))) = pg_org_members (be_pg st)"
    "pg_organizations (be_pg (fst (existing_default now st))) = pg_organizations (be_pg st)"
    by (simp_all add: e t split: option.split)
qed

lemma bootstrap_booted:
  assumes "pg_wf (be_pg st)" "\<forall>n. \<not> pg_fails (be_pg st) n" "booted (be_pg st) u orgID"
  shows "snd (bootstrapSelfHosted now rnd st) = Inr (u, orgID, OrgIDToUint64 orgID)"
proof -
  let ?st1 = "st\<lparr>be_pg := (be_pg st)\<lparr>pg_stmts := pg_stmts (be_pg st) + 1\<rparr>\<rparr>"
  from assms(3) obtain user where u: "user_ID user = u"
    "find (\<lambda>x. user_Email x = adminEmail) (pg_users (be_pg ?st1)) = Some user"
    by (auto simp: booted_def)
  have c: "on_pg CountOrgs st = (?st1, Inr (int (length (pg_organizations (be_pg st)))))"
    using assms(2) by (simp add: on_pg_def CountOrgs_def pg_query_def pg_exec_up)
  from booted_owned [OF assms(1,3)] obtain org where own: "owned_org (be_pg st) u = Some org" "org_ID org = orgID"
    by blast
  have "pg_organizations (be_pg st) \<noteq> []" using assms(3) by (simp add: booted_def)
  then have "bootstrapSelfHosted now rnd st = existing_default now ?st1"
    by (simp add: bootstrapSelfHosted_def c)
  with existing_default_owned(1) [OF _ _ u(2), of now] assms(1,2) own show ?thesis by (simp add: u(1))
qed

text \<open>A successful start leaves a booted database.\<close>

lemma CreateOrGetUser_found:
  assumes "\<forall>n. \<not> pg_fails db n" "CreateOrGetUser db now email name avatar = (db', Inr (user, isNew))"
  shows "find (\<lambda>x. user_Email x = email) (pg_users db') = Some user"
    "pg_org_members db' = pg_org_members db" "pg_organizations db' = pg_organizations db"
  using assms
  by (auto simp: CreateOrGetUser_def pg_query_def pg_exec_def Let_def find_append_None
      split: option.splits if_splits)

lemma CreateOrg_appends:
  assumes "\<forall>n. \<not> pg_fails db n" "CreateOrg db now name slug = (db', Inr org)"
  shows "pg_organizations db' = pg_organizations db @ [org]" "pg_org_members db' = pg_org_members db"
    "pg_fails db' = pg_fails db"
  using assms by (auto simp: CreateOrg_def pg_exec_def Let_def split: if_splits)

lemma AddOrgMember_appends:
  assumes "\<forall>n. \<not> pg_fails db n" "AddOrgMember db orgID u role = (db', Inr ())" "pg_org_members db = []"
  shows "pg_org_members db' = [(orgID, u, role)]" "pg_users db' = pg_users db"
    "pg_organizations db' = pg_organizations db"
  using assms by (auto simp: AddOrgMember_def pg_exec_def Let_def split: if_splits)

lemma new_default_boots:
  assumes wf: "pg_wf (be_pg st)" and up: "\<forall>n. \<not> pg_fails (be_pg st) n"
    and empty: "pg_organizations (be_pg st) = []"
    and ok: "new_default now rnd st = (st', Inr (u, orgID, k))"
  shows "booted (be_pg st') u orgID"
proof -
  obtain st1 org where 1: "on_pg (\<lambda>db. CreateOrg db now ''Default Organization'' ''default'') st = (st1, Inr org)"
    using ok by (auto simp: new_default_def split: prod.splits sum.splits)
  obtain st2 user isNew where 2: "on_pg (\<lambda>db. CreateOrGetUser db now adminEmail ''Admin'' []) st1
      = (st2, Inr (user, isNew))"
    using ok by (auto simp: new_default_def 1 split: prod.splits sum.splits)
  obtain st3 where 3: "on_pg (\<lambda>db. AddOrgMember db (org_ID org) (user_ID user) ''owner'') st2 = (st3, Inr ())"
    using ok by (auto simp: new_default_def 1 2 split: prod.splits sum.splits)
  have ids: "u = user_ID user" "orgID = org_ID org" "st' = create_defaults now rnd (org_ID org) st3"
    using ok by (auto simp: new_default_def 1 2 3)
  have d1: "CreateOrg (be_pg st) now ''Default Organization'' ''default'' = (be_pg st1, Inr org)"
    using 1 by (auto simp: on_pg_def split: prod.splits)
  have d2: "CreateOrGetUser (be_pg st1) now adminEmail ''Admin'' [] = (be_pg st2, Inr (user, isNew))"
    using 2 by (auto simp: on_pg_def split: prod.splits)
  have d3: "AddOrgMember (be_pg st2) (org_ID org) (user_ID user) ''owner'' = (be_pg st3, Inr ())"
    using 3 by (auto simp: on_pg_def split: prod.splits)
  have "pg_org_members (be_pg st) = []" using wf empty by (simp add: pg_wf_def)
  note og = CreateOrg_appends [OF up d1]
  have up1: "\<forall>n. \<not> pg_fails (be_pg st1) n" using up by (simp add: og(3))
  note c = CreateOrGetUser_found [OF up1 d2]
  have "pg_fails (be_pg st2) = pg_fails (be_pg st1)"
    using pg_step_fails [OF pg_step.user, of "be_pg st1"] d2 by (metis fst_conv)
  with up1 have up2: "\<forall>n. \<not> pg_fails (be_pg st2) n" by simp
  have "pg_org_members (be_pg st2) = []" using \<open>pg_org_members (be_pg st) = []\<close> by (simp add: c(2) og(2))
  note a = AddOrgMember_appends [OF up2 d3 this]
  have "booted (be_pg st3) (user_ID user) (org_ID org)"
    by (simp add: booted_def a c og empty first_member_def)
  moreover have "grows (be_pg st3) (be_pg st')"
    using pg_steps_grows [OF pg_runsD [OF pg_runs_create_defaults], of st3] by (simp add: ids(3))
  ultimately show ?thesis unfolding ids(1,2) by (blast dest: booted_grows)
qed


definition new_install :: backends where
  "new_install =
     \<lparr>be_redis = \<lparr>rd_data = Map.empty, rd_cmds = 0, rd_fails = \<lambda>_. False\<rparr>,
      be_pg = pg_empty (\<lambda>n. replicate n (CHR ''u'')) (\<lambda>_. False) []\<rparr>"


section \<open>An interrupted bootstrap\<close>

text \<open>The default organisation and user exist, and the user is in no organisation.\<close>

definition half_booted :: "pgdb \<Rightarrow> bool" where
  "half_booted db \<longleftrightarrow>
     pg_organizations db \<noteq> [] \<and> pg_org_members db = []
     \<and> find (\<lambda>x. user_Email x = adminEmail) (pg_users db) \<noteq> None
     \<and> 5 \<le> pg_stmts db \<and> pg_fails db = (\<lambda>n. n = 4)"

lemma half_booted_start:
  assumes "half_booted (be_pg st)"
  shows "snd (bootstrapSelfHosted now rnd st) = Inl ''no org found for default user''
    \<and> half_booted (be_pg (fst (bootstrapSelfHosted now rnd st)))"
  using assms
  by (auto simp: half_booted_def bootstrapSelfHosted_def existing_default_def on_pg_def CountOrgs_def
      CreateOrGetUser_def GetOrgByUserID_def pg_query_def pg_exec_def Let_def)

lemma half_booted_starts:
  "half_booted (be_pg st) \<Longrightarrow> half_booted (be_pg (((\<lambda>s. fst (bootstrapSelfHosted now rnd s)) ^^ k) st))"
  by (induction k) (simp_all add: half_booted_start)

text \<open>
  When the first start fails between creating the default user and making it a member (its
  fifth statement), the server never starts again: every later start, though the database works,
  ends with the error that the default user has no organisation.
\<close>

lemma interrupted_bootstrap_is_stuck:
  "snd (bootstrapSelfHosted now rnd (st\<lparr>be_pg := pg_empty uuids (\<lambda>n. n = 4) prices\<rparr>)) = Inl ''add org member''
   \<and> snd (bootstrapSelfHosted now2 rnd2 (((\<lambda>s. fst (bootstrapSelfHosted now2 rnd2 s)) ^^ k)
         (fst (bootstrapSelfHosted now rnd (st\<lparr>be_pg := pg_empty uuids (\<lambda>n. n = 4) prices\<rparr>)))))
     = Inl ''no org found for default user''"
proof (rule conjI)
  let ?st = "st\<lparr>be_pg := pg_empty uuids (\<lambda>n. n = 4) prices\<rparr>"
  show "snd (bootstrapSelfHosted now rnd ?st) = Inl ''add org member''"
    by (simp add: bootstrapSelfHosted_def new_default_def on_pg_def CountOrgs_def CreateOrg_def
        CreateOrGetUser_def AddOrgMember_def pg_query_def pg_exec_def pg_empty_def Let_def)
  have "half_booted (be_pg (fst (bootstrapSelfHosted now rnd ?st)))"
    by (simp add: half_booted_def bootstrapSelfHosted_def new_default_def on_pg_def CountOrgs_def
        CreateOrg_def CreateOrGetUser_def AddOrgMember_def pg_query_def pg_exec_def pg_empty_def Let_def)
  then show "snd (bootstrapSelfHosted now2 rnd2 (((\<lambda>s. fst (bootstrapSelfHosted now2 rnd2 s)) ^^ k)
         (fst (bootstrapSelfHosted now rnd ?st)))) = Inl ''no org found for default user''"
    using half_booted_start half_booted_starts by blast
qed

section \<open>Two users of the same name\<close>

text \<open>
  A user whose name yields the slug of an existing organisation can never sign in: the answer is
  500 and the organisations, users and memberships stay as they are, so it is the same the next time.
\<close>

lemma same_name_locked_out:
  assumes "pg_wf (be_pg st)" and "\<forall>n. \<not> pg_fails (be_pg st) n"
    and "rq_Header r ''X-Internal-Secret'' = internalSecret" and "oa_Email req \<noteq> []"
    and "find (\<lambda>x. user_Email x = oa_Email req) (pg_users (be_pg st)) = Some user"
    and "first_member (be_pg st) (user_ID user) = None"
    and "org_slug lower (oa_Name req) \<in> org_Slug ` set (pg_organizations (be_pg st))"
    and "HandleOAuthCallback lower marshal now keyrnd rnd secret internalSecret (Some req) st r w = (st', w')"
  shows "rs_Status w' = 500 \<and> pg_users (be_pg st') = pg_users (be_pg st)
    \<and> pg_org_members (be_pg st') = pg_org_members (be_pg st)
    \<and> pg_organizations (be_pg st') = pg_organizations (be_pg st)"
proof -
  let ?n = "pg_stmts (be_pg st)"
  have 1: "on_pg (\<lambda>db. CreateOrGetUser db now (oa_Email req) (oa_Name req) (oa_AvatarURL req)) st
      = (st\<lparr>be_pg := (be_pg st)\<lparr>pg_stmts := ?n + 1\<rparr>\<rparr>, Inr (user, False))"
    using assms(2,5) by (simp add: on_pg_def CreateOrGetUser_def pg_query_def pg_exec_up)
  let ?st1 = "st\<lparr>be_pg := (be_pg st)\<lparr>pg_stmts := ?n + 1\<rparr>\<rparr>"
  have "owned_org (be_pg st) (user_ID user) = None" using assms(6) by (simp add: owned_org_def)
  then have "snd (GetOrgByUserID (be_pg ?st1) (user_ID user)) = Inr None"
    using GetOrgByUserID_owned [of "be_pg ?st1" "user_ID user"] assms(1,2) by simp
  moreover have "fst (GetOrgByUserID (be_pg ?st1) (user_ID user)) = (be_pg st)\<lparr>pg_stmts := ?n + 2\<rparr>"
    by (simp add: GetOrgByUserID_def pg_query_state)
  ultimately have 2: "on_pg (\<lambda>db. GetOrgByUserID db (user_ID user)) ?st1
      = (st\<lparr>be_pg := (be_pg st)\<lparr>pg_stmts := ?n + 2\<rparr>\<rparr>, Inr None)"
    by (simp add: on_pg_def case_prod_unfold)
  have 3: "on_pg (\<lambda>db. CreateOrg db now name (org_slug lower (oa_Name req)))
        (st\<lparr>be_pg := (be_pg st)\<lparr>pg_stmts := ?n + 2\<rparr>\<rparr>)
      = (st\<lparr>be_pg := (be_pg st)\<lparr>pg_stmts := ?n + 3\<rparr>\<rparr>, Inl PostgresError)" for name
    using assms(2,7) by (simp add: on_pg_def CreateOrg_def pg_exec_up)
  from assms(8) have "st' = st\<lparr>be_pg := (be_pg st)\<lparr>pg_stmts := ?n + 3\<rparr>\<rparr>"
    "w' = internal_error now ''Failed to create organization'' w"
    unfolding HandleOAuthCallback_def user_org_def create_user_org_def using assms(3,4)
    by (auto simp only: 1 2 3 option.case sum.case prod.case if_False if_True not_True_eq_False simp_thms prod.inject)
  then show ?thesis by (simp add: internal_error_def)
qed

text \<open>Two people called Ada.\<close>

definition two_adas :: backends where
  "two_adas = new_install\<lparr>be_pg :=
     fst (CreateOrGetUser (fst (CreateOrg (be_pg new_install) zero_time ''Ada'' ''Ada-org''))
            zero_time ''ada@b.c'' ''Ada'' [])\<rparr>"

end
