(* ===== verification/Dash_Router.thy ===== *)
theory Dash_Router
  imports Dash_Keys Dash_Cost Dash_Signup
begin

text \<open>
  Package \<open>dashboard\<close>, \<open>router.go\<close> and \<open>server.go\<close>: the routes of the dashboard API, the middleware
  around them, and what holds of a whole request. A request comes with what the handlers read
  besides it: the instant, the zone database, the decoded bodies, the random bytes, and the
  encodings that are parameters.
\<close>

record dash_input =
  di_now :: gotime
  di_tz :: tzdb
  di_lower :: "string \<Rightarrow> string"
  di_marshal :: "JWTClaims \<Rightarrow> string"
  di_unmarshal :: "string \<Rightarrow> JWTClaims option"
  di_reqid :: "u8 list"
  di_keyrnd :: "u8 list option"
  di_rnd :: "u8 list option"
  di_oauth :: "oauthCallbackRequest option"
  di_createKey :: "createAPIKeyRequest option"
  di_updateOrg :: "updateOrgRequest option"

record ServerConfig =
  sc_JWTSecret :: string
  sc_CORSOrigins :: string
  sc_AuthMode :: string
  sc_InternalSecret :: string
  sc_DefaultUserID :: string
  sc_DefaultOrgID :: string
  sc_DefaultOrgNumeric :: u64

section \<open>router.go\<close>

definition healthHandler :: "dashboard handler" where
  "healthHandler st r w = (st, w\<lparr>rs_Status := 200, rs_Body := JObj [(''status'', JStr ''ok'')]\<rparr>)"

definition limit_ip :: "'z backends_scheme limiter" where
  "limit_ip st now ip limit window = on_redis (\<lambda>rd. AllowIP rd now ip limit window) st"

definition authMux :: "ServerConfig \<Rightarrow> dash_input \<Rightarrow> dashboard handler" where
  "authMux cfg i =
     ServeMux
       [(Some ''POST'', ''/api/v1/auth/oauth-callback'', \<lambda>_.
           HandleOAuthCallback (di_lower i) (di_marshal i) (di_now i) (di_keyrnd i) (di_rnd i)
             (sc_JWTSecret cfg) (sc_InternalSecret cfg) (di_oauth i)),
        (Some ''POST'', ''/api/v1/auth/refresh'', \<lambda>_.
           HandleRefresh (di_marshal i) (di_now i) (di_rnd i) (sc_JWTSecret cfg)),
        (Some ''DELETE'', ''/api/v1/auth/logout'', \<lambda>_. HandleLogout (di_now i))]"

definition apiMux :: "ServerConfig \<Rightarrow> dash_input \<Rightarrow> dashboard handler" where
  "apiMux cfg i =
     ServeMux
       [(Some ''GET'', ''/api/v1/auth/me'', \<lambda>_. HandleMe (di_now i)),
        (Some ''GET'', ''/api/v1/dashboard/overview'', \<lambda>_. HandleOverview (di_tz i) (di_now i)),
        (Some ''GET'', ''/api/v1/dashboard/cost'', \<lambda>_. HandleCostBreakdown (di_tz i) (di_now i)),
        (Some ''GET'', ''/api/v1/dashboard/cost/timeseries'', \<lambda>_. HandleCostTimeseries (di_tz i) (di_now i)),
        (Some ''GET'', ''/api/v1/dashboard/cost/compare'', \<lambda>_. HandleCostCompare (di_now i)),
        (Some ''GET'', ''/api/v1/dashboard/cost/filters'', \<lambda>_. HandleCostFilters (di_tz i) (di_now i)),
        (Some ''GET'', ''/api/v1/api-keys'', \<lambda>_. HandleListKeys (di_now i)),
        (Some ''POST'', ''/api/v1/api-keys'', \<lambda>_. HandleCreate (di_now i) (di_keyrnd i) (di_createKey i)),
        (Some ''DELETE'', ''/api/v1/api-keys/{id}'', \<lambda>vs.
           HandleRevoke (di_now i) (case map_of vs ''id'' of None \<Rightarrow> [] | Some v \<Rightarrow> v)),
        (Some ''GET'', ''/api/v1/settings/org'', \<lambda>_. HandleGetSettings (di_now i)),
        (Some ''PUT'', ''/api/v1/settings/org'', \<lambda>_. HandleUpdate (di_tz i) (di_now i) (di_updateOrg i)),
        (Some ''GET'', ''/api/v1/projects'', \<lambda>_. HandleListProjects (di_now i))]"

definition authRoutes :: "ServerConfig \<Rightarrow> dash_input \<Rightarrow> dashboard handler" where
  "authRoutes cfg i = mw_IPRateLimitMiddleware limit_ip (di_now i) 10 minute (authMux cfg i)"

definition apiRoutes :: "ServerConfig \<Rightarrow> dash_input \<Rightarrow> dashboard handler" where
  "apiRoutes cfg i =
     (let api = JWTAuthMiddleware (di_unmarshal i) (di_now i) (sc_JWTSecret cfg) (apiMux cfg i);
          api = (if sc_AuthMode cfg = ''autologin''
                 then AutoLoginMiddleware (di_marshal i) (di_unmarshal i) (di_now i) (sc_JWTSecret cfg)
                        (sc_DefaultUserID cfg) (sc_DefaultOrgID cfg) (sc_DefaultOrgNumeric cfg) api
                 else api)
      in mw_IPRateLimitMiddleware limit_ip (di_now i) 200 minute api)"

definition NewRouter :: "ServerConfig \<Rightarrow> dash_input \<Rightarrow> dashboard handler" where
  "NewRouter cfg i =
     ServeMux
       [(Some ''GET'', ''/health'', \<lambda>_. healthHandler),
        (None, ''/api/v1/auth/'', \<lambda>_. authRoutes cfg i),
        (None, ''/api/v1/'', \<lambda>_. apiRoutes cfg i)]"

section \<open>server.go\<close>

definition NewDashServer :: "ServerConfig \<Rightarrow> dash_input \<Rightarrow> dashboard handler" where
  "NewDashServer cfg i =
     CORSMiddleware (sc_CORSOrigins cfg) (mw_RequestIDMiddleware (di_reqid i) (NewRouter cfg i))"

section \<open>Where a request goes\<close>

lemma segments:
  "Split ''/health'' (CHR ''/'') = [[], ''health'']"
  "Split ''/api/v1/auth/'' (CHR ''/'') = [[], ''api'', ''v1'', ''auth'', []]"
  "Split ''/api/v1/'' (CHR ''/'') = [[], ''api'', ''v1'', []]"
  by simp_all

lemma match_literal:
  assumes "p \<noteq> [] \<or> ps \<noteq> []" "\<not> is_wildcard p"
  shows "match_segs (p # ps) segs =
     (case segs of [] \<Rightarrow> None | s # ss \<Rightarrow> if p = s then match_segs ps ss else None)"
  using assms by (cases p; cases ps; cases segs) (auto split: option.splits)

lemma match_end: "match_segs [] ss = (if ss = [] then Some [] else None)"
  by (cases ss) simp_all

lemma not_wildcard [simp]:
  "\<not> is_wildcard []" "\<not> is_wildcard ''api''" "\<not> is_wildcard ''v1''" "\<not> is_wildcard ''auth''"
  "\<not> is_wildcard ''health''"
  by (simp_all add: is_wildcard_def HasPrefix_def)

lemma match_api:
  "match_path ''/api/v1/'' path \<noteq> None \<longleftrightarrow>
     (\<exists>ss. ss \<noteq> [] \<and> Split path (CHR ''/'') = [[], ''api'', ''v1''] @ ss)"
  unfolding match_path_def segments
  by (simp add: match_literal split: list.split)

lemma match_auth:
  "match_path ''/api/v1/auth/'' path \<noteq> None \<longleftrightarrow>
     (\<exists>ss. ss \<noteq> [] \<and> Split path (CHR ''/'') = [[], ''api'', ''v1'', ''auth''] @ ss)"
  unfolding match_path_def segments
  by (simp add: match_literal split: list.split)

lemma match_health:
  "match_path ''/health'' path \<noteq> None \<longleftrightarrow> Split path (CHR ''/'') = [[], ''health'']"
  unfolding match_path_def segments
  by (simp add: match_literal match_end split: list.split)

text \<open>A path below \<open>/api/v1/\<close> but not below \<open>/api/v1/auth/\<close>.\<close>

definition api_path :: "string \<Rightarrow> bool" where
  "api_path path \<longleftrightarrow> match_path ''/api/v1/'' path \<noteq> None \<and> match_path ''/api/v1/auth/'' path = None"

lemma router_auth:
  assumes "match_path ''/api/v1/auth/'' (rq_Path r) \<noteq> None"
  shows "NewRouter cfg i st r w = authRoutes cfg i st r w"
proof -
  from assms obtain ss where "ss \<noteq> []" "Split (rq_Path r) (CHR ''/'') = [[], ''api'', ''v1'', ''auth''] @ ss"
    unfolding match_auth by blast
  then have "match_path ''/api/v1/'' (rq_Path r) \<noteq> None" "match_path ''/health'' (rq_Path r) = None"
    using match_api [of "rq_Path r"] match_health [of "rq_Path r"] by auto
  with assms show ?thesis by (simp add: NewRouter_def ServeMux_def match_method_def)
qed

lemma router_api:
  assumes "api_path (rq_Path r)"
  shows "NewRouter cfg i st r w = apiRoutes cfg i st r w"
proof -
  from assms obtain ss where "Split (rq_Path r) (CHR ''/'') = [[], ''api'', ''v1''] @ ss"
    unfolding api_path_def match_api by blast
  then have "match_path ''/health'' (rq_Path r) = None" using match_health [of "rq_Path r"] by auto
  with assms show ?thesis by (simp add: NewRouter_def ServeMux_def match_method_def api_path_def)
qed

section \<open>The whole server as store operations\<close>

lemma pg_runs_limit_ip: "pg_runs (\<lambda>st. limit_ip st now ip limit window)"
  unfolding limit_ip_def by (rule pg_runs_redis)

lemma pg_runs_on_ch: "pg_runs (on_ch f)"
  by (rule pg_runsI) (simp add: on_ch_def case_prod_unfold)

lemma pg_runs_cached_body: "pg_runs (cached_body now key)"
  unfolding cached_body_def by (intro pg_runs_rules)

lemma pg_runs_cache_body: "pg_runs (\<lambda>st. (cache_body now key data ttl st, x))"
  unfolding cache_body_def by (intro pg_runs_rules)

text \<open>The middleware in terms of what it wraps, for any kind of step.\<close>

context handler_steps
begin

lemma runs_IPRateLimit:
  assumes "\<And>ip. runs step (\<lambda>st. allow st now ip limit window)" "\<And>r w. runs step (\<lambda>st. h st r w)"
  shows "runs step (\<lambda>st. mw_IPRateLimitMiddleware allow now limit window h st r w)"
  unfolding mw_IPRateLimitMiddleware_def by (intro runs_rules assms)

lemma runs_JWTAuth:
  assumes "\<And>r w. runs step (\<lambda>st. h st r w)"
  shows "runs step (\<lambda>st. JWTAuthMiddleware unmarshal now secret h st r w)"
  unfolding JWTAuthMiddleware_def by (intro runs_rules assms)

lemma runs_AutoLogin:
  assumes "\<And>r w. runs step (\<lambda>st. h st r w)"
  shows "runs step (\<lambda>st. AutoLoginMiddleware marshal unmarshal now secret u o_id n h st r w)"
  unfolding AutoLoginMiddleware_def by (intro runs_rules assms)

lemma runs_CORS:
  assumes "\<And>r w. runs step (\<lambda>st. h st r w)"
  shows "runs step (\<lambda>st. CORSMiddleware origins h st r w)"
  unfolding CORSMiddleware_def by (intro runs_rules assms)

lemma runs_RequestID:
  assumes "\<And>r w. runs step (\<lambda>st. h st r w)"
  shows "runs step (\<lambda>st. mw_RequestIDMiddleware b h st r w)"
  unfolding mw_RequestIDMiddleware_def by (intro runs_rules assms)

end

lemma pg_runs_cost:
  "pg_runs (\<lambda>st. HandleOverview tz now st r w)" "pg_runs (\<lambda>st. HandleCostBreakdown tz now st r w)"
  "pg_runs (\<lambda>st. HandleCostTimeseries tz now st r w)" "pg_runs (\<lambda>st. HandleCostCompare now st r w)"
  "pg_runs (\<lambda>st. HandleCostFilters tz now st r w)"
  unfolding HandleOverview_def HandleCostBreakdown_def HandleCostTimeseries_def HandleCostCompare_def
    HandleCostFilters_def
  by (intro pg_runs_rules pg_runs_on_ch pg_runs_cached_body pg_runs_cache_body)+

lemma pg_runs_authMux: "pg_runs (\<lambda>st. authMux cfg i st r w)"
  unfolding authMux_def
  by (rule pg.runs_ServeMux)
    (auto intro: pg_runs_HandleOAuthCallback pg_runs_HandleRefresh pg_runs_HandleLogout)

lemma pg_runs_apiMux: "pg_runs (\<lambda>st. apiMux cfg i st r w)"
  unfolding apiMux_def
  by (rule pg.runs_ServeMux) (auto intro: pg_runs_HandleMe pg_runs_cost pg_runs_keys)

lemma pg_runs_apiRoutes: "pg_runs (\<lambda>st. apiRoutes cfg i st r w)"
  unfolding apiRoutes_def Let_def
proof (rule pg.runs_IPRateLimit [OF pg_runs_limit_ip])
  fix r w
  let ?jwt = "JWTAuthMiddleware (di_unmarshal i) (di_now i) (sc_JWTSecret cfg) (apiMux cfg i)"
  have "pg_runs (\<lambda>st. ?jwt st r w)" for r w by (rule pg.runs_JWTAuth [OF pg_runs_apiMux])
  then show "pg_runs (\<lambda>st. (if sc_AuthMode cfg = ''autologin''
      then AutoLoginMiddleware (di_marshal i) (di_unmarshal i) (di_now i) (sc_JWTSecret cfg)
             (sc_DefaultUserID cfg) (sc_DefaultOrgID cfg) (sc_DefaultOrgNumeric cfg) ?jwt
      else ?jwt) st r w)"
    by (cases "sc_AuthMode cfg = ''autologin''") (simp_all add: pg.runs_AutoLogin)
qed

lemma pg_runs_router: "pg_runs (\<lambda>st. NewRouter cfg i st r w)"
  unfolding NewRouter_def
proof (rule pg.runs_ServeMux)
  have "pg_runs (\<lambda>st. healthHandler st r w)" unfolding healthHandler_def by (rule pg.runs_return)
  moreover have "pg_runs (\<lambda>st. authRoutes cfg i st r w)"
    unfolding authRoutes_def by (intro pg.runs_IPRateLimit pg_runs_limit_ip pg_runs_authMux)
  ultimately show "pg_runs (\<lambda>st. h vs st r w)"
    if "(m, p, h) \<in> set [(Some ''GET'', ''/health'', \<lambda>_. healthHandler),
        (None, ''/api/v1/auth/'', \<lambda>_. authRoutes cfg i), (None, ''/api/v1/'', \<lambda>_. apiRoutes cfg i)]"
    for m p h vs
    using that pg_runs_apiRoutes by auto
qed

lemma pg_runs_server: "pg_runs (\<lambda>st. NewDashServer cfg i st r w)"
  unfolding NewDashServer_def by (intro pg.runs_CORS pg.runs_RequestID pg_runs_router)

text \<open>A dashboard process: starts, and requests with any session and any bodies.\<close>

inductive dash_step :: "dashboard \<Rightarrow> dashboard \<Rightarrow> bool" where
  boot: "dash_step st (fst (bootstrapSelfHosted now rnd st))"
| serve: "dash_step st (fst (NewDashServer cfg i st r w))"

lemma dash_step_pg: "dash_step st st' \<Longrightarrow> pg_reach st st'"
proof (induction rule: dash_step.induct)
  case (boot st now rnd)
  show ?case using pg_runs_bootstrap by (rule runsD)
next
  case (serve st cfg i r w)
  show ?case using pg_runs_server by (rule runsD)
qed

lemma dash_steps_pg: "dash_step\<^sup>*\<^sup>* st st' \<Longrightarrow> pg_reach st st'"
  by (induction rule: rtranclp_induct) (blast intro: pg.step_refl pg.step_trans dash_step_pg)+



section \<open>Who reaches the API\<close>

lemma limit_ip_stores:
  "be_pg (fst (limit_ip st now ip l d)) = be_pg st"
  "ds_ch (fst (limit_ip st now ip l d)) = ds_ch (st :: dashboard)"
  by (simp_all add: limit_ip_def on_redis_def case_prod_unfold)

text \<open>
  C13: Without autologin, a request below \<open>/api/v1/\<close> (other than the sign-in endpoints) whose cookie
  is not a valid session is answered 401 or 429 and changes neither database.
\<close>

theorem api_requires_session:
  assumes "api_path (rq_Path r)" and "sc_AuthMode cfg \<noteq> ''autologin''"
    and "case Cookie r ''pm_session'' of None \<Rightarrow> True
       | Some v \<Rightarrow> \<forall>c. VerifyJWT (di_unmarshal i) (Unix (di_now i)) v (sc_JWTSecret cfg) \<noteq> Inr c"
    and "NewRouter cfg i st r w = (st', w')"
  shows "rs_Status w' \<in> {401, 429} \<and> be_pg st' = be_pg st \<and> ds_ch st' = ds_ch st"
proof -
  let ?jwt = "JWTAuthMiddleware (di_unmarshal i) (di_now i) (sc_JWTSecret cfg) (apiMux cfg i)"
  have e: "NewRouter cfg i st r w = mw_IPRateLimitMiddleware limit_ip (di_now i) 200 minute ?jwt st r w"
    by (simp add: router_api [OF assms(1)] apiRoutes_def assms(2))
  have "\<exists>w'. rs_Status w' = 401 \<and> ?jwt s r v = (s, w')" for s v
    using JWTAuth_rejects [where r = r and unmarshal = "di_unmarshal i" and now = "di_now i"
        and secret = "sc_JWTSecret cfg" and st = s and w = v] assms(3)
    by (auto split: option.splits)
  then have j: "rs_Status (snd (?jwt s r v)) = 401" "fst (?jwt s r v) = s" for s v
    by (metis fst_conv snd_conv)+
  have "rs_Status (snd (NewRouter cfg i st r w)) \<in> {401, 429}
      \<and> be_pg (fst (NewRouter cfg i st r w)) = be_pg st \<and> ds_ch (fst (NewRouter cfg i st r w)) = ds_ch st"
    unfolding e mw_IPRateLimitMiddleware_def
    by (simp add: case_prod_unfold Let_def j limit_ip_stores split: sum.split)
  then show ?thesis by (simp add: assms(4))
qed

definition sample_config :: ServerConfig where
  "sample_config =
     \<lparr>sc_JWTSecret = ''k'', sc_CORSOrigins = ''http://localhost:3000'', sc_AuthMode = ''oauth'',
      sc_InternalSecret = ''s'', sc_DefaultUserID = [], sc_DefaultOrgID = [], sc_DefaultOrgNumeric = 0\<rparr>"

definition sample_input :: dash_input where
  "sample_input =
     \<lparr>di_now = zero_time, di_tz = \<lambda>_. None, di_lower = (\<lambda>s. s), di_marshal = \<lambda>_. [],
      di_unmarshal = \<lambda>_. None, di_reqid = [], di_keyrnd = None, di_rnd = None, di_oauth = None,
      di_createKey = None, di_updateOrg = None\<rparr>"

theorem api_requires_session_witness:
  "rs_Status (snd (NewRouter sample_config sample_input sample_dashboard
      (sample_request\<lparr>rq_Path := ''/api/v1/projects''\<rparr>) fresh_response)) \<in> {401, 429}"
proof -
  let ?r = "sample_request\<lparr>rq_Path := ''/api/v1/projects''\<rparr>"
  have "api_path (rq_Path ?r)"
    unfolding api_path_def match_path_def segments by (simp add: match_literal)
  from api_requires_session [OF this, of sample_config sample_input, OF _ _ surjective_pairing]
  show ?thesis by (simp add: sample_config_def sample_request_def Cookie_def)
qed

text \<open>
  \<open>GET /api/v1/auth/me\<close>, the endpoint of the current user, cannot be reached: every path below
  \<open>/api/v1/auth/\<close> goes to the sign-in routes, which do not have it, so that any request for it is
  answered 404 (or 429) whatever its session.
\<close>

lemma auth_me_unreachable:
  "rs_Status (snd (NewRouter cfg i st (r\<lparr>rq_Path := ''/api/v1/auth/me''\<rparr>) w)) \<in> {404, 429}"
proof -
  let ?r = "r\<lparr>rq_Path := ''/api/v1/auth/me''\<rparr>"
  have "match_path ''/api/v1/auth/'' (rq_Path ?r) \<noteq> None"
    unfolding match_path_def segments by (simp add: match_literal)
  then have e: "NewRouter cfg i st ?r w = authRoutes cfg i st ?r w" by (rule router_auth)
  have "match_path ''/api/v1/auth/oauth-callback'' ''/api/v1/auth/me'' = None"
    "match_path ''/api/v1/auth/refresh'' ''/api/v1/auth/me'' = None"
    "match_path ''/api/v1/auth/logout'' ''/api/v1/auth/me'' = None"
    by (simp_all add: match_path_def is_wildcard_def HasPrefix_def)
  then have "rs_Status (snd (authMux cfg i s ?r v)) = 404" for s v
    by (simp add: authMux_def ServeMux_def)
  then show ?thesis
    unfolding e authRoutes_def mw_IPRateLimitMiddleware_def
    by (simp add: case_prod_unfold Let_def split: sum.split)
qed

end
