(* ===== verification/Dash_Limits.thy ===== *)
theory Dash_Limits
  imports Dash_Router
begin

text \<open>
  The two rate limits of the dashboard: 10 requests a minute for the sign-in endpoints and 200 for the
  rest. Both count under the same key of Redis, the address of the client. No handler touches these
  counters, which is the second interpretation of \<open>handler_steps\<close>.
\<close>

section \<open>The counters of addresses\<close>

definition same_counters :: "'z backends_scheme \<Rightarrow> 'z backends_scheme \<Rightarrow> bool" where
  "same_counters st st' \<longleftrightarrow>
     rd_fails (be_redis st') = rd_fails (be_redis st)
     \<and> (\<forall>ip. rd_data (be_redis st') (''rl:ip:'' @ ip) = rd_data (be_redis st) (''rl:ip:'' @ ip))"

interpretation ctr: handler_steps same_counters
  by unfold_locales (simp_all add: same_counters_def)

lemma ctr_same: "(\<And>st. be_redis (fst (q st)) = be_redis st) \<Longrightarrow> runs same_counters q"
  by (simp add: runs_def same_counters_def)

lemma ctr_pg: "runs same_counters (on_pg f)"
  by (rule ctr_same) simp

lemma ctr_ch: "runs same_counters (on_ch f)"
  by (rule ctr_same) simp

lemma cached_body_data:
  "rd_data (be_redis (fst (cached_body now key st))) = rd_data (be_redis st)"
  by (auto simp: cached_body_def on_redis_def GetCached_def rd_defs case_prod_unfold
      split: sum.split option.split redis_value.split)

lemma ctr_cached_body: "runs same_counters (cached_body now key)"
  by (simp add: runs_def same_counters_def cached_body_data)

lemma ctr_cache_body: "runs same_counters (\<lambda>st. (cache_body now (cacheKey a b c) data ttl st, x))"
  by (simp add: runs_def same_counters_def cache_body_def on_redis_def SetCached_def rd_defs
      case_prod_unfold cacheKey_def)

lemma ctr_delete: "runs same_counters (on_redis (\<lambda>rd. DeleteCachedAPIKey rd h))"
  by (simp add: runs_def same_counters_def on_redis_def DeleteCachedAPIKey_def rd_defs
      case_prod_unfold apiKeyCacheKey_def)

lemmas ctr_rules = ctr_pg ctr_ch ctr_cached_body ctr_cache_body ctr_delete ctr.runs_rules

lemma ctr_cost_handlers:
  "runs same_counters (\<lambda>st. HandleOverview tz now st r w)"
  "runs same_counters (\<lambda>st. HandleCostBreakdown tz now st r w)"
  "runs same_counters (\<lambda>st. HandleCostTimeseries tz now st r w)"
  "runs same_counters (\<lambda>st. HandleCostCompare now st r w)"
  "runs same_counters (\<lambda>st. HandleCostFilters tz now st r w)"
  unfolding HandleOverview_def HandleCostBreakdown_def HandleCostTimeseries_def
    HandleCostCompare_def HandleCostFilters_def Let_def
  by (intro ctr_rules)+

lemma ctr_handlers:
  "runs same_counters (\<lambda>st. HandleMe now st r w)"
  "runs same_counters (\<lambda>st. HandleListKeys now st r w)"
  "runs same_counters (\<lambda>st. HandleCreate now rnd kb st r w)"
  "runs same_counters (\<lambda>st. HandleRevoke now keyID st r w)"
  "runs same_counters (\<lambda>st. HandleListProjects now st r w)"
  "runs same_counters (\<lambda>st. HandleGetSettings now st r w)"
  "runs same_counters (\<lambda>st. HandleUpdate tz now ub st r w)"
  unfolding HandleMe_def HandleListKeys_def HandleCreate_def HandleRevoke_def
    HandleListProjects_def HandleGetSettings_def HandleUpdate_def
  by (intro ctr_rules)+

lemma ctr_apiMux: "runs same_counters (\<lambda>st. apiMux cfg i st r w)"
  unfolding apiMux_def by (rule ctr.runs_ServeMux) (auto intro: ctr_handlers ctr_cost_handlers)

section \<open>One request\<close>

definition ip_key :: "string \<Rightarrow> string" where "ip_key ip = ''rl:ip:'' @ ip"

text \<open>What the limiter does to the counter of the address, and what it answers.\<close>

lemma limit_ip_count:
  assumes up: "\<forall>n. \<not> rd_fails (be_redis st) n"
    and c: "rd_data (be_redis st) (ip_key ip) = None \<and> k = 0
        \<or> rd_data (be_redis st) (ip_key ip) = Some (RCount k, Some e) \<and> t_ns now < e"
  shows "\<exists>st'. limit_ip st now ip limit minute
        = (st', Inr (k + 1 \<le> limit, if limit - (k + 1) < 0 then 0 else limit - (k + 1), Add now minute))
      \<and> rd_data (be_redis st') (ip_key ip) = Some (RCount (k + 1), Some (t_ns now + minute))
      \<and> rd_fails (be_redis st') = rd_fails (be_redis st)"
  using assms
  by (auto simp: limit_ip_def on_redis_def AllowIP_def checkRateLimit_def rd_defs rd_live_def ip_key_def
      add.commute)

lemma runs_api_handler:
  "runs same_counters (\<lambda>st. (if sc_AuthMode cfg = ''autologin''
      then AutoLoginMiddleware (di_marshal i) (di_unmarshal i) (di_now i) (sc_JWTSecret cfg)
             (sc_DefaultUserID cfg) (sc_DefaultOrgID cfg) (sc_DefaultOrgNumeric cfg)
             (JWTAuthMiddleware (di_unmarshal i) (di_now i) (sc_JWTSecret cfg) (apiMux cfg i))
      else JWTAuthMiddleware (di_unmarshal i) (di_now i) (sc_JWTSecret cfg) (apiMux cfg i)) st r w)"
  by (cases "sc_AuthMode cfg = ''autologin''")
    (simp_all add: ctr.runs_AutoLogin ctr.runs_JWTAuth ctr_apiMux)

lemma api_request_counts:
  assumes up: "\<forall>n. \<not> rd_fails (be_redis st) n" and r: "api_path (rq_Path r)" "ClientIP r = ip"
    and c: "rd_data (be_redis st) (ip_key ip) = None \<and> k = 0
        \<or> rd_data (be_redis st) (ip_key ip) = Some (RCount k, Some e) \<and> t_ns (di_now i) < e"
  shows "rd_data (be_redis (fst (NewRouter cfg i st r w))) (ip_key ip)
       = Some (RCount (k + 1), Some (t_ns (di_now i) + minute))
    \<and> rd_fails (be_redis (fst (NewRouter cfg i st r w))) = rd_fails (be_redis st)"
proof -
  from limit_ip_count [OF up c, of 200] obtain st' a b t where
    l: "limit_ip st (di_now i) ip 200 minute = (st', Inr (a, b, t))"
    and st': "rd_data (be_redis st') (ip_key ip) = Some (RCount (k + 1), Some (t_ns (di_now i) + minute))"
      "rd_fails (be_redis st') = rd_fails (be_redis st)" by blast
  have same: "same_counters st' (fst (NewRouter cfg i st r w))"
    unfolding router_api [OF r(1)] apiRoutes_def mw_IPRateLimitMiddleware_def Let_def r(2) l
    by (simp add: runsD [OF runs_api_handler] ctr.step_refl)
  then show ?thesis using st' by (simp add: same_counters_def ip_key_def)
qed

section \<open>Using the dashboard blocks signing in\<close>

fun serve_all :: "ServerConfig \<Rightarrow> (dash_input \<times> request \<times> response) list \<Rightarrow> dashboard \<Rightarrow> dashboard" where
  "serve_all cfg [] st = st"
| "serve_all cfg ((i, r, w) # rs) st = serve_all cfg rs (fst (NewRouter cfg i st r w))"

lemma serve_all_snoc:
  "serve_all cfg (rs @ [(i, r, w)]) st = fst (NewRouter cfg i (serve_all cfg rs st) r w)"
  by (induction rs arbitrary: st) auto

definition req_time :: "dash_input \<times> request \<times> response \<Rightarrow> int" where
  "req_time q = t_ns (di_now (fst q))"

definition follows_soon :: "dash_input \<times> request \<times> response \<Rightarrow> dash_input \<times> request \<times> response \<Rightarrow> bool" where
  "follows_soon q q' \<longleftrightarrow> req_time q' < req_time q + minute"

lemma serve_all_counts:
  assumes "\<forall>n. \<not> rd_fails (be_redis st) n" "rd_data (be_redis st) (ip_key ip) = None"
    and "\<forall>(i, r, w) \<in> set rs. api_path (rq_Path r) \<and> ClientIP r = ip"
    and "successively follows_soon rs" and "rs \<noteq> []"
  shows "rd_data (be_redis (serve_all cfg rs st)) (ip_key ip)
       = Some (RCount (int (length rs)), Some (req_time (last rs) + minute))
    \<and> rd_fails (be_redis (serve_all cfg rs st)) = rd_fails (be_redis st)"
  using assms(3-5)
proof (induction rs rule: rev_induct)
  case (snoc q rs)
  obtain i r w where q: "q = (i, r, w)" by (metis prod.exhaust)
  from snoc.prems q have r: "api_path (rq_Path r)" "ClientIP r = ip" by auto
  show ?case
  proof (cases "rs = []")
    case True
    from api_request_counts [OF assms(1) r, of 0 0 i cfg w] assms(2) show ?thesis
      by (simp add: True q req_time_def)
  next
    case False
    let ?st = "serve_all cfg rs st"
    from snoc False have IH: "rd_data (be_redis ?st) (ip_key ip)
         = Some (RCount (int (length rs)), Some (req_time (last rs) + minute))"
      "rd_fails (be_redis ?st) = rd_fails (be_redis st)"
      by (auto simp: successively_append_iff)
    have "follows_soon (last rs) q" using snoc.prems(2) False by (simp add: successively_append_iff)
    then have "t_ns (di_now i) < req_time (last rs) + minute" by (simp add: follows_soon_def q req_time_def)
    with api_request_counts [of ?st, OF _ r, of "int (length rs)" "req_time (last rs) + minute" i cfg w]
      IH assms(1) show ?thesis
      by (simp add: q serve_all_snoc req_time_def add.commute)
  qed
qed simp

text \<open>
  While Redis works, ten or more requests to the API from one address, each less than a minute after
  the one before, block the sign-in endpoints for that address: a request to them within a minute,
  such as the refresh of a session that has just expired, is answered 429. Going on using the
  dashboard keeps them blocked.
\<close>

lemma api_use_blocks_refresh:
  assumes "\<forall>n. \<not> rd_fails (be_redis st) n" and "rd_data (be_redis st) (''rl:ip:'' @ ip) = None"
    and "\<forall>(i, r, w) \<in> set rs. api_path (rq_Path r) \<and> ClientIP r = ip"
    and "successively follows_soon rs" and "10 \<le> length rs"
    and "match_path ''/api/v1/auth/'' (rq_Path r) \<noteq> None" and "ClientIP r = ip"
    and "t_ns (di_now i) < req_time (last rs) + minute"
  shows "rs_Status (snd (NewRouter cfg i (serve_all cfg rs st) r w)) = 429"
proof -
  let ?st = "serve_all cfg rs st"
  have "rs \<noteq> []" using assms(5) by auto
  from serve_all_counts [OF assms(1) _ assms(3,4) this, of cfg] assms(2)
  have c: "rd_data (be_redis ?st) (ip_key ip)
       = Some (RCount (int (length rs)), Some (req_time (last rs) + minute))"
    "rd_fails (be_redis ?st) = rd_fails (be_redis st)" by (simp_all add: ip_key_def)
  from limit_ip_count [of ?st ip "int (length rs)" _ "di_now i" 10] c assms(1,8)
  obtain st' b t where l: "limit_ip ?st (di_now i) ip 10 minute = (st', Inr (False, b, t))"
    using assms(5) by auto
  show ?thesis
    unfolding router_auth [OF assms(6)] authRoutes_def mw_IPRateLimitMiddleware_def assms(7) l
    by (simp add: Let_def)
qed

definition projects_request :: "dash_input \<times> request \<times> response" where
  "projects_request = (sample_input, sample_request\<lparr>rq_Path := ''/api/v1/projects''\<rparr>, fresh_response)"

lemma successively_replicate: "P x x \<Longrightarrow> successively P (replicate n x)"
proof (induction n)
  case (Suc n)
  then show ?case by (cases n) simp_all
qed simp

lemma ClientIP_rq_Path [simp]: "ClientIP (r\<lparr>rq_Path := p\<rparr>) = ClientIP r"
  by (cases r) (simp add: ClientIP_def cong: if_cong option.case_cong)

end
