(* ===== verification/Go_Random.thy ===== *)
theory Go_Random
  imports Go_Float "HOL-Library.State_Monad"
begin

text \<open>
  Go's package \<open>math/rand/v2\<close>. A generator is a stream of draws with a position: 64-bit words,
  normally distributed numbers, and the numbers that \<open>IntN\<close> reduces below its bound. Which
  streams the algorithm (PCG) produces is left open, so that what is proved holds for every
  seed. Code that draws is a program in the state monad over the generator;
  \<^const>\<open>pred_state\<close> says that a predicate holds of its result whatever is drawn.
\<close>

record rng =
  rn_u64 :: "nat \<Rightarrow> u64"
  rn_norm :: "nat \<Rightarrow> f64"
  rn_int :: "nat \<Rightarrow> nat"
  rn_pos :: nat

type_synonym 'a random = "(rng, 'a) state"

definition draw :: "(rng \<Rightarrow> nat \<Rightarrow> 'a) \<Rightarrow> 'a random" where
  "draw f = State (\<lambda>g. (f g (rn_pos g), g\<lparr>rn_pos := rn_pos g + 1\<rparr>))"

definition Uint64 :: "u64 random" where
  "Uint64 = draw rn_u64"

definition NormFloat64 :: "f64 random" where
  "NormFloat64 = draw rn_norm"

text \<open>\<open>IntN(n)\<close> for a positive \<open>n\<close>: any number below \<open>n\<close>.\<close>

definition IntN :: "nat \<Rightarrow> nat random" where
  "IntN n = map_state (\<lambda>k. k mod n) (draw rn_int)"

text \<open>\<open>Float64\<close>: the lowest 53 bits of a word, as a fraction of \<open>2 ^ 53\<close>.\<close>

definition Float64 :: "f64 random" where
  "Float64 = map_state (\<lambda>w. fdiv (f64_of_u64 (drop_bit 11 (push_bit 11 w))) (2 ^ 53)) Uint64"

section \<open>What holds whatever is drawn\<close>

lemma pred_state_iff: "pred_state P m \<longleftrightarrow> (\<forall>g. P (fst (run_state m g)))"
  by (auto simp: pred_state_run_state intro!: pred_stateI) (metis fst_conv)

lemma pred_return [intro]: "P x \<Longrightarrow> pred_state P (State_Monad.return x)"
  by (simp add: pred_state_iff)

lemma pred_bind [intro]:
  "pred_state P m \<Longrightarrow> (\<And>x. P x \<Longrightarrow> pred_state Q (f x)) \<Longrightarrow> pred_state Q (State_Monad.bind m f)"
  by (simp add: pred_state_iff case_prod_unfold)

lemma pred_bind2:
  assumes "pred_state (\<lambda>(a, b). P a b) m" "\<And>a b. P a b \<Longrightarrow> pred_state Q (f a b)"
  shows "pred_state Q (State_Monad.bind m (\<lambda>(a, b). f a b))"
  by (rule pred_bind [OF assms(1)]) (use assms(2) in auto)

lemma pred_if [intro]:
  "(b \<Longrightarrow> pred_state P m) \<Longrightarrow> (\<not> b \<Longrightarrow> pred_state P m') \<Longrightarrow> pred_state P (if b then m else m')"
  by simp

lemma pred_any: "pred_state (\<lambda>_. True) m"
  by (simp add: pred_state_iff)

lemma pred_mono: "pred_state P m \<Longrightarrow> (\<And>x. P x \<Longrightarrow> Q x) \<Longrightarrow> pred_state Q m"
  by (simp add: pred_state_iff)

lemma pred_IntN: "0 < n \<Longrightarrow> pred_state (\<lambda>k. k < n) (IntN n)"
  by (simp add: pred_state_iff IntN_def draw_def)

lemma pred_Float64: "pred_state (\<lambda>x. 0 \<le> x) Float64"
  by (simp add: pred_state_iff Float64_def Uint64_def draw_def f64_facts)

text \<open>Loops that collect what they draw.\<close>

lemma pred_traverse:
  assumes "\<And>x. x \<in> set xs \<Longrightarrow> pred_state P (f x)"
  shows "pred_state (\<lambda>ys. length ys = length xs \<and> list_all P ys) (traverse_list f xs)"
  using assms
proof (induction xs)
  case (Cons x xs)
  then have "pred_state P (f x)" "pred_state (\<lambda>ys. length ys = length xs \<and> list_all P ys) (traverse_list f xs)"
    by simp_all
  then show ?case by (auto intro!: pred_bind pred_return)
qed (simp add: pred_return)

end
