(* ===== verification/Data_Model.thy ===== *)
theory Data_Model
  imports Go_Random Go_Calendar Domain
begin

text \<open>
  Package \<open>datagen\<close>, \<open>models.go\<close>, \<open>tokens.go\<close>, \<open>tags.go\<close>, \<open>patterns.go\<close> and \<open>event.go\<close>: the
  distributions from which demo data are drawn. The transcendental functions of package \<open>math\<close>,
  whose last digit depends on the platform, are the parameter \<open>libm\<close>. A decimal constant of the
  code is its nearest \<open>float64\<close>; multiplications and additions are not fused, as on amd64.
\<close>

record libm =
  lm_Log :: "f64 \<Rightarrow> f64"
  lm_Exp :: "f64 \<Rightarrow> f64"
  lm_Sqrt :: "f64 \<Rightarrow> f64"

text \<open>Conversion of a float to an integer truncates; beyond the range it keeps the low bits.\<close>

definition trunc :: "f64 \<Rightarrow> int" where
  "trunc x = (if 0 \<le> x then \<lfloor>x\<rfloor> else - \<lfloor>- x\<rfloor>)"

definition u32_of_f64 :: "f64 \<Rightarrow> u32" where
  "u32_of_f64 x = word_of_int (trunc x)"

section \<open>models.go\<close>

record ModelDistribution =
  md_Model :: string
  md_Provider :: string
  md_Weight :: f64
  md_PromptTokensMean :: f64
  md_PromptTokensStdDev :: f64
  md_CompletionMean :: f64
  md_CompletionStdDev :: f64
  md_LatencyMeanMs :: f64
  md_LatencyStdDevMs :: f64

definition DefaultModelDistributions :: "ModelDistribution list" where
  "DefaultModelDistributions =
     [\<lparr>md_Model = ''gpt-4o'', md_Provider = ''openai'', md_Weight = fl (30 / 100),
       md_PromptTokensMean = 1200, md_PromptTokensStdDev = 400, md_CompletionMean = 400,
       md_CompletionStdDev = 150, md_LatencyMeanMs = 2500, md_LatencyStdDevMs = 500\<rparr>,
      \<lparr>md_Model = ''gpt-4o-mini'', md_Provider = ''openai'', md_Weight = fl (25 / 100),
       md_PromptTokensMean = 800, md_PromptTokensStdDev = 300, md_CompletionMean = 200,
       md_CompletionStdDev = 80, md_LatencyMeanMs = 800, md_LatencyStdDevMs = 200\<rparr>,
      \<lparr>md_Model = ''claude-3-5-sonnet'', md_Provider = ''anthropic'', md_Weight = fl (20 / 100),
       md_PromptTokensMean = 1500, md_PromptTokensStdDev = 500, md_CompletionMean = 600,
       md_CompletionStdDev = 200, md_LatencyMeanMs = 3000, md_LatencyStdDevMs = 600\<rparr>,
      \<lparr>md_Model = ''claude-3-5-haiku'', md_Provider = ''anthropic'', md_Weight = fl (10 / 100),
       md_PromptTokensMean = 600, md_PromptTokensStdDev = 200, md_CompletionMean = 150,
       md_CompletionStdDev = 60, md_LatencyMeanMs = 500, md_LatencyStdDevMs = 100\<rparr>,
      \<lparr>md_Model = ''gemini-1.5-pro'', md_Provider = ''google'', md_Weight = fl (8 / 100),
       md_PromptTokensMean = 1000, md_PromptTokensStdDev = 350, md_CompletionMean = 350,
       md_CompletionStdDev = 120, md_LatencyMeanMs = 2000, md_LatencyStdDevMs = 400\<rparr>,
      \<lparr>md_Model = ''gemini-1.5-flash'', md_Provider = ''google'', md_Weight = fl (5 / 100),
       md_PromptTokensMean = 500, md_PromptTokensStdDev = 150, md_CompletionMean = 120,
       md_CompletionStdDev = 50, md_LatencyMeanMs = 400, md_LatencyStdDevMs = 100\<rparr>,
      \<lparr>md_Model = ''gpt-4-turbo'', md_Provider = ''openai'', md_Weight = fl (2 / 100),
       md_PromptTokensMean = 2000, md_PromptTokensStdDev = 600, md_CompletionMean = 800,
       md_CompletionStdDev = 300, md_LatencyMeanMs = 4000, md_LatencyStdDevMs = 800\<rparr>]"

text \<open>
  The running totals of the weights, divided by the last of them; and the element of the first
  total that a number does not exceed, or the last element (of a list that is not empty).
\<close>

fun running_totals :: "f64 \<Rightarrow> f64 list \<Rightarrow> f64 list" where
  "running_totals acc [] = []"
| "running_totals acc (w # ws) = fadd acc w # running_totals (fadd acc w) ws"

definition cumulative :: "f64 list \<Rightarrow> f64 list" where
  "cumulative ws = map (\<lambda>c. fdiv c (foldl fadd 0 ws)) (running_totals 0 ws)"

definition pick :: "f64 \<Rightarrow> f64 list \<Rightarrow> 'a list \<Rightarrow> 'a" where
  "pick r cum xs =
     (case find (\<lambda>(i, cw). r \<le> cw) (enumerate 0 cum) of Some (i, _) \<Rightarrow> xs ! i | None \<Rightarrow> last xs)"

definition pickModel :: "ModelDistribution list \<Rightarrow> f64 list \<Rightarrow> ModelDistribution random" where
  "pickModel models cumWeights = do { r \<leftarrow> Float64; State_Monad.return (pick r cumWeights models) }"

definition buildCumulativeWeights :: "ModelDistribution list \<Rightarrow> f64 list" where
  "buildCumulativeWeights models = cumulative (map md_Weight models)"

section \<open>tokens.go\<close>

definition logNormalSample :: "libm \<Rightarrow> f64 \<Rightarrow> f64 \<Rightarrow> u32 random" where
  "logNormalSample lm mean stddev =
     (if mean \<le> 0 then State_Monad.return 0
      else
        let variance = fmul stddev stddev;
            mu = lm_Log lm (fdiv (fmul mean mean) (lm_Sqrt lm (fadd variance (fmul mean mean))));
            sigma = lm_Sqrt lm (lm_Log lm (fadd 1 (fdiv variance (fmul mean mean))))
        in do {
             z \<leftarrow> NormFloat64;
             let sample = lm_Exp lm (fadd mu (fmul sigma z));
             State_Monad.return (u32_of_f64 (if sample < 1 then 1 else sample))
           })"

definition generateTokens :: "libm \<Rightarrow> ModelDistribution \<Rightarrow> bool \<Rightarrow> (u32 \<times> u32) random" where
  "generateTokens lm model isError =
     (if isError then State_Monad.return (0, 0)
      else do {
        prompt \<leftarrow> logNormalSample lm (md_PromptTokensMean model) (md_PromptTokensStdDev model);
        completion \<leftarrow> logNormalSample lm (md_CompletionMean model) (md_CompletionStdDev model);
        State_Monad.return (prompt, completion)
      })"

definition generateLatency :: "ModelDistribution \<Rightarrow> u32 \<Rightarrow> u32 random" where
  "generateLatency model statusCode =
     (if statusCode = 429 then State_Monad.return 100
      else if statusCode = 500 then State_Monad.return 30000
      else if statusCode = 400 then State_Monad.return 50
      else do {
        z \<leftarrow> NormFloat64;
        let lat = fadd (md_LatencyMeanMs model) (fmul z (md_LatencyStdDevMs model));
        State_Monad.return (u32_of_f64 (if lat < 50 then 50 else lat))
      })"

section \<open>tags.go\<close>

record TagTemplate =
  tt_Key :: string
  tt_Values :: "string list"

definition DefaultTags :: "TagTemplate list" where
  "DefaultTags =
     [\<lparr>tt_Key = ''feature'',
       tt_Values = [''chat-support'', ''doc-generation'', ''code-review'', ''search'', ''summarization'']\<rparr>,
      \<lparr>tt_Key = ''team'', tt_Values = [''backend'', ''frontend'', ''ml'', ''product'', ''support'']\<rparr>,
      \<lparr>tt_Key = ''environment'', tt_Values = [''production'', ''staging'']\<rparr>]"

definition generateTags :: "(string \<rightharpoonup> string) random" where
  "generateTags = do {
     i \<leftarrow> IntN (length (tt_Values (DefaultTags ! 0)));
     j \<leftarrow> IntN (length (tt_Values (DefaultTags ! 1)));
     let tags = [''feature'' \<mapsto> tt_Values (DefaultTags ! 0) ! i, ''team'' \<mapsto> tt_Values (DefaultTags ! 1) ! j];
     e \<leftarrow> Float64;
     if e < fl (70 / 100) then do {
       p \<leftarrow> Float64;
       State_Monad.return (tags(''environment'' \<mapsto> (if p < fl (80 / 100) then ''production'' else ''staging'')))
     } else State_Monad.return tags
   }"

section \<open>patterns.go\<close>

definition HourlyWeight :: "int \<Rightarrow> f64" where
  "HourlyWeight h =
     (if 0 \<le> h \<and> h \<le> 6 then fl (2 / 10)
      else if 7 \<le> h \<and> h \<le> 8 then fl (6 / 10)
      else if 9 \<le> h \<and> h \<le> 12 then 1
      else if 13 \<le> h \<and> h \<le> 14 then fl (8 / 10)
      else if 15 \<le> h \<and> h \<le> 17 then 1
      else if 18 \<le> h \<and> h \<le> 20 then fl (5 / 10)
      else fl (3 / 10))"

definition DayWeight :: "int \<Rightarrow> f64" where
  "DayWeight weekday = (if weekday = 6 \<or> weekday = 0 then fl (3 / 10) else 1)"

definition totalHourlyWeightSum :: f64 where
  "totalHourlyWeightSum = foldl fadd 0 (map HourlyWeight [0..23])"

section \<open>event.go\<close>

record GenEvent =
  ge_OrgID :: u64
  ge_EventID :: string
  ge_ProjectID :: string
  ge_Timestamp :: gotime
  ge_Model :: string
  ge_Provider :: string
  ge_PromptTokens :: u32
  ge_CompletionTokens :: u32
  ge_TotalTokens :: u32
  ge_CostUSD :: f64
  ge_LatencyMs :: u32
  ge_StatusCode :: u32
  ge_Tags :: "string \<rightharpoonup> string"
  ge_S3Status :: string
  ge_SchemaVersion :: u8

record PriceEntry =
  pe_Provider :: string
  pe_ModelName :: string
  pe_InputPricePerMillion :: f64
  pe_OutputPricePerMillion :: f64
  pe_EffectiveFrom :: gotime

type_synonym PriceTable = "string \<rightharpoonup> PriceEntry list"

definition dg_priceKey :: "string \<Rightarrow> string \<Rightarrow> string" where
  "dg_priceKey provider model = provider @ ''/'' @ model"

fun entry_loop :: "gotime \<Rightarrow> PriceEntry list \<Rightarrow> PriceEntry option" where
  "entry_loop ts [] = None"
| "entry_loop ts (p # ps) = (if \<not> After (pe_EffectiveFrom p) ts then Some p else entry_loop ts ps)"

definition LookupPrice :: "PriceTable \<Rightarrow> string \<Rightarrow> string \<Rightarrow> gotime \<Rightarrow> PriceEntry option" where
  "LookupPrice pt provider model ts =
     (case pt (dg_priceKey provider model) of None \<Rightarrow> None | Some entries \<Rightarrow> entry_loop ts entries)"

definition dg_calculateCost :: "u32 \<Rightarrow> u32 \<Rightarrow> PriceEntry option \<Rightarrow> f64" where
  "dg_calculateCost promptTokens completionTokens price =
     (case price of
        None \<Rightarrow> 0
      | Some p \<Rightarrow>
          fadd (fdiv (fmul (f64_of_u32 promptTokens) (pe_InputPricePerMillion p)) 1000000)
               (fdiv (fmul (f64_of_u32 completionTokens) (pe_OutputPricePerMillion p)) 1000000))"

record ProjectDistribution =
  pd_ProjectID :: string
  pd_Weight :: f64

definition DefaultProjectDistributions :: "ProjectDistribution list" where
  "DefaultProjectDistributions =
     [\<lparr>pd_ProjectID = ''backend-api'', pd_Weight = fl (50 / 100)\<rparr>,
      \<lparr>pd_ProjectID = ''chat-support'', pd_Weight = fl (35 / 100)\<rparr>,
      \<lparr>pd_ProjectID = ''internal-tools'', pd_Weight = fl (15 / 100)\<rparr>]"

section \<open>What is drawn\<close>

lemma length_running [simp]: "length (running_totals t ws) = length ws"
  by (induction ws arbitrary: t) auto

lemma length_cumulative [simp]: "length (cumulative ws) = length ws"
  by (simp add: cumulative_def)

text \<open>Whatever the number, an element of the list is picked.\<close>

lemma pick_mem:
  assumes "xs \<noteq> []" "length cum = length xs"
  shows "pick r cum xs \<in> set xs"
proof (cases "find (\<lambda>(i, cw). r \<le> cw) (enumerate 0 cum)")
  case None
  then show ?thesis using assms(1) by (simp add: pick_def)
next
  case (Some p)
  then obtain i cw where "p = (i, cw)" "p \<in> set (enumerate 0 cum)"
    by (cases p) (metis find_Some_iff nth_mem)
  then have "i < length xs" using assms(2) by (auto simp: in_set_enumerate_eq)
  then show ?thesis using Some \<open>p = (i, cw)\<close> by (simp add: pick_def)
qed

lemma pred_pickModel:
  "models \<noteq> [] \<Longrightarrow> pred_state (\<lambda>m. m \<in> set models) (pickModel models (buildCumulativeWeights models))"
  unfolding pickModel_def buildCumulativeWeights_def
  by (intro pred_bind [OF pred_any] pred_return pick_mem) simp_all

definition short_text :: "string \<Rightarrow> bool" where
  "short_text v \<longleftrightarrow> length v \<le> 14 \<and> list_all is_ascii v"

definition small_tags :: "(string \<rightharpoonup> string) \<Rightarrow> bool" where
  "small_tags tags \<longleftrightarrow>
     dom tags \<subseteq> {''feature'', ''team'', ''environment''} \<and> (\<forall>v \<in> ran tags. short_text v)"

lemma pred_generateTags: "pred_state small_tags generateTags"
proof -
  have v: "list_all short_text (tt_Values (DefaultTags ! 0))" "list_all short_text (tt_Values (DefaultTags ! 1))"
    "short_text ''production''" "short_text ''staging''"
    by code_simp+
  have f: "short_text (tt_Values (DefaultTags ! 0) ! i)" if "i < length (tt_Values (DefaultTags ! 0))" for i
    using v(1) that by (simp add: list_all_length)
  have t: "short_text (tt_Values (DefaultTags ! 1) ! i)" if "i < length (tt_Values (DefaultTags ! 1))" for i
    using v(2) that by (simp add: list_all_length)
  have 2: "small_tags [''feature'' \<mapsto> a, ''team'' \<mapsto> b]" if "short_text a" "short_text b" for a b
    using that by (auto simp: small_tags_def ran_def)
  have 3: "small_tags [''feature'' \<mapsto> a, ''team'' \<mapsto> b, ''environment'' \<mapsto> c]"
    if "short_text a" "short_text b" "short_text c" for a b c
    using that by (auto simp: small_tags_def ran_def)
  have 0: "0 < length (tt_Values (DefaultTags ! 0))" "0 < length (tt_Values (DefaultTags ! 1))"
    by (simp_all add: DefaultTags_def)
  show ?thesis
    unfolding generateTags_def Let_def
    by (intro pred_bind [OF pred_IntN [OF 0(1)]] pred_bind [OF pred_IntN [OF 0(2)]]
        pred_bind [OF pred_any] pred_if pred_return 2 3 f t) (simp_all add: v)
qed

end
