(* ===== verification/Data_Generator.thy ===== *)
theory Data_Generator
  imports Data_Model Ingest_Validation
begin

text \<open>
  Package \<open>datagen\<close>, \<open>datagen.go\<close> and \<open>scenarios.go\<close>: the generator of demo events and the
  scenarios that steer it. The generator of random numbers is the state of the monad; the printed
  form of a UUID (package \<open>uuid\<close>) is the parameter \<open>us\<close>.
\<close>

unbundle bit_operations_syntax

section \<open>scenarios.go\<close>

record ScenarioParams =
  sp_RPSMultiplier :: f64
  sp_ErrorRate :: f64
  sp_ModelOverride :: "ModelDistribution option"
  sp_ModelOverridePct :: f64
  sp_TokenMultiplier :: f64

definition DefaultErrorRate :: f64 where "DefaultErrorRate = fl (2 / 100)"

definition normal_params :: ScenarioParams where
  "normal_params =
     \<lparr>sp_RPSMultiplier = 1, sp_ErrorRate = DefaultErrorRate, sp_ModelOverride = None,
      sp_ModelOverridePct = 0, sp_TokenMultiplier = 1\<rparr>"

definition spike_Params :: "int \<Rightarrow> ScenarioParams" where
  "spike_Params elapsed =
     (let cycle = elapsed mod (15 * minute)
      in if 5 * minute \<le> cycle \<and> cycle < 10 * minute
         then \<lparr>sp_RPSMultiplier = 5, sp_ErrorRate = DefaultErrorRate,
               sp_ModelOverride = Some (DefaultModelDistributions ! 0), sp_ModelOverridePct = fl (80 / 100),
               sp_TokenMultiplier = 1\<rparr>
         else normal_params)"

record anomalyScenario =
  an_next :: int
  an_end :: int
  an_type :: nat

definition anomaly_duration :: "nat \<Rightarrow> int" where
  "anomaly_duration ty = (if ty = 0 then 60 * second else if ty = 1 then 2 * minute else 90 * second)"

definition anomaly_kind :: "nat \<Rightarrow> ScenarioParams" where
  "anomaly_kind ty =
     (if ty = 0 then normal_params\<lparr>sp_ErrorRate := fl (30 / 100)\<rparr>
      else if ty = 1 then normal_params\<lparr>sp_ModelOverride := Some (DefaultModelDistributions ! 6),
                                         sp_ModelOverridePct := fl (90 / 100)\<rparr>
      else normal_params\<lparr>sp_TokenMultiplier := 5\<rparr>)"

definition three_to_five :: "int random" where
  "three_to_five = do { k \<leftarrow> IntN 3; State_Monad.return ((3 + int k) * minute) }"

definition anomaly_Params :: "anomalyScenario \<Rightarrow> int \<Rightarrow> (anomalyScenario \<times> ScenarioParams) random" where
  "anomaly_Params a elapsed = do {
     a \<leftarrow> (if an_next a = 0 then do { d \<leftarrow> three_to_five; State_Monad.return (a\<lparr>an_next := d\<rparr>) }
           else State_Monad.return a);
     a \<leftarrow> (if an_next a \<le> elapsed \<and> an_end a = 0
           then do { ty \<leftarrow> IntN 3;
                     State_Monad.return (a\<lparr>an_type := ty, an_end := an_next a + anomaly_duration ty\<rparr>) }
           else State_Monad.return a);
     if 0 < an_end a \<and> elapsed < an_end a then State_Monad.return (a, anomaly_kind (an_type a))
     else do {
       a \<leftarrow> (if 0 < an_end a \<and> an_end a \<le> elapsed
             then do { d \<leftarrow> three_to_five; State_Monad.return (a\<lparr>an_next := an_end a + d, an_end := 0\<rparr>) }
             else State_Monad.return a);
       State_Monad.return (a, normal_params)
     }
   }"

datatype scenario = NormalScenario | SpikeScenario | AnomalyScenario anomalyScenario

definition NewScenario :: "string \<Rightarrow> scenario" where
  "NewScenario st =
     (if st = ''spike'' then SpikeScenario
      else if st = ''anomaly'' then AnomalyScenario \<lparr>an_next = 0, an_end = 0, an_type = 0\<rparr>
      else NormalScenario)"

definition Params :: "scenario \<Rightarrow> int \<Rightarrow> (scenario \<times> ScenarioParams) random" where
  "Params sc elapsed =
     (case sc of
        NormalScenario \<Rightarrow> State_Monad.return (sc, normal_params)
      | SpikeScenario \<Rightarrow> State_Monad.return (sc, spike_Params elapsed)
      | AnomalyScenario a \<Rightarrow> do {
          (a, p) \<leftarrow> anomaly_Params a elapsed;
          State_Monad.return (AnomalyScenario a, p)
        })"

section \<open>Event ids\<close>

definition PutUint32 :: "u32 \<Rightarrow> u8 list" where
  "PutUint32 w = map (\<lambda>k. ucast (drop_bit k w)) [24, 16, 8, 0]"

definition PutUint16 :: "u16 \<Rightarrow> u8 list" where
  "PutUint16 w = map (\<lambda>k. ucast (drop_bit k w)) [8, 0]"

definition event_id_bytes :: "u64 \<Rightarrow> u64 \<Rightarrow> u64 \<Rightarrow> u8 list" where
  "event_id_bytes ms randBits randBits2 =
     PutUint32 (ucast (drop_bit 16 ms)) @ PutUint16 (ucast ms)
     @ [0x70 OR ucast (drop_bit 56 randBits AND 0x0F), ucast (drop_bit 48 randBits),
        0x80 OR ucast (drop_bit 40 randBits AND 0x3F), ucast (drop_bit 32 randBits),
        ucast (drop_bit 24 randBits), ucast (drop_bit 16 randBits),
        ucast (drop_bit 24 randBits2), ucast (drop_bit 16 randBits2),
        ucast (drop_bit 8 randBits2), ucast randBits2]"

definition deterministicEventID :: "(u8 list \<Rightarrow> string) \<Rightarrow> gotime \<Rightarrow> string random" where
  "deterministicEventID us ts = do {
     randBits \<leftarrow> Uint64;
     randBits2 \<leftarrow> Uint64;
     State_Monad.return (us (event_id_bytes (word_of_int (UnixMilli ts)) randBits randBits2))
   }"

section \<open>datagen.go\<close>

record Generator =
  gr_seed :: u64
  gr_prices :: PriceTable
  gr_orgID :: u64
  gr_projects :: "ProjectDistribution list"
  gr_models :: "ModelDistribution list"
  gr_cumWeights :: "f64 list"
  gr_projCum :: "f64 list"

text \<open>The generator of random numbers is the state; \<open>pcg\<close> is \<open>rand.New(rand.NewPCG(a, b))\<close>.\<close>

definition NewGenerator ::
    "(u64 \<Rightarrow> u64 \<Rightarrow> rng) \<Rightarrow> u64 \<Rightarrow> u64 \<Rightarrow> PriceTable \<Rightarrow> ProjectDistribution list \<Rightarrow> Generator \<times> rng" where
  "NewGenerator pcg seed orgID prices projects =
     (\<lparr>gr_seed = seed, gr_prices = prices, gr_orgID = orgID, gr_projects = projects, gr_models = DefaultModelDistributions,
       gr_cumWeights = buildCumulativeWeights DefaultModelDistributions,
       gr_projCum = cumulative (map pd_Weight projects)\<rparr>,
      pcg seed (seed XOR 0xdeadbeef))"

definition pickProject :: "Generator \<Rightarrow> string random" where
  "pickProject g = do {
     r \<leftarrow> Float64;
     State_Monad.return (pd_ProjectID (pick r (gr_projCum g) (gr_projects g)))
   }"

definition choose_model :: "Generator \<Rightarrow> ModelDistribution option \<Rightarrow> f64 \<Rightarrow> ModelDistribution random" where
  "choose_model g modelOverride modelOverridePct =
     (case modelOverride of
        None \<Rightarrow> pickModel (gr_models g) (gr_cumWeights g)
      | Some m \<Rightarrow> do {
          r \<leftarrow> Float64;
          if r < modelOverridePct then State_Monad.return m else pickModel (gr_models g) (gr_cumWeights g)
        })"

definition choose_status :: "f64 \<Rightarrow> (u32 \<times> bool) random" where
  "choose_status errorRate = do {
     e \<leftarrow> Float64;
     if e < errorRate then do {
       r \<leftarrow> Float64;
       State_Monad.return (if r < fl (50 / 100) then 429 else if r < fl (75 / 100) then 500 else 400, True)
     } else State_Monad.return (200, False)
   }"

definition generateEvent ::
    "libm \<Rightarrow> (u8 list \<Rightarrow> string) \<Rightarrow> Generator \<Rightarrow> gotime \<Rightarrow> ScenarioParams option \<Rightarrow> GenEvent random" where
  "generateEvent lm us g ts params =
     (let errorRate = (case params of None \<Rightarrow> DefaultErrorRate | Some p \<Rightarrow> sp_ErrorRate p);
          modelOverride = (case params of None \<Rightarrow> None | Some p \<Rightarrow> sp_ModelOverride p);
          modelOverridePct = (case params of None \<Rightarrow> 0 | Some p \<Rightarrow> sp_ModelOverridePct p);
          tokenMultiplier = (case params of None \<Rightarrow> 1 | Some p \<Rightarrow> sp_TokenMultiplier p)
      in do {
        model \<leftarrow> choose_model g modelOverride modelOverridePct;
        (statusCode, isError) \<leftarrow> choose_status errorRate;
        (prompt, completion0) \<leftarrow> generateTokens lm model isError;
        let completion = (if tokenMultiplier \<noteq> 1 \<and> \<not> isError
                          then u32_of_f64 (fmul (f64_of_u32 completion0) tokenMultiplier) else completion0);
        latency \<leftarrow> generateLatency model statusCode;
        projectID \<leftarrow> pickProject g;
        let price = LookupPrice (gr_prices g) (md_Provider model) (md_Model model) ts;
        let cost = dg_calculateCost prompt completion price;
        eventID \<leftarrow> deterministicEventID us ts;
        tags \<leftarrow> generateTags;
        State_Monad.return
          \<lparr>ge_OrgID = gr_orgID g, ge_EventID = eventID, ge_ProjectID = projectID, ge_Timestamp = ts,
           ge_Model = md_Model model, ge_Provider = md_Provider model, ge_PromptTokens = prompt,
           ge_CompletionTokens = completion, ge_TotalTokens = prompt + completion, ge_CostUSD = cost,
           ge_LatencyMs = latency, ge_StatusCode = statusCode, ge_Tags = tags, ge_S3Status = ''none'',
           ge_SchemaVersion = 1\<rparr>
      })"

text \<open>The days of the loop, and the events of one hour.\<close>

function day_range :: "gotime \<Rightarrow> gotime \<Rightarrow> gotime list" where
  "day_range day endOfRange =
     (if Before day endOfRange then day # day_range (AddDays day 1) endOfRange else [])"
  by pat_completeness auto
termination
  by (relation "measure (\<lambda>(day, e). nat (t_ns e - t_ns day))")
    (simp_all add: Before_def AddDays_def Add_def)

definition int_of_f64 :: "f64 \<Rightarrow> int" where "int_of_f64 = trunc"

definition hour_events ::
    "libm \<Rightarrow> (u8 list \<Rightarrow> string) \<Rightarrow> Generator \<Rightarrow> gotime \<Rightarrow> int \<Rightarrow> gotime \<Rightarrow> int \<Rightarrow> GenEvent list random" where
  "hour_events lm us g to totalForDay day h =
     (let eventsInHour = int_of_f64 (fdiv (fmul (fl (of_int totalForDay)) (HourlyWeight h)) totalHourlyWeightSum)
      in map_state concat (traverse_list (\<lambda>i. do {
           minuteOffset \<leftarrow> IntN 60;
           secondOffset \<leftarrow> IntN 60;
           milliOffset \<leftarrow> IntN 1000;
           let ts = Date_UTC (civil day) h (int minuteOffset) (int secondOffset) (int milliOffset * 1000000);
           if After ts to then State_Monad.return []
           else do { e \<leftarrow> generateEvent lm us g ts None; State_Monad.return [e] }
         }) [0 ..< nat eventsInHour]))"

definition GenerateBatch ::
    "libm \<Rightarrow> (u8 list \<Rightarrow> string) \<Rightarrow> Generator \<Rightarrow> gotime \<Rightarrow> gotime \<Rightarrow> int \<Rightarrow> GenEvent list random" where
  "GenerateBatch lm us g from_t to eventsPerDay =
     (let endOfRange = AddDays (Truncate to (24 * hour)) 1
      in map_state concat (traverse_list (\<lambda>day.
           let totalForDay = int_of_f64 (fmul (fl (of_int eventsPerDay)) (DayWeight (Weekday day)))
           in map_state concat (traverse_list (hour_events lm us g to totalForDay day) [0..23]))
         (day_range from_t endOfRange)))"

section \<open>Prices\<close>

definition price_entry :: "string \<Rightarrow> string \<Rightarrow> f64 \<Rightarrow> f64 \<Rightarrow> int \<times> int \<times> int \<Rightarrow> PriceEntry" where
  "price_entry provider model i out ymd =
     \<lparr>pe_Provider = provider, pe_ModelName = model, pe_InputPricePerMillion = i,
      pe_OutputPricePerMillion = out, pe_EffectiveFrom = Date_UTC ymd 0 0 0 0\<rparr>"

definition SeedModelPrices :: "PriceEntry list" where
  "SeedModelPrices =
     [price_entry ''openai'' ''gpt-4o'' (fl (250 / 100)) 10 (2024, 5, 13),
      price_entry ''openai'' ''gpt-4o-mini'' (fl (15 / 100)) (fl (60 / 100)) (2024, 7, 18),
      price_entry ''anthropic'' ''claude-3-5-sonnet'' 3 15 (2024, 10, 22),
      price_entry ''anthropic'' ''claude-3-5-haiku'' (fl (80 / 100)) 4 (2024, 11, 4),
      price_entry ''google'' ''gemini-1.5-pro'' (fl (350 / 100)) (fl (1050 / 100)) (2024, 5, 14),
      price_entry ''google'' ''gemini-1.5-flash'' (fl (75 / 1000)) (fl (30 / 100)) (2024, 5, 14),
      price_entry ''openai'' ''gpt-4-turbo'' 10 30 (2024, 4, 9)]"

fun table_loop :: "PriceEntry list \<Rightarrow> PriceTable \<Rightarrow> PriceTable" where
  "table_loop [] pt = pt"
| "table_loop (e # es) pt =
     (let key = dg_priceKey (pe_Provider e) (pe_ModelName e);
          old = (case pt key of None \<Rightarrow> [] | Some l \<Rightarrow> l)
      in table_loop es (pt(key \<mapsto> old @ [e])))"

definition BuildPriceTable :: "PriceEntry list \<Rightarrow> PriceTable" where
  "BuildPriceTable entries = table_loop entries Map.empty"

definition CheckMissingModels :: "PriceTable \<Rightarrow> string list" where
  "CheckMissingModels pt =
     map (\<lambda>m. md_Provider m @ ''/'' @ md_Model m)
       (filter (\<lambda>m. pt (dg_priceKey (md_Provider m) (md_Model m)) = None) DefaultModelDistributions)"

section \<open>Event ids are UUIDs of version 7\<close>

text \<open>The documented form of \<open>UUID.String\<close>.\<close>

definition canonical_uuid :: "u8 list \<Rightarrow> string" where
  "canonical_uuid b =
     EncodeToString (take 4 b) @ ''-'' @ EncodeToString (take 2 (drop 4 b)) @ ''-''
     @ EncodeToString (take 2 (drop 6 b)) @ ''-'' @ EncodeToString (take 2 (drop 8 b)) @ ''-''
     @ EncodeToString (drop 10 b)"

definition prints_uuids :: "(u8 list \<Rightarrow> string) \<Rightarrow> bool" where
  "prints_uuids us \<longleftrightarrow> (\<forall>b. length b = 16 \<longrightarrow> us b = canonical_uuid b)"

lemma canonical_uuid_v7:
  assumes "length b = 16" "unat (b ! 6) div 16 = 7"
  shows "uuidV7Regex (canonical_uuid b)"
proof -
  have d: "unat x div 16 < 16" for x :: u8 using unat_u8_less [of x] by simp
  obtain b0 b1 b2 b3 b4 b5 b6 b7 b8 b9 b10 b11 b12 b13 b14 b15 where
    b: "b = [b0, b1, b2, b3, b4, b5, b6, b7, b8, b9, b10, b11, b12, b13, b14, b15]"
    using assms(1) by (auto simp: length_Suc_conv numeral_eq_Suc)
  have "hex_digit 7 = CHR ''7''" by code_simp
  then have "hex_digit (unat b6 div 16) = CHR ''7''" using assms(2) by (simp add: b)
  then show ?thesis
    by (simp add: b canonical_uuid_def uuidV7Regex_def hex_run_def EncodeToString_def hex_byte_def d)
qed

lemma version_nibble: "unat ((0x70 OR (w AND 0x0F)) :: u8) div 16 = 7"
proof -
  have "drop_bit 4 ((0x70 OR (w AND 0x0F)) :: u8) = 7"
    by (rule bit_word_eqI) (auto simp: bit_simps less_Suc_eq numeral_eq_Suc)
  then have "unat (drop_bit 4 ((0x70 OR (w AND 0x0F)) :: u8)) = 7" by simp
  then show ?thesis by (simp add: drop_bit_eq_div unat_div)
qed

lemma event_id_v7: "uuidV7Regex (canonical_uuid (event_id_bytes ms r r2))"
proof (rule canonical_uuid_v7)
  show "length (event_id_bytes ms r r2) = 16"
    by (simp add: event_id_bytes_def PutUint32_def PutUint16_def)
  have "ucast (drop_bit 56 r AND 0x0F) = (ucast (drop_bit 56 r) AND 0x0F :: u8)"
    by (rule bit_word_eqI) (auto simp: bit_simps)
  then show "unat (event_id_bytes ms r r2 ! 6) div 16 = 7"
    by (simp add: event_id_bytes_def PutUint32_def PutUint16_def version_nibble)
qed

lemma ToLower_canonical: "ToLower (canonical_uuid b) = canonical_uuid b"
proof -
  have "lower_char c = c" if "is_lower_hex c" for c
    using that by (auto simp: lower_char_def is_lower_hex_def is_digit_def)
  moreover have "lower_char (CHR ''-'') = CHR ''-''" by (simp add: lower_char_def)
  ultimately have "lower_char c = c" if "c \<in> set (canonical_uuid b)" for c
    using that by (auto simp: canonical_uuid_def dest: EncodeToString_lower)
  then show ?thesis by (simp add: ToLower_def map_idI)
qed

section \<open>What a generated event is\<close>

definition good_event :: "Generator \<Rightarrow> ModelDistribution set \<Rightarrow> gotime \<Rightarrow> GenEvent \<Rightarrow> bool" where
  "good_event g models ts e \<longleftrightarrow>
     ge_OrgID e = gr_orgID g \<and> ge_Timestamp e = ts \<and> ge_ProjectID e \<in> pd_ProjectID ` set (gr_projects g)
     \<and> uuidV7Regex (ToLower (ge_EventID e))
     \<and> (\<exists>m \<in> models. ge_Model e = md_Model m \<and> ge_Provider e = md_Provider m)
     \<and> ge_StatusCode e \<in> {200, 400, 429, 500} \<and> small_tags (ge_Tags e)
     \<and> ge_TotalTokens e = ge_PromptTokens e + ge_CompletionTokens e
     \<and> (ge_StatusCode e \<noteq> 200 \<longrightarrow> ge_PromptTokens e = 0 \<and> ge_CompletionTokens e = 0)
     \<and> ge_CostUSD e = dg_calculateCost (ge_PromptTokens e) (ge_CompletionTokens e)
                        (LookupPrice (gr_prices g) (ge_Provider e) (ge_Model e) ts)"

definition good_generator :: "Generator \<Rightarrow> bool" where
  "good_generator g \<longleftrightarrow>
     gr_models g = DefaultModelDistributions \<and> gr_cumWeights g = buildCumulativeWeights DefaultModelDistributions
     \<and> gr_projects g \<noteq> [] \<and> gr_projCum g = cumulative (map pd_Weight (gr_projects g))"

lemma NewGenerator_good: "ps \<noteq> [] \<Longrightarrow> good_generator (fst (NewGenerator pcg seed org prices ps))"
  by (simp add: good_generator_def NewGenerator_def)

lemma default_models: "DefaultModelDistributions \<noteq> []"
  by (simp add: DefaultModelDistributions_def)

lemma pred_choose_model:
  assumes "good_generator g"
  shows "pred_state (\<lambda>m. m \<in> set DefaultModelDistributions \<or> ov = Some m) (choose_model g ov pct)"
proof (cases ov)
  case None
  then show ?thesis
    using assms pred_pickModel [OF default_models] by (simp add: choose_model_def good_generator_def)
next
  case (Some m)
  have "pred_state (\<lambda>x. x \<in> set DefaultModelDistributions \<or> ov = Some x) (pickModel (gr_models g) (gr_cumWeights g))"
    using assms pred_mono [OF pred_pickModel [OF default_models]] by (simp add: good_generator_def)
  with Some show ?thesis
    by (auto simp: choose_model_def intro!: pred_bind [OF pred_any] pred_return)
qed

lemma pred_choose_status:
  "pred_state (\<lambda>(c, b). c \<in> {200, 400, 429, 500} \<and> (b \<longleftrightarrow> c \<noteq> 200)) (choose_status er)"
  unfolding choose_status_def
  by (intro pred_bind [OF pred_any] pred_if pred_return) auto

lemma pred_generateTokens:
  "pred_state (\<lambda>(p, c). isError \<longrightarrow> p = 0 \<and> c = 0) (generateTokens lm model isError)"
  unfolding generateTokens_def
  by (intro pred_if pred_bind [OF pred_any] pred_return) auto

lemma pred_pickProject:
  "good_generator g \<Longrightarrow> pred_state (\<lambda>p. p \<in> pd_ProjectID ` set (gr_projects g)) (pickProject g)"
  unfolding pickProject_def good_generator_def
  by (intro pred_bind [OF pred_any] pred_return imageI pick_mem) simp_all

lemma pred_event_id:
  assumes "prints_uuids us"
  shows "pred_state (\<lambda>s. uuidV7Regex (ToLower s)) (deterministicEventID us ts)"
proof -
  have "length (event_id_bytes ms r r2) = 16" for ms r r2
    by (simp add: event_id_bytes_def PutUint32_def PutUint16_def)
  then have "us (event_id_bytes ms r r2) = canonical_uuid (event_id_bytes ms r r2)" for ms r r2
    using assms by (simp add: prints_uuids_def)
  then show ?thesis
    unfolding deterministicEventID_def
    by (intro pred_bind [OF pred_any] pred_return) (simp add: ToLower_canonical event_id_v7)
qed

lemma pred_generateEvent:
  assumes g: "good_generator g" and us: "prints_uuids us"
  shows "pred_state (good_event g
      (set DefaultModelDistributions \<union> {m. \<exists>p. params = Some p \<and> sp_ModelOverride p = Some m}) ts)
    (generateEvent lm us g ts params)"
proof -
  let ?models = "set DefaultModelDistributions \<union> {m. \<exists>p. params = Some p \<and> sp_ModelOverride p = Some m}"
  have m: "m \<in> ?models" if "m \<in> set DefaultModelDistributions
      \<or> (case params of None \<Rightarrow> None | Some p \<Rightarrow> sp_ModelOverride p) = Some m" for m
    using that by (cases params) auto
  show ?thesis
    unfolding generateEvent_def Let_def
    by (rule pred_bind [OF pred_choose_model [OF g]], rule pred_bind2 [OF pred_choose_status],
        rule pred_bind2 [OF pred_generateTokens], rule pred_bind [OF pred_any],
        rule pred_bind [OF pred_pickProject [OF g]], rule pred_bind [OF pred_event_id [OF us]],
        rule pred_bind [OF pred_generateTags], rule pred_return, drule m, simp add: good_event_def, blast)
qed

section \<open>A batch stays in its range\<close>

lemma pred_map_state: "pred_state (\<lambda>x. P (f x)) m \<Longrightarrow> pred_state P (map_state f m)"
  by (simp add: state.pred_map o_def)

lemma pred_concat:
  assumes "\<And>x. x \<in> set xs \<Longrightarrow> pred_state (list_all P) (f x)"
  shows "pred_state (list_all P) (map_state concat (traverse_list f xs))"
  by (rule pred_map_state, rule pred_mono [OF pred_traverse [OF assms]]) (auto simp: list_all_iff)

declare day_range.simps [simp del]

lemma day_range_bounds:
  "d \<in> set (day_range day e) \<Longrightarrow> t_off day = 0 \<Longrightarrow> local_day day \<le> local_day d \<and> t_off d = 0"
proof (induction day e rule: day_range.induct)
  case (1 day e)
  have "local_day day \<le> local_day (AddDays day 1)"
    by (auto simp: local_day_def AddDays_def Add_def intro!: zdiv_mono1)
  moreover have "t_off (AddDays day 1) = t_off day" by (simp add: AddDays_def Add_def)
  moreover have "day_range day e = (if Before day e then day # day_range (AddDays day 1) e else [])"
    by (rule day_range.simps)
  ultimately show ?case using 1 by (cases "Before day e") auto
qed

definition in_range :: "Generator \<Rightarrow> gotime \<Rightarrow> gotime \<Rightarrow> GenEvent \<Rightarrow> bool" where
  "in_range g from_t to e \<longleftrightarrow>
     local_day from_t * (24 * hour) \<le> t_ns (ge_Timestamp e) \<and> t_ns (ge_Timestamp e) \<le> t_ns to
     \<and> t_off (ge_Timestamp e) = 0 \<and> good_event g (set DefaultModelDistributions) (ge_Timestamp e) e"

lemma pred_hour_events:
  assumes g: "good_generator g" "prints_uuids us" and d: "local_day from_t \<le> local_day day" "0 \<le> h"
  shows "pred_state (list_all (in_range g from_t to)) (hour_events lm us g to n day h)"
proof -
  have ev: "pred_state (list_all (in_range g from_t to))
      (if After (Date_UTC (civil day) h (int m) (int s) (int ms * 1000000)) to then State_Monad.return []
       else do { e \<leftarrow> generateEvent lm us g (Date_UTC (civil day) h (int m) (int s) (int ms * 1000000)) None;
                 State_Monad.return [e] })" for m s ms
  proof (intro pred_if pred_bind [OF pred_generateEvent [OF g]] pred_return)
    let ?ts = "Date_UTC (civil day) h (int m) (int s) (int ms * 1000000)"
    fix e
    assume "\<not> After ?ts to" and e: "good_event g (set DefaultModelDistributions
        \<union> {m. \<exists>p. None = Some p \<and> sp_ModelOverride p = Some m}) ?ts e"
    moreover have "local_day from_t * (24 * hour) \<le> t_ns ?ts"
    proof -
      have "local_day from_t * (24 * hour) \<le> local_day day * (24 * hour)" using d by simp
      also have "\<dots> \<le> t_ns ?ts" using d(2) by (simp add: Date_UTC_civil)
      finally show ?thesis .
    qed
    ultimately show "list_all (in_range g from_t to) [e]"
      by (simp add: in_range_def good_event_def After_def)
  qed simp
  show ?thesis
    unfolding hour_events_def Let_def
    by (intro pred_concat pred_bind [OF pred_any] ev)
qed

lemma pred_GenerateBatch:
  assumes "good_generator g" "prints_uuids us" "t_off from_t = 0"
  shows "pred_state (list_all (in_range g from_t to)) (GenerateBatch lm us g from_t to eventsPerDay)"
  unfolding GenerateBatch_def Let_def
proof (intro pred_concat)
  fix day n h
  assume "day \<in> set (day_range from_t (AddDays (Truncate to (24 * hour)) 1))" "h \<in> set [0..23]"
  then show "pred_state (list_all (in_range g from_t to)) (hour_events lm us g to n day h)"
    using day_range_bounds [of day from_t] assms by (intro pred_hour_events) simp_all
qed

text \<open>
  Every event of a batch is stamped in UTC between the first day of the range and its end,
  never after it, and is well-formed: a UUID of version 7, one of the models of the distribution and
  one of the projects, a status that is 200 or an error with no tokens, and the cost of its tokens by
  the price table.
\<close>

lemma GenerateBatch_in_range:
  assumes "good_generator g" "prints_uuids us" "t_off from_t = 0"
    and "run_state (GenerateBatch lm us g from_t to eventsPerDay) rng = (events, rng')"
  shows "list_all (in_range g from_t to) events"
  using pred_GenerateBatch [OF assms(1-3), of to lm eventsPerDay] assms(4) by auto

definition sample_rng :: rng where
  "sample_rng = \<lparr>rn_u64 = \<lambda>n. of_nat n, rn_norm = \<lambda>_. 0, rn_int = \<lambda>n. n, rn_pos = 0\<rparr>"

definition sample_libm :: libm where
  "sample_libm = \<lparr>lm_Log = \<lambda>x. x, lm_Exp = \<lambda>x. x, lm_Sqrt = \<lambda>x. x\<rparr>"

definition sample_generator :: Generator where
  "sample_generator = fst (NewGenerator (\<lambda>_ _. sample_rng) 42 0 (BuildPriceTable SeedModelPrices)
     DefaultProjectDistributions)"

lemma sample_generator_good: "good_generator sample_generator"
  unfolding sample_generator_def
  by (rule NewGenerator_good) (simp add: DefaultProjectDistributions_def)

section \<open>Anomalies come one at a time\<close>

lemma pred_three_to_five: "pred_state (\<lambda>d. 3 * minute \<le> d) three_to_five"
  unfolding three_to_five_def by (intro pred_bind [OF pred_any] pred_return) simp

text \<open>
  The state of the scenario with the set of instants at which it has been anomalous: before an
  anomaly all of them are more than three minutes back, during one they may also lie in its window.
\<close>

definition anomaly_inv :: "anomalyScenario \<Rightarrow> int set \<Rightarrow> int \<Rightarrow> bool" where
  "anomaly_inv a seen last_t \<longleftrightarrow>
     (\<forall>l \<in> seen. 0 \<le> l \<and> l \<le> last_t)
     \<and> (if an_end a = 0 then 0 \<le> an_next a \<and> (\<forall>l \<in> seen. l + 3 * minute < an_next a)
        else 0 < an_next a \<and> an_next a \<le> last_t \<and> an_next a < an_end a \<and> an_end a \<le> an_next a + 2 * minute
             \<and> (\<forall>l \<in> seen. l + 3 * minute < an_next a \<or> an_next a \<le> l \<and> l < an_end a))"

definition far_apart :: "int \<Rightarrow> int \<Rightarrow> bool" where
  "far_apart l t \<longleftrightarrow> t - l < 2 * minute \<or> 3 * minute < t - l"

lemma anomaly_duration_bounds: "0 < anomaly_duration ty" "anomaly_duration ty \<le> 2 * minute"
  by (simp_all add: anomaly_duration_def)

lemma pred_anomaly_Params:
  assumes inv: "anomaly_inv a seen last_t" "0 \<le> last_t" "last_t \<le> t"
  shows "pred_state (\<lambda>(a', p). anomaly_inv a' (if p = normal_params then seen else insert t seen) t
      \<and> (p \<noteq> normal_params \<longrightarrow> (\<forall>l \<in> seen. far_apart l t))) (anomaly_Params a t)"
proof -
  let ?P1 = "\<lambda>a. anomaly_inv a seen last_t \<and> 0 < an_next a"
  let ?P2 = "\<lambda>a. anomaly_inv a seen t \<and> 0 < an_next a"
  let ?Q = "\<lambda>(a', p). anomaly_inv a' (if p = normal_params then seen else insert t seen) t
      \<and> (p \<noteq> normal_params \<longrightarrow> (\<forall>l \<in> seen. far_apart l t))"
  have 1: "pred_state ?P1 (if an_next a = 0
      then do { d \<leftarrow> three_to_five; State_Monad.return (a\<lparr>an_next := d\<rparr>) } else State_Monad.return a)"
    using inv(1)
    by (intro pred_if pred_bind [OF pred_three_to_five] pred_return)
      (fastforce simp: anomaly_inv_def split: if_splits)+
  have 2: "pred_state ?P2 (if an_next a \<le> t \<and> an_end a = 0
      then do { ty \<leftarrow> IntN 3;
                State_Monad.return (a\<lparr>an_type := ty, an_end := an_next a + anomaly_duration ty\<rparr>) }
      else State_Monad.return a)" if a: "?P1 a" for a
    using a inv(2,3) anomaly_duration_bounds
    by (intro pred_if pred_bind [OF pred_any] pred_return)
      (fastforce simp: anomaly_inv_def split: if_splits)+
  have 3: "?Q (a, anomaly_kind (an_type a))" if "?P2 a" "0 < an_end a" "t < an_end a" for a
    using that inv(2,3) by (fastforce simp: anomaly_inv_def far_apart_def split: if_splits)
  have 4: "pred_state (\<lambda>a'. anomaly_inv a' seen t) (if 0 < an_end a \<and> an_end a \<le> t
      then do { d \<leftarrow> three_to_five; State_Monad.return (a\<lparr>an_next := an_end a + d, an_end := 0\<rparr>) }
      else State_Monad.return a)" if "?P2 a" for a
    using that
    by (intro pred_if pred_bind [OF pred_three_to_five] pred_return)
      (fastforce simp: anomaly_inv_def split: if_splits)+
  show ?thesis
    unfolding anomaly_Params_def
    by (rule pred_bind [OF 1], rule pred_bind [OF 2], assumption, rule pred_if, rule pred_return,
        rule 3, assumption, simp, simp, rule pred_bind [OF 4], assumption, rule pred_return, simp)
qed

fun anomaly_run :: "anomalyScenario \<Rightarrow> int list \<Rightarrow> ScenarioParams list random" where
  "anomaly_run a [] = State_Monad.return []"
| "anomaly_run a (t # ts) = do {
     (a, p) \<leftarrow> anomaly_Params a t;
     ps \<leftarrow> anomaly_run a ts;
     State_Monad.return (p # ps)
   }"

lemma pred_anomaly_run:
  assumes "anomaly_inv a seen last_t" "0 \<le> last_t" "sorted ts" "\<forall>t \<in> set ts. last_t \<le> t"
  shows "pred_state (\<lambda>ps. \<forall>j < length ts. ps ! j \<noteq> normal_params \<longrightarrow>
      (\<forall>l \<in> seen. far_apart l (ts ! j))
      \<and> (\<forall>i < j. ps ! i \<noteq> normal_params \<longrightarrow> far_apart (ts ! i) (ts ! j))) (anomaly_run a ts)"
  using assms
proof (induction ts arbitrary: a seen last_t)
  case (Cons t ts)
  have t: "last_t \<le> t" "0 \<le> t" "\<forall>u \<in> set ts. t \<le> u" "sorted ts" using Cons.prems by auto
  show ?case
    unfolding anomaly_run.simps
  proof (rule pred_bind2 [OF pred_anomaly_Params [OF Cons.prems(1,2) t(1)]], rule pred_bind)
    fix a' p
    assume p: "anomaly_inv a' (if p = normal_params then seen else insert t seen) t
        \<and> (p \<noteq> normal_params \<longrightarrow> (\<forall>l \<in> seen. far_apart l t))"
    then show "pred_state (\<lambda>ps. \<forall>j < length ts. ps ! j \<noteq> normal_params \<longrightarrow>
        (\<forall>l \<in> (if p = normal_params then seen else insert t seen). far_apart l (ts ! j))
        \<and> (\<forall>i < j. ps ! i \<noteq> normal_params \<longrightarrow> far_apart (ts ! i) (ts ! j))) (anomaly_run a' ts)"
      using Cons.IH t by blast
    fix ps
    assume ps: "\<forall>j < length ts. ps ! j \<noteq> normal_params \<longrightarrow>
        (\<forall>l \<in> (if p = normal_params then seen else insert t seen). far_apart l (ts ! j))
        \<and> (\<forall>i < j. ps ! i \<noteq> normal_params \<longrightarrow> far_apart (ts ! i) (ts ! j))"
    show "pred_state (\<lambda>ps. \<forall>j < length (t # ts). ps ! j \<noteq> normal_params \<longrightarrow>
        (\<forall>l \<in> seen. far_apart l ((t # ts) ! j))
        \<and> (\<forall>i < j. ps ! i \<noteq> normal_params \<longrightarrow> far_apart ((t # ts) ! i) ((t # ts) ! j)))
        (State_Monad.return (p # ps))"
    proof (rule pred_return, intro allI impI)
      fix j
      assume j: "j < length (t # ts)" "(p # ps) ! j \<noteq> normal_params"
      show "(\<forall>l \<in> seen. far_apart l ((t # ts) ! j))
          \<and> (\<forall>i < j. (p # ps) ! i \<noteq> normal_params \<longrightarrow> far_apart ((t # ts) ! i) ((t # ts) ! j))"
      proof (cases j)
        case 0
        with j p show ?thesis by simp
      next
        case (Suc k)
        with j ps have "\<forall>l \<in> (if p = normal_params then seen else insert t seen). far_apart l (ts ! k)"
          "\<forall>i < k. ps ! i \<noteq> normal_params \<longrightarrow> far_apart (ts ! i) (ts ! k)" by simp_all
        then show ?thesis by (auto simp: Suc less_Suc_eq_0_disj split: if_splits)
      qed
    qed
  qed
qed (simp add: pred_return)

text \<open>
  C33: In the anomaly scenario, however the requests are spaced, two requests that are served with
  anomalous parameters belong to one anomaly, which is over in two minutes, or to anomalies more than
  three minutes apart.
\<close>

theorem anomaly_spacing:
  assumes "sorted ts" "\<forall>t \<in> set ts. 0 \<le> t"
    and "run_state (anomaly_run \<lparr>an_next = 0, an_end = 0, an_type = 0\<rparr> ts) rng = (ps, rng')"
  shows "\<forall>i j. i < j \<and> j < length ts \<and> ps ! i \<noteq> normal_params \<and> ps ! j \<noteq> normal_params \<longrightarrow>
    ts ! j - ts ! i < 2 * minute \<or> 3 * minute < ts ! j - ts ! i"
proof -
  have "anomaly_inv \<lparr>an_next = 0, an_end = 0, an_type = 0\<rparr> {} 0" by (simp add: anomaly_inv_def)
  from pred_anomaly_run [OF this _ assms(1)] assms(2,3)
  have "\<forall>j < length ts. ps ! j \<noteq> normal_params \<longrightarrow>
      (\<forall>i < j. ps ! i \<noteq> normal_params \<longrightarrow> far_apart (ts ! i) (ts ! j))" by fastforce
  then show ?thesis by (auto simp: far_apart_def)
qed

theorem anomaly_spacing_witness:
  "\<not> (fst (run_state (anomaly_run \<lparr>an_next = 0, an_end = 0, an_type = 0\<rparr>
             [4 * minute, 4 * minute + 150 * second]) sample_rng) ! 0 \<noteq> normal_params
      \<and> fst (run_state (anomaly_run \<lparr>an_next = 0, an_end = 0, an_type = 0\<rparr>
             [4 * minute, 4 * minute + 150 * second]) sample_rng) ! 1 \<noteq> normal_params)"
proof -
  have "sorted [4 * minute, 4 * minute + 150 * second]"
    "\<forall>t \<in> set [4 * minute, 4 * minute + 150 * second]. 0 \<le> t" by simp_all
  from anomaly_spacing [OF this surjective_pairing, rule_format, of 0 1 sample_rng] show ?thesis by auto
qed

end
