(* ===== verification/Seed.thy ===== *)
theory Seed
  imports Data_Generator Dash_Keys Dash_Signup Worker_Cost
begin

text \<open>
  The command \<open>cmd/seed\<close>: it creates a demo organisation, user, projects and API key directly in
  PostgreSQL, completes the table of model prices, and inserts generated events directly into
  ClickHouse. It writes its SQL itself and does not use package \<open>storage\<close>. Errors are its messages.
\<close>

section \<open>The demo organisation\<close>

definition demoOrgID :: string where "demoOrgID = ''00000000-0000-0000-0000-000000000001''"
definition demoUserID :: string where "demoUserID = ''00000000-0000-0000-0000-000000000002''"
definition demoKeyID :: string where "demoKeyID = ''00000000-0000-0000-0000-000000000020''"
definition demoAPIKey :: string where "demoAPIKey = ''pm_test_SeedDemoKeyForDev000000000000000''"
definition demoKeyPrefix :: string where "demoKeyPrefix = ''pm_test_''"

record demoProject =
  dp_ID :: string
  dp_Name :: string
  dp_Slug :: string
  dp_IsDefault :: bool

definition demoProjects :: "demoProject list" where
  "demoProjects =
     [\<lparr>dp_ID = ''00000000-0000-0000-0000-000000000010'', dp_Name = ''Backend API'',
       dp_Slug = ''backend-api'', dp_IsDefault = True\<rparr>,
      \<lparr>dp_ID = ''00000000-0000-0000-0000-000000000011'', dp_Name = ''Chat Support'',
       dp_Slug = ''chat-support'', dp_IsDefault = False\<rparr>,
      \<lparr>dp_ID = ''00000000-0000-0000-0000-000000000012'', dp_Name = ''Internal Tools'',
       dp_Slug = ''internal-tools'', dp_IsDefault = False\<rparr>]"

text \<open>
  \<open>INSERT \<dots> ON CONFLICT (columns) DO NOTHING\<close>: nothing happens on a conflict in these columns;
  any other violated constraint is an error.
\<close>

definition insert_unless ::
    "(pgdb \<Rightarrow> bool) \<Rightarrow> (pgdb \<Rightarrow> bool) \<Rightarrow> (pgdb \<Rightarrow> pgdb) \<Rightarrow> pgdb \<Rightarrow> pgdb \<times> unit result" where
  "insert_unless conflict violates ins =
     pg_exec (\<lambda>_ db. if conflict db then (db, Inr ())
                      else if violates db then (db, Inl PostgresError) else (ins db, Inr ()))"

definition insert_demo_org :: "gotime \<Rightarrow> string \<Rightarrow> pgdb \<Rightarrow> pgdb \<times> unit result" where
  "insert_demo_org now orgSlug =
     insert_unless (\<lambda>db. orgSlug \<in> org_Slug ` set (pg_organizations db))
       (\<lambda>db. demoOrgID \<in> org_ID ` set (pg_organizations db))
       (\<lambda>db. db\<lparr>pg_organizations := pg_organizations db @
          [\<lparr>org_ID = demoOrgID, org_Name = ''Demo Org'', org_Slug = orgSlug, org_Tier = TierPro,
            org_Timezone = ''UTC'', org_PIIEnabled = True, org_SlackWebhookURL = None,
            org_StripeCustomerID = None, org_StripeSubscriptionID = None, org_CreatedAt = now,
            org_UpdatedAt = now\<rparr>]\<rparr>)"

definition insert_demo_user :: "gotime \<Rightarrow> pgdb \<Rightarrow> pgdb \<times> unit result" where
  "insert_demo_user now =
     insert_unless (\<lambda>db. ''admin@localhost'' \<in> user_Email ` set (pg_users db))
       (\<lambda>db. demoUserID \<in> user_ID ` set (pg_users db))
       (\<lambda>db. db\<lparr>pg_users := pg_users db @
          [\<lparr>user_ID = demoUserID, user_Email = ''admin@localhost'', user_Name = ''Admin'',
            user_AvatarURL = [], user_CreatedAt = now\<rparr>]\<rparr>)"

definition insert_demo_member :: "pgdb \<Rightarrow> pgdb \<times> unit result" where
  "insert_demo_member =
     insert_unless (\<lambda>db. \<exists>(o_id, u_id, _) \<in> set (pg_org_members db). o_id = demoOrgID \<and> u_id = demoUserID)
       (\<lambda>db. demoOrgID \<notin> org_ID ` set (pg_organizations db) \<or> demoUserID \<notin> user_ID ` set (pg_users db))
       (\<lambda>db. db\<lparr>pg_org_members := pg_org_members db @ [(demoOrgID, demoUserID, ''owner'')]\<rparr>)"

definition insert_demo_project :: "gotime \<Rightarrow> demoProject \<Rightarrow> pgdb \<Rightarrow> pgdb \<times> unit result" where
  "insert_demo_project now p =
     insert_unless (\<lambda>db. (demoOrgID, dp_Slug p) \<in> (\<lambda>p. (prj_OrgID p, prj_Slug p)) ` set (pg_projects db))
       (\<lambda>db. dp_ID p \<in> prj_ID ` set (pg_projects db) \<or> demoOrgID \<notin> org_ID ` set (pg_organizations db))
       (\<lambda>db. db\<lparr>pg_projects := pg_projects db @
          [\<lparr>prj_ID = dp_ID p, prj_OrgID = demoOrgID, prj_Name = dp_Name p, prj_Slug = dp_Slug p,
            prj_Description = [], prj_PIIEnabled = True, prj_IsDefault = dp_IsDefault p,
            prj_CreatedAt = now, prj_UpdatedAt = now, prj_ArchivedAt = None\<rparr>]\<rparr>)"

definition insert_demo_key :: "gotime \<Rightarrow> pgdb \<Rightarrow> pgdb \<times> unit result" where
  "insert_demo_key now =
     (let keyHash = EncodeToString (sha256 (bytes_of demoAPIKey)) in
      insert_unless (\<lambda>db. keyHash \<in> key_KeyHash ` set (pg_api_keys db))
        (\<lambda>db. demoKeyID \<in> key_ID ` set (pg_api_keys db) \<or> demoOrgID \<notin> org_ID ` set (pg_organizations db))
        (\<lambda>db. db\<lparr>pg_api_keys := pg_api_keys db @
           [\<lparr>key_ID = demoKeyID, key_OrgID = demoOrgID, key_ProjectID = None,
             key_KeyPrefix = demoKeyPrefix, key_KeyHash = keyHash, key_Name = ''Seed Key'',
             key_Scopes = [''read'', ''write''], key_LastUsedAt = None, key_CreatedAt = now,
             key_RevokedAt = None, key_Tier = []\<rparr>]\<rparr>))"

fun insert_demo_projects :: "gotime \<Rightarrow> demoProject list \<Rightarrow> pgdb \<Rightarrow> pgdb \<times> (string + unit)" where
  "insert_demo_projects now [] db = (db, Inr ())"
| "insert_demo_projects now (p # ps) db =
     (case insert_demo_project now p db of
        (db, Inl _) \<Rightarrow> (db, Inl (''create project '' @ dp_Slug p))
      | (db, Inr _) \<Rightarrow> insert_demo_projects now ps db)"

definition bootstrapPostgres :: "gotime \<Rightarrow> string \<Rightarrow> pgdb \<Rightarrow> pgdb \<times> (string + string)" where
  "bootstrapPostgres now orgSlug db =
     (case insert_demo_org now orgSlug db of
        (db, Inl _) \<Rightarrow> (db, Inl ''create org'')
      | (db, Inr _) \<Rightarrow>
     (case insert_demo_user now db of
        (db, Inl _) \<Rightarrow> (db, Inl ''create user'')
      | (db, Inr _) \<Rightarrow>
     (case insert_demo_member db of
        (db, Inl _) \<Rightarrow> (db, Inl ''create org member'')
      | (db, Inr _) \<Rightarrow>
     (case insert_demo_projects now demoProjects db of
        (db, Inl e) \<Rightarrow> (db, Inl e)
      | (db, Inr _) \<Rightarrow>
     (case insert_demo_key now db of
        (db, Inl _) \<Rightarrow> (db, Inl ''create api key'')
      | (db, Inr _) \<Rightarrow> (db, Inr demoOrgID))))))"

section \<open>Model prices\<close>

definition insert_price :: "gotime \<Rightarrow> PriceEntry \<Rightarrow> pgdb \<Rightarrow> pgdb \<times> unit result" where
  "insert_price now p =
     pg_exec (\<lambda>uuid db.
       if \<exists>x \<in> set (pg_model_prices db). mp_Provider x = pe_Provider p
            \<and> mp_ModelName x = pe_ModelName p \<and> t_ns (mp_EffectiveFrom x) = t_ns (pe_EffectiveFrom p)
       then (db, Inr ())
       else (db\<lparr>pg_model_prices := pg_model_prices db @
               [\<lparr>mp_ID = uuid, mp_Provider = pe_Provider p, mp_ModelName = pe_ModelName p,
                 mp_InputPricePerMillion = pe_InputPricePerMillion p,
                 mp_OutputPricePerMillion = pe_OutputPricePerMillion p,
                 mp_EffectiveFrom = pe_EffectiveFrom p, mp_CreatedAt = now\<rparr>]\<rparr>, Inr ()))"

fun seed_price_loop :: "gotime \<Rightarrow> PriceEntry list \<Rightarrow> pgdb \<Rightarrow> pgdb \<times> unit result" where
  "seed_price_loop now [] db = (db, Inr ())"
| "seed_price_loop now (p # ps) db =
     (case insert_price now p db of
        (db, Inl e) \<Rightarrow> (db, Inl e)
      | (db, Inr _) \<Rightarrow> seed_price_loop now ps db)"

definition seedModelPrices :: "gotime \<Rightarrow> pgdb \<Rightarrow> pgdb \<times> unit result" where
  "seedModelPrices now = seed_price_loop now SeedModelPrices"

definition entry_of :: "ModelPrice \<Rightarrow> PriceEntry" where
  "entry_of p =
     \<lparr>pe_Provider = mp_Provider p, pe_ModelName = mp_ModelName p,
      pe_InputPricePerMillion = mp_InputPricePerMillion p,
      pe_OutputPricePerMillion = mp_OutputPricePerMillion p, pe_EffectiveFrom = mp_EffectiveFrom p\<rparr>"

text \<open>\<open>loadPrices\<close> calls itself after it has inserted prices; \<^const>\<open>None\<close> would mean that it never ends.\<close>

partial_function (option) loadPrices :: "gotime \<Rightarrow> pgdb \<Rightarrow> (pgdb \<times> (string + PriceTable)) option" where
  "loadPrices now db =
     (case pg_query (\<lambda>db. map entry_of (sort_key price_order (pg_model_prices db))) db of
        (db, Inl _) \<Rightarrow> Some (db, Inl ''query prices'')
      | (db, Inr entries) \<Rightarrow>
          if entries = []
          then (case seedModelPrices now db of
                  (db, Inl _) \<Rightarrow> Some (db, Inl ''seed prices'')
                | (db, Inr _) \<Rightarrow> loadPrices now db)
          else let pt = BuildPriceTable entries in
            if CheckMissingModels pt \<noteq> []
            then (case seedModelPrices now db of
                    (db, Inl _) \<Rightarrow> Some (db, Inl ''seed missing prices'')
                  | (db, Inr _) \<Rightarrow> loadPrices now db)
            else Some (db, Inr pt))"

section \<open>The prices are complete when they are loaded\<close>

definition priced :: "pgdb \<Rightarrow> string \<Rightarrow> string \<Rightarrow> bool" where
  "priced db provider model \<longleftrightarrow>
     (\<exists>x \<in> set (pg_model_prices db). mp_Provider x = provider \<and> mp_ModelName x = model)"

lemma insert_price_priced:
  "insert_price now p db = (db', Inr u) \<Longrightarrow>
     set (pg_model_prices db) \<subseteq> set (pg_model_prices db') \<and> priced db' (pe_Provider p) (pe_ModelName p)"
  by (auto simp: insert_price_def pg_exec_def Let_def priced_def split: if_splits)

lemma seed_price_loop_priced:
  "seed_price_loop now ps db = (db', Inr ()) \<Longrightarrow>
     set (pg_model_prices db) \<subseteq> set (pg_model_prices db')
     \<and> (\<forall>p \<in> set ps. priced db' (pe_Provider p) (pe_ModelName p))"
proof (induction ps arbitrary: db)
  case (Cons p ps)
  obtain db1 r where i: "insert_price now p db = (db1, r)" by fastforce
  with Cons.prems obtain u where r: "r = Inr u" and l: "seed_price_loop now ps db1 = (db', Inr ())"
    by (cases r) auto
  show ?case using insert_price_priced [OF i [unfolded r]] Cons.IH [OF l] by (auto simp: priced_def)
qed simp

lemma table_loop_get:
  "table_loop es pt key =
     (let new = filter (\<lambda>e. dg_priceKey (pe_Provider e) (pe_ModelName e) = key) es
      in if new = [] then pt key else Some ((case pt key of None \<Rightarrow> [] | Some l \<Rightarrow> l) @ new))"
  by (induction es arbitrary: pt) (auto simp: Let_def split: option.splits)

lemma BuildPriceTable_get:
  "BuildPriceTable es key =
     (let new = filter (\<lambda>e. dg_priceKey (pe_Provider e) (pe_ModelName e) = key) es
      in if new = [] then None else Some new)"
  by (simp add: BuildPriceTable_def table_loop_get Let_def)

lemma CheckMissingModels_Nil:
  assumes "\<forall>p \<in> set SeedModelPrices. \<exists>e \<in> set es. pe_Provider e = pe_Provider p \<and> pe_ModelName e = pe_ModelName p"
  shows "CheckMissingModels (BuildPriceTable es) = []"
proof -
  have "\<forall>m \<in> set DefaultModelDistributions. \<exists>p \<in> set SeedModelPrices.
      pe_Provider p = md_Provider m \<and> pe_ModelName p = md_Model m"
    by (simp add: DefaultModelDistributions_def SeedModelPrices_def price_entry_def)
  with assms have "\<forall>m \<in> set DefaultModelDistributions. \<exists>e \<in> set es.
      pe_Provider e = md_Provider m \<and> pe_ModelName e = md_Model m" by metis
  then show ?thesis
    by (force simp: CheckMissingModels_def BuildPriceTable_get Let_def filter_empty_conv dg_priceKey_def
        split: if_splits)
qed

lemma loaded_complete:
  assumes "\<forall>p \<in> set SeedModelPrices. priced db (pe_Provider p) (pe_ModelName p)"
  shows "CheckMissingModels (BuildPriceTable (map entry_of (sort_key price_order (pg_model_prices db)))) = []"
    "map entry_of (sort_key price_order (pg_model_prices db)) \<noteq> []"
proof -
  have *: "\<exists>e \<in> set (map entry_of (sort_key price_order (pg_model_prices db))).
      pe_Provider e = pe_Provider p \<and> pe_ModelName e = pe_ModelName p" if "p \<in> set SeedModelPrices" for p
  proof -
    from assms that obtain x where "x \<in> set (pg_model_prices db)" "mp_Provider x = pe_Provider p"
      "mp_ModelName x = pe_ModelName p" by (auto simp: priced_def)
    then show ?thesis by (auto simp: entry_of_def intro!: bexI [of _ x])
  qed
  then show "CheckMissingModels (BuildPriceTable (map entry_of (sort_key price_order (pg_model_prices db)))) = []"
    by (blast intro: CheckMissingModels_Nil)
  have "hd SeedModelPrices \<in> set SeedModelPrices" by (simp add: SeedModelPrices_def)
  from * [OF this] show "map entry_of (sort_key price_order (pg_model_prices db)) \<noteq> []"
    by (metis empty_iff list.set(1))
qed

definition load_ends :: "(pgdb \<times> (string + PriceTable)) option \<Rightarrow> bool" where
  "load_ends res \<longleftrightarrow>
     (\<exists>db' r. res = Some (db', r) \<and> (case r of Inl _ \<Rightarrow> True | Inr pt \<Rightarrow> CheckMissingModels pt = []))"

lemma pg_query_cases:
  "pg_query q db = (db\<lparr>pg_stmts := pg_stmts db + 1\<rparr>,
     if pg_fails db (pg_stmts db) then Inl PostgresError else Inr (q (db\<lparr>pg_stmts := pg_stmts db + 1\<rparr>)))"
  by (simp add: pg_query_def pg_exec_def Let_def)

lemma load_complete:
  assumes "\<forall>p \<in> set SeedModelPrices. priced db (pe_Provider p) (pe_ModelName p)"
  shows "load_ends (loadPrices now db)"
  using loaded_complete [OF assms]
  by (subst loadPrices.simps) (simp add: pg_query_cases load_ends_def Let_def)

text \<open>
  C24: \<open>loadPrices\<close> ends, whatever statements fail and whatever prices the table has: after at most one
  round of insertions its recursion stops, with an error or with a table that has a price for every
  model of the generator.
\<close>

theorem loadPrices_ends:
  "\<exists>db' r. loadPrices now db = Some (db', r)
     \<and> (case r of Inl _ \<Rightarrow> True | Inr pt \<Rightarrow> CheckMissingModels pt = [])"
proof -
  let ?db = "db\<lparr>pg_stmts := pg_stmts db + 1\<rparr>"
  have again: "load_ends (loadPrices now db')" if "seedModelPrices now ?db = (db', Inr ())" for db'
    using seed_price_loop_priced [OF that [unfolded seedModelPrices_def]] by (blast intro: load_complete)
  obtain db' r where s: "seedModelPrices now ?db = (db', r)" by fastforce
  have "load_ends (loadPrices now db)"
    using again s
    by (subst loadPrices.simps) (cases r; auto simp: pg_query_cases load_ends_def Let_def)
  then show ?thesis by (simp add: load_ends_def)
qed

section \<open>The seeded costs are those of the worker\<close>

lemma dg_priceKey_inject:
  "CHR ''/'' \<notin> set p \<Longrightarrow> CHR ''/'' \<notin> set q \<Longrightarrow> dg_priceKey p m = dg_priceKey q n \<longleftrightarrow> p = q \<and> m = n"
  by (auto simp: dg_priceKey_def dest: append_sep_inject)

lemma entry_loop_map: "entry_loop ts (map entry_of ps) = map_option entry_of (match_loop ts ps)"
  by (induction ps) (simp_all add: entry_of_def)

text \<open>
  C23: The command that seeds events and the worker charge alike: over the same table of prices, for a
  provider without a slash in the table and in the event, the cost that the generator gives an event
  is the cost that the worker computes for it.
\<close>

theorem seed_cost_is_worker_cost:
  assumes "CHR ''/'' \<notin> set (ev_Provider e)" "\<forall>p \<in> set ps. CHR ''/'' \<notin> set (mp_Provider p)"
  shows "dg_calculateCost (ev_PromptTokens e) (ev_CompletionTokens e)
      (LookupPrice (BuildPriceTable (map entry_of (sort_key price_order ps)))
         (ev_Provider e) (ev_Model e) (ev_Timestamp e))
    = snd (CalculateCost (fst (refresh (Inr (sort_key price_order ps)) NewPriceCache)) e)"
proof -
  let ?key = "(ev_Provider e, ev_Model e)"
  let ?ps = "filter (\<lambda>p. (mp_Provider p, mp_ModelName p) = ?key) (sort_key price_order ps)"
  have f: "filter (\<lambda>x. dg_priceKey (pe_Provider x) (pe_ModelName x) = dg_priceKey (ev_Provider e) (ev_Model e))
      (map entry_of (sort_key price_order ps)) = map entry_of ?ps"
    unfolding filter_map
    by (rule arg_cong [where f = "map entry_of"], rule filter_cong)
      (use assms in \<open>auto simp: entry_of_def dg_priceKey_inject\<close>)
  have w: "pc_prices (fst (refresh (Inr (sort_key price_order ps)) NewPriceCache)) ?key
      = (if ?ps = [] then None else Some ?ps)"
    by (simp add: refresh_def refresh_loop_get Let_def)
  have d: "BuildPriceTable (map entry_of (sort_key price_order ps)) (dg_priceKey (ev_Provider e) (ev_Model e))
      = (if ?ps = [] then None else Some (map entry_of ?ps))"
    by (simp add: BuildPriceTable_get f Let_def)
  show ?thesis
    unfolding LookupPrice_def CalculateCost_def d w
    by (cases "match_loop (ev_Timestamp e) ?ps")
      (auto simp: entry_loop_map dg_calculateCost_def entry_of_def Let_def)
qed

text \<open>The event of theory \<open>Queue\<close> at the price of theory \<open>Worker_Cost\<close>.\<close>

theorem seed_cost_is_worker_cost_witness:
  "dg_calculateCost (ev_PromptTokens sample_llm_event) (ev_CompletionTokens sample_llm_event)
      (LookupPrice (BuildPriceTable (map entry_of (sort_key price_order [sample_price])))
         (ev_Provider sample_llm_event) (ev_Model sample_llm_event) (ev_Timestamp sample_llm_event))
    = snd (CalculateCost (fst (refresh (Inr (sort_key price_order [sample_price])) NewPriceCache))
        sample_llm_event)"
  by (rule seed_cost_is_worker_cost) (simp_all add: sample_llm_event_def sample_price_def)

section \<open>Seeding again\<close>

text \<open>What the statements of \<open>bootstrapPostgres\<close> would conflict with.\<close>

definition demo_present :: "string \<Rightarrow> pgdb \<Rightarrow> bool" where
  "demo_present orgSlug db \<longleftrightarrow>
     orgSlug \<in> org_Slug ` set (pg_organizations db)
     \<and> ''admin@localhost'' \<in> user_Email ` set (pg_users db)
     \<and> (\<exists>(o_id, u_id, _) \<in> set (pg_org_members db). o_id = demoOrgID \<and> u_id = demoUserID)
     \<and> (\<forall>p \<in> set demoProjects. (demoOrgID, dp_Slug p) \<in> (\<lambda>p. (prj_OrgID p, prj_Slug p)) ` set (pg_projects db))
     \<and> HashKey demoAPIKey \<in> key_KeyHash ` set (pg_api_keys db)"

lemma HashKey_demo: "EncodeToString (sha256 (bytes_of demoAPIKey)) = HashKey demoAPIKey"
  by (simp add: HashKey_def)

lemma insert_unless_conflict:
  assumes "conflict (db\<lparr>pg_stmts := pg_stmts db + 1\<rparr>)" "\<forall>n. \<not> pg_fails db n"
  shows "insert_unless conflict violates ins db = (db\<lparr>pg_stmts := pg_stmts db + 1\<rparr>, Inr ())"
  using assms by (simp add: insert_unless_def pg_exec_up)

lemma insert_unless_inserts:
  assumes "insert_unless conflict violates ins db = (db', Inr u)" "\<And>db. conflict (ins db)"
  shows "conflict db'"
  using assms by (auto simp: insert_unless_def pg_exec_def Let_def split: if_splits)

lemma insert_unless_keeps:
  assumes "P db" "\<And>db n. P db \<Longrightarrow> P (db\<lparr>pg_stmts := n\<rparr>)" "\<And>db. P db \<Longrightarrow> P (ins db)"
  shows "P (fst (insert_unless conflict violates ins db))"
  using assms by (simp add: insert_unless_def pg_exec_def Let_def)

definition tables_le :: "pgdb \<Rightarrow> pgdb \<Rightarrow> bool" where
  "tables_le db db' \<longleftrightarrow>
     set (pg_organizations db) \<subseteq> set (pg_organizations db') \<and> set (pg_users db) \<subseteq> set (pg_users db')
     \<and> set (pg_org_members db) \<subseteq> set (pg_org_members db') \<and> set (pg_projects db) \<subseteq> set (pg_projects db')
     \<and> set (pg_api_keys db) \<subseteq> set (pg_api_keys db')"

lemma tables_le_trans: "tables_le a b \<Longrightarrow> tables_le b c \<Longrightarrow> tables_le a c"
  by (auto simp: tables_le_def)

lemma demo_inserts_le:
  "tables_le db (fst (insert_demo_org now slug db))" "tables_le db (fst (insert_demo_user now db))"
  "tables_le db (fst (insert_demo_member db))" "tables_le db (fst (insert_demo_project now p db))"
  "tables_le db (fst (insert_demo_key now db))"
  unfolding insert_demo_org_def insert_demo_user_def insert_demo_member_def insert_demo_project_def
    insert_demo_key_def Let_def
  by (rule insert_unless_keeps; auto simp: tables_le_def)+

lemma insert_demo_projects_le:
  "insert_demo_projects now ps db = (db', r) \<Longrightarrow> tables_le db db'"
proof (induction ps arbitrary: db)
  case (Cons p ps)
  obtain db1 r1 where i: "insert_demo_project now p db = (db1, r1)" by fastforce
  then have "tables_le db db1" using demo_inserts_le(4) [of db now p] by simp
  moreover have "tables_le db1 db'" using Cons i by (cases r1) (auto simp: tables_le_def)
  ultimately show ?case by (rule tables_le_trans)
qed (simp add: tables_le_def)

definition has_project :: "demoProject \<Rightarrow> pgdb \<Rightarrow> bool" where
  "has_project p db \<longleftrightarrow> (demoOrgID, dp_Slug p) \<in> (\<lambda>p. (prj_OrgID p, prj_Slug p)) ` set (pg_projects db)"

lemma has_project_le: "has_project p db \<Longrightarrow> tables_le db db' \<Longrightarrow> has_project p db'"
  by (auto simp: has_project_def tables_le_def)

lemma insert_demo_projects_present:
  "insert_demo_projects now ps db = (db', Inr u) \<Longrightarrow> \<forall>p \<in> set ps. has_project p db'"
proof (induction ps arbitrary: db)
  case (Cons p ps)
  obtain db1 r1 where i: "insert_demo_project now p db = (db1, r1)" by fastforce
  with Cons.prems obtain v where r1: "r1 = Inr v" and l: "insert_demo_projects now ps db1 = (db', Inr u)"
    by (cases r1) auto
  from i have "has_project p db1"
    unfolding r1 insert_demo_project_def has_project_def by (rule insert_unless_inserts) simp
  from has_project_le [OF this insert_demo_projects_le [OF l]] Cons.IH [OF l] show ?case by simp
qed simp

lemma demo_statements:
  "insert_demo_org now slug db = (db', Inr u) \<Longrightarrow> slug \<in> org_Slug ` set (pg_organizations db')"
  "insert_demo_user now db = (db', Inr u) \<Longrightarrow> ''admin@localhost'' \<in> user_Email ` set (pg_users db')"
  "insert_demo_member db = (db', Inr u) \<Longrightarrow>
     \<exists>(o_id, u_id, _) \<in> set (pg_org_members db'). o_id = demoOrgID \<and> u_id = demoUserID"
  "insert_demo_key now db = (db', Inr u) \<Longrightarrow> HashKey demoAPIKey \<in> key_KeyHash ` set (pg_api_keys db')"
  unfolding insert_demo_org_def insert_demo_user_def insert_demo_member_def insert_demo_key_def Let_def
    HashKey_demo
  by (erule insert_unless_inserts, simp)+

text \<open>The six statements of a bootstrap that succeeds.\<close>

lemma bootstrapPostgres_Inr:
  assumes "bootstrapPostgres now slug db = (db5, Inr org)"
  obtains db1 db2 db3 db4 where "org = demoOrgID"
    "insert_demo_org now slug db = (db1, Inr ())" "insert_demo_user now db1 = (db2, Inr ())"
    "insert_demo_member db2 = (db3, Inr ())" "insert_demo_projects now demoProjects db3 = (db4, Inr ())"
    "insert_demo_key now db4 = (db5, Inr ())"
  using assms by (auto simp: bootstrapPostgres_def split: prod.splits sum.splits)

lemma bootstrapPostgres_present:
  assumes "bootstrapPostgres now slug db = (db', Inr org)"
  shows "demo_present slug db'"
proof -
  obtain db1 db2 db3 db4 where s: "insert_demo_org now slug db = (db1, Inr ())"
    "insert_demo_user now db1 = (db2, Inr ())" "insert_demo_member db2 = (db3, Inr ())"
    "insert_demo_projects now demoProjects db3 = (db4, Inr ())" "insert_demo_key now db4 = (db', Inr ())"
    using assms by (rule bootstrapPostgres_Inr)
  have le: "tables_le db1 db2" "tables_le db2 db3" "tables_le db3 db4" "tables_le db4 db'"
    using demo_inserts_le(2) [of db1 now] demo_inserts_le(3) [of db2] demo_inserts_le(5) [of db4 now]
      insert_demo_projects_le [OF s(4)] s by simp_all
  note le3 = tables_le_trans [OF le(3,4)]
  note le2 = tables_le_trans [OF le(2) le3]
  note le1 = tables_le_trans [OF le(1) le2]
  show ?thesis
    unfolding demo_present_def has_project_def [symmetric]
  proof (intro conjI ballI)
    show "slug \<in> org_Slug ` set (pg_organizations db')"
      using demo_statements(1) [OF s(1)] le1 by (auto simp: tables_le_def)
    show "''admin@localhost'' \<in> user_Email ` set (pg_users db')"
      using demo_statements(2) [OF s(2)] le2 unfolding tables_le_def by blast
    show "\<exists>(o_id, u_id, _) \<in> set (pg_org_members db'). o_id = demoOrgID \<and> u_id = demoUserID"
      using demo_statements(3) [OF s(3)] le3 unfolding tables_le_def by blast
    show "HashKey demoAPIKey \<in> key_KeyHash ` set (pg_api_keys db')" by (rule demo_statements(4) [OF s(5)])
    fix p
    assume "p \<in> set demoProjects"
    then show "has_project p db'"
      using insert_demo_projects_present [OF s(4)] has_project_le [OF _ le(4)] by blast
  qed
qed

lemma insert_demo_projects_again:
  "\<forall>p \<in> set ps. has_project p db \<Longrightarrow> \<forall>n. \<not> pg_fails db n \<Longrightarrow>
     insert_demo_projects now ps db = (db\<lparr>pg_stmts := pg_stmts db + length ps\<rparr>, Inr ())"
proof (induction ps arbitrary: db)
  case (Cons p ps)
  then have "insert_demo_project now p db = (db\<lparr>pg_stmts := pg_stmts db + 1\<rparr>, Inr ())"
    unfolding insert_demo_project_def by (intro insert_unless_conflict) (simp_all add: has_project_def)
  with Cons show ?case by (simp add: has_project_def)
qed simp

text \<open>
  Seeding is idempotent on PostgreSQL: after a bootstrap that has succeeded, on whatever database
  that works, another one with the same slug also succeeds, and changes no table.
\<close>

lemma bootstrapPostgres_idempotent:
  assumes "bootstrapPostgres now slug db = (db', Inr org)" "\<forall>n. \<not> pg_fails db' n"
  shows "bootstrapPostgres now2 slug db' = (db'\<lparr>pg_stmts := pg_stmts db' + 7\<rparr>, Inr demoOrgID)"
proof -
  let ?n = "pg_stmts db'"
  from bootstrapPostgres_present [OF assms(1)] have p: "demo_present slug db'" .
  have 1: "insert_demo_org now2 slug db' = (db'\<lparr>pg_stmts := ?n + 1\<rparr>, Inr ())"
    unfolding insert_demo_org_def
    by (rule insert_unless_conflict) (use p assms(2) in \<open>simp_all add: demo_present_def\<close>)
  have 2: "insert_demo_user now2 (db'\<lparr>pg_stmts := ?n + 1\<rparr>) = (db'\<lparr>pg_stmts := ?n + 2\<rparr>, Inr ())"
    unfolding insert_demo_user_def
    by (subst insert_unless_conflict) (use p assms(2) in \<open>simp_all add: demo_present_def\<close>)
  have 3: "insert_demo_member (db'\<lparr>pg_stmts := ?n + 2\<rparr>) = (db'\<lparr>pg_stmts := ?n + 3\<rparr>, Inr ())"
    unfolding insert_demo_member_def
    by (subst insert_unless_conflict) (use p assms(2) in \<open>simp_all add: demo_present_def\<close>)
  have "\<forall>p \<in> set demoProjects. has_project p (db'\<lparr>pg_stmts := ?n + 3\<rparr>)"
    using p by (simp add: demo_present_def has_project_def)
  from insert_demo_projects_again [OF this] assms(2)
  have 4: "insert_demo_projects now2 demoProjects (db'\<lparr>pg_stmts := ?n + 3\<rparr>)
      = (db'\<lparr>pg_stmts := ?n + 6\<rparr>, Inr ())" by (simp add: demoProjects_def)
  have 5: "insert_demo_key now2 (db'\<lparr>pg_stmts := ?n + 6\<rparr>) = (db'\<lparr>pg_stmts := ?n + 7\<rparr>, Inr ())"
    unfolding insert_demo_key_def Let_def HashKey_demo
    by (subst insert_unless_conflict) (use p assms(2) in \<open>simp_all add: demo_present_def\<close>)
  show ?thesis unfolding bootstrapPostgres_def by (simp only: 1 2 3 4 5 prod.case sum.case)
qed

text \<open>Seeding an empty database.\<close>

lemmas bootstrapPostgres_defs = bootstrapPostgres_def insert_demo_org_def insert_demo_user_def
  insert_demo_member_def insert_demo_project_def insert_demo_key_def insert_unless_def demoProjects_def

lemma seeded_empty:
  assumes "bootstrapPostgres now slug (pg_empty uuids (\<lambda>_. False) prices) = (db, r)"
  shows "r = Inr demoOrgID" "\<forall>n. \<not> pg_fails db n" "pg_wf db" "booted db demoUserID demoOrgID"
    "\<exists>k. api_key_row db (HashKey demoAPIKey) = Some k \<and> key_OrgID k = demoOrgID \<and> key_Tier k = TierPro
       \<and> key_RevokedAt k = None \<and> key_Scopes k = [''read'', ''write'']"
proof -
  note d = bootstrapPostgres_defs pg_exec_def pg_empty_def Let_def HashKey_demo
  show "r = Inr demoOrgID" "\<forall>n. \<not> pg_fails db n" using assms by (auto simp: d)
  show "pg_wf db" using assms by (auto simp: d pg_wf_def)
  show "booted db demoUserID demoOrgID" using assms by (auto simp: d booted_def first_member_def adminEmail_def)
  show "\<exists>k. api_key_row db (HashKey demoAPIKey) = Some k \<and> key_OrgID k = demoOrgID \<and> key_Tier k = TierPro
       \<and> key_RevokedAt k = None \<and> key_Scopes k = [''read'', ''write'']"
    using assms by (auto simp: d api_key_row_def)
qed

lemma demo_key_format: "ValidateFormat demoAPIKey = None"
  by code_simp

text \<open>
  C32: Seeding an empty database prepares a working installation: the dashboard then starts with the
  demo user and organisation as its default, and, while the cache has no entry for it, the published
  demo key is accepted by the ingestion API for the demo organisation on its tier.
\<close>

theorem seeded_demo_works:
  assumes "be_pg st = pg_empty uuids (\<lambda>_. False) prices"
    and "bootstrapPostgres now slug (be_pg st) = (db, r)"
    and "be_entry (st\<lparr>be_pg := db\<rparr>) now2 (HashKey demoAPIKey) = None"
    and "rq_Header req ''Authorization'' = ''Bearer '' @ demoAPIKey"
  shows "r = Inr demoOrgID
    \<and> snd (bootstrapSelfHosted now2 rnd (st\<lparr>be_pg := db\<rparr>))
        = Inr (demoUserID, demoOrgID, OrgIDToUint64 demoOrgID)
    \<and> (\<exists>st2. AuthMiddleware get_key set_key key_by_hash now2 next_h (st\<lparr>be_pg := db\<rparr>) req w
        = next_h st2 (req\<lparr>rq_Ctx := (rq_Ctx req)\<lparr>ctx_OrgID := Some demoOrgID,
                                              ctx_OrgTier := Some TierPro\<rparr>\<rparr>) w)"
proof -
  let ?st = "st\<lparr>be_pg := db\<rparr>"
  note s = seeded_empty [OF assms(2) [unfolded assms(1)]]
  from s(5) obtain k where k: "api_key_row db (HashKey demoAPIKey) = Some k" "key_OrgID k = demoOrgID"
    "key_Tier k = TierPro" "\<not> IsRevoked k" "HasScope k ''write''"
    by (auto simp: IsRevoked_def HasScope_iff)
  from auth_lookup_database [OF assms(3)] s(2) obtain st2 where
    "auth_lookup get_key set_key key_by_hash now2 (HashKey demoAPIKey) ?st = (st2, Inr (Some k))"
    by (auto simp: k(1))
  from AuthMiddleware_runs [OF assms(4) demo_key_format this k(4,5)] have
    "AuthMiddleware get_key set_key key_by_hash now2 next_h ?st req w
      = next_h st2 (req\<lparr>rq_Ctx := (rq_Ctx req)\<lparr>ctx_OrgID := Some demoOrgID, ctx_OrgTier := Some TierPro\<rparr>\<rparr>) w"
    by (simp add: k(2,3))
  moreover have "snd (bootstrapSelfHosted now2 rnd ?st) = Inr (demoUserID, demoOrgID, OrgIDToUint64 demoOrgID)"
    by (rule bootstrap_booted) (simp_all add: s(2,3,4))
  ultimately show ?thesis using s(1) by blast
qed

definition demo_request :: request where
  "demo_request = sample_request\<lparr>rq_Header := (\<lambda>h. if h = ''Authorization'' then ''Bearer '' @ demoAPIKey else [])\<rparr>"

theorem seeded_demo_works_witness:
  "\<exists>db. bootstrapPostgres zero_time ''demo'' (be_pg new_install) = (db, Inr demoOrgID)
     \<and> snd (bootstrapSelfHosted zero_time None (new_install\<lparr>be_pg := db\<rparr>))
        = Inr (demoUserID, demoOrgID, OrgIDToUint64 demoOrgID)"
proof -
  obtain db r where b: "bootstrapPostgres zero_time ''demo'' (be_pg new_install) = (db, r)" by fastforce
  have "be_pg new_install = pg_empty (\<lambda>n. replicate n (CHR ''u'')) (\<lambda>_. False) []"
    by (simp add: new_install_def)
  moreover have "be_entry (new_install\<lparr>be_pg := db\<rparr>) zero_time (HashKey demoAPIKey) = None"
    by (simp add: new_install_def be_entry_def key_entry_def rd_live_def)
  moreover have "rq_Header demo_request ''Authorization'' = ''Bearer '' @ demoAPIKey" by (simp add: demo_request_def)
  ultimately show ?thesis
    using seeded_demo_works [OF _ b, where next_h = "\<lambda>st _ w. (st, w)" and rnd = None] b by blast
qed

section \<open>Seeding after the dashboard has started\<close>

lemma pg_step_uuid:
  "pg_step db db' \<Longrightarrow> pg_uuid db' = pg_uuid db
     \<and> (user_ID ` set (pg_users db) \<union> org_ID ` set (pg_organizations db) \<subseteq> range (pg_uuid db) \<longrightarrow>
        user_ID ` set (pg_users db') \<union> org_ID ` set (pg_organizations db') \<subseteq> range (pg_uuid db))"
  by (induction rule: pg_step.induct)
    (auto simp: pg_op_defs pg_query_def pg_exec_def Let_def update_where_def split: option.split sum.split,
      metis image_subset_iff)

lemma pg_steps_uuid:
  assumes "pg_step\<^sup>*\<^sup>* (pg_empty uuids fails prices) db"
  shows "pg_uuid db = uuids \<and> user_ID ` set (pg_users db) \<union> org_ID ` set (pg_organizations db) \<subseteq> range uuids"
  using assms
proof (induction rule: rtranclp_induct)
  case base
  show ?case by (simp add: pg_empty_def)
next
  case (step db db')
  then show ?case using pg_step_uuid by metis
qed

lemma seed_fails_at_member:
  assumes up: "\<forall>n. \<not> pg_fails db n" and wf: "pg_wf db"
    and ids: "demoUserID \<notin> user_ID ` set (pg_users db)" "demoOrgID \<notin> org_ID ` set (pg_organizations db)"
    and admin: "''admin@localhost'' \<in> user_Email ` set (pg_users db)"
  shows "snd (bootstrapPostgres now slug db) = Inl ''create org member''"
proof -
  obtain db1 where 1: "insert_demo_org now slug db = (db1, Inr ())" "pg_users db1 = pg_users db"
    "pg_org_members db1 = pg_org_members db" "pg_fails db1 = pg_fails db"
    using up ids(2)
    by (cases "slug \<in> org_Slug ` set (pg_organizations db)")
      (simp_all add: insert_demo_org_def insert_unless_def pg_exec_up)
  have 2: "insert_demo_user now db1 = (db1\<lparr>pg_stmts := pg_stmts db1 + 1\<rparr>, Inr ())"
    unfolding insert_demo_user_def
    by (rule insert_unless_conflict) (use up admin in \<open>simp_all add: 1\<close>)
  let ?db2 = "db1\<lparr>pg_stmts := pg_stmts db1 + 1\<rparr>"
  have "(\<lambda>(_, u_id, _). u_id) ` set (pg_org_members db) \<subseteq> user_ID ` set (pg_users db)"
    using wf by (simp add: pg_wf_def)
  with ids(1) have "\<not> (\<exists>(o_id, u_id, _) \<in> set (pg_org_members db). o_id = demoOrgID \<and> u_id = demoUserID)"
    by force
  then have "snd (insert_demo_member ?db2) = Inl PostgresError"
    using up ids(1) by (simp add: insert_demo_member_def insert_unless_def pg_exec_up 1)
  then obtain db3 where 3: "insert_demo_member ?db2 = (db3, Inl PostgresError)"
    by (metis prod.collapse)
  show ?thesis unfolding bootstrapPostgres_def by (simp only: 1(1) 2 3 prod.case sum.case snd_conv)
qed

text \<open>
  The two ways of preparing an installation do not commute: once the dashboard has made its
  default organisation on an empty database, whatever store operations follow, the seed command
  fails on every run, at its membership: the default user has the address of the demo user, so the
  demo user is not created, and its membership then violates a reference.
\<close>

lemma seed_after_dashboard_fails:
  assumes reach: "pg_step\<^sup>*\<^sup>* (pg_empty uuids (\<lambda>_. False) prices) (be_pg st)"
    and empty: "pg_organizations (be_pg st) = []"
    and first: "bootstrapSelfHosted now rnd st = (st1, Inr ids)"
    and later: "pg_step\<^sup>*\<^sup>* (be_pg st1) db"
    and fresh: "demoUserID \<notin> range uuids" "demoOrgID \<notin> range uuids"
  shows "snd (bootstrapPostgres now2 slug db) = Inl ''create org member''"
proof -
  have run: "pg_step\<^sup>*\<^sup>* (be_pg st) (be_pg st1)"
    using pg_runsD [OF pg_runs_bootstrap, of st now rnd] by (simp add: first)
  from reach run later have all: "pg_step\<^sup>*\<^sup>* (pg_empty uuids (\<lambda>_. False) prices) db" by (meson rtranclp_trans)
  obtain u orgID k where ids: "ids = (u, orgID, k)" by (cases ids)
  have wf: "pg_wf (be_pg st)" by (rule pg_steps_wf [OF reach pg_empty_wf])
  have up: "\<forall>n. \<not> pg_fails (be_pg st) n" using pg_steps_fails [OF reach] by (simp add: pg_empty_def)
  let ?st0 = "st\<lparr>be_pg := (be_pg st)\<lparr>pg_stmts := pg_stmts (be_pg st) + 1\<rparr>\<rparr>"
  have "on_pg CountOrgs st = (?st0, Inr 0)"
    using up empty by (simp add: on_pg_def CountOrgs_def pg_query_def pg_exec_up)
  with first have "new_default now rnd ?st0 = (st1, Inr (u, orgID, k))"
    by (simp add: bootstrapSelfHosted_def ids)
  from new_default_boots [OF _ _ _ this] wf up empty have "booted (be_pg st1) u orgID" by simp
  then have "booted db u orgID" by (rule booted_grows [OF pg_steps_grows [OF later]])
  then have "''admin@localhost'' \<in> user_Email ` set (pg_users db)"
    unfolding booted_def adminEmail_def find_Some_iff by (metis image_eqI nth_mem)
  moreover have "\<forall>n. \<not> pg_fails db n" using pg_steps_fails [OF all] by (simp add: pg_empty_def)
  ultimately show ?thesis
    using pg_steps_uuid [OF all] fresh pg_steps_wf [OF all pg_empty_wf]
    by (intro seed_fails_at_member) auto
qed

end
