(* ===== verification/Seed_Events.thy ===== *)
theory Seed_Events
  imports Seed Click_Store
begin

text \<open>
  The command \<open>cmd/seed\<close>, its second half: inserting the generated events into ClickHouse, and
  \<open>main\<close>, from the demo organisation to the last batch. \<open>sort.Slice\<close> leaves the order of events of the
  same instant open, so the sorting function is an argument; connecting and printing are left out.
\<close>

section \<open>Rows\<close>

definition gen_to_row :: "gotime \<Rightarrow> string \<Rightarrow> GenEvent \<Rightarrow> event_row" where
  "gen_to_row now eventUUID e =
     \<lparr>cr_org_id = ge_OrgID e, cr_event_id = eventUUID, cr_project_id = ge_ProjectID e,
      cr_timestamp = DateTime64_3 (ge_Timestamp e), cr_inserted_at = DateTime64_3 now,
      cr_model = ge_Model e, cr_provider = ge_Provider e, cr_prompt_tokens = ge_PromptTokens e,
      cr_completion_tokens = ge_CompletionTokens e, cr_total_tokens = ge_TotalTokens e,
      cr_cost_usd = ge_CostUSD e, cr_latency_ms = ge_LatencyMs e, cr_status_code = ucast (ge_StatusCode e),
      cr_tags = tag_entries (ge_Tags e), cr_prompt_hash = [], cr_s3_key = [], cr_s3_status = ge_S3Status e,
      cr_schema_version = ge_SchemaVersion e\<rparr>"

fun gen_append_loop :: "(string \<Rightarrow> string option) \<Rightarrow> gotime \<Rightarrow> GenEvent list \<Rightarrow> event_row list option" where
  "gen_append_loop parse now [] = Some []"
| "gen_append_loop parse now (e # es) =
     (case parse (ge_EventID e) of
        None \<Rightarrow> None
      | Some eventUUID \<Rightarrow>
          (case gen_append_loop parse now es of
             None \<Rightarrow> None | Some rs \<Rightarrow> Some (gen_to_row now eventUUID e # rs)))"

definition insertBatch ::
    "(string \<Rightarrow> string option) \<Rightarrow> gotime \<Rightarrow> GenEvent list \<Rightarrow> clickhouse \<Rightarrow> clickhouse \<times> unit result" where
  "insertBatch parse now events st =
     (if length events = 0 then (st, Inr ())
      else (case ch_query (\<lambda>_. ()) st of
              (st, Inl e) \<Rightarrow> (st, Inl e)
            | (st, Inr _) \<Rightarrow>
                (case gen_append_loop parse now events of
                   None \<Rightarrow> (st, Inl DecodeError)
                 | Some rows \<Rightarrow> batch_Send rows st)))"

section \<open>Batches\<close>

record modelStats =
  ms_Count :: int
  ms_Cost :: f64

type_synonym stats = "string \<rightharpoonup> modelStats"

definition count_event :: "stats \<Rightarrow> GenEvent \<Rightarrow> stats" where
  "count_event stats e =
     (let s = (case stats (ge_Model e) of None \<Rightarrow> \<lparr>ms_Count = 0, ms_Cost = 0\<rparr> | Some s \<Rightarrow> s)
      in stats(ge_Model e \<mapsto> \<lparr>ms_Count = ms_Count s + 1, ms_Cost = fadd (ms_Cost s) (ge_CostUSD e)\<rparr>))"

text \<open>The command exits with a message, or panics: on a negative batch size at the slice, on 0 at the
  remainder that decides whether to report progress.\<close>

datatype seed_error = Exit string | Panic

function insert_loop ::
    "(string \<Rightarrow> string option) \<Rightarrow> (int \<Rightarrow> gotime) \<Rightarrow> int \<Rightarrow> GenEvent list \<Rightarrow> int \<Rightarrow> int \<Rightarrow> stats
     \<Rightarrow> clickhouse \<Rightarrow> clickhouse \<times> (seed_error + int \<times> stats)" where
  "insert_loop parse clock batchSize events i totalInserted stats st =
     (if int (length events) \<le> i then (st, Inr (totalInserted, stats))
      else
        let end_i = min (i + batchSize) (int (length events)) in
        if end_i < i then (st, Inl Panic)
        else
          let batch = take (nat (end_i - i)) (drop (nat i) events) in
          (case insertBatch parse (clock i) batch st of
             (st, Inl _) \<Rightarrow> (st, Inl (Exit ''failed to insert batch''))
           | (st, Inr _) \<Rightarrow>
               if batchSize * 5 = 0 then (st, Inl Panic)
               else insert_loop parse clock batchSize events (i + batchSize)
                      (totalInserted + int (length batch)) (foldl count_event stats batch) st))"
  by pat_completeness auto
termination
  by (relation "measure (\<lambda>(_, _, _, events, i, _). nat (int (length events) - i))") auto

declare insert_loop.simps [simp del]

section \<open>main\<close>

record seed_flags =
  sf_days :: int
  sf_org :: string
  sf_eventsPerDay :: int
  sf_seed :: u64
  sf_batchSize :: int
  sf_drop :: bool

definition drop_events :: "u64 \<Rightarrow> clickhouse \<Rightarrow> clickhouse \<times> unit result" where
  "drop_events orgID =
     ch_exec (\<lambda>st. (st\<lparr>ch_events := filter (\<lambda>r. cr_org_id r \<noteq> orgID) (ch_events st)\<rparr>, Inr ()))"

definition demo_distributions :: "ProjectDistribution list" where
  "demo_distributions =
     map2 (\<lambda>p d. \<lparr>pd_ProjectID = dp_Slug p, pd_Weight = pd_Weight d\<rparr>) demoProjects DefaultProjectDistributions"

definition seed_events ::
    "libm \<Rightarrow> (u8 list \<Rightarrow> string) \<Rightarrow> (u64 \<Rightarrow> u64 \<Rightarrow> rng) \<Rightarrow> (GenEvent list \<Rightarrow> GenEvent list)
     \<Rightarrow> gotime \<Rightarrow> seed_flags \<Rightarrow> u64 \<Rightarrow> PriceTable \<Rightarrow> GenEvent list" where
  "seed_events lm us pcg sort_slice now flags orgIDUint priceTable =
     (let (gen, rng) = NewGenerator pcg (sf_seed flags) orgIDUint priceTable demo_distributions;
          to = AddDays (Truncate now (24 * hour)) 1;
          from_t = AddDays to (- sf_days flags)
      in sort_slice (fst (run_state (GenerateBatch lm us gen from_t now (sf_eventsPerDay flags)) rng)))"

definition seed_main ::
    "libm \<Rightarrow> (u8 list \<Rightarrow> string) \<Rightarrow> (string \<Rightarrow> string option) \<Rightarrow> (u64 \<Rightarrow> u64 \<Rightarrow> rng)
     \<Rightarrow> (GenEvent list \<Rightarrow> GenEvent list) \<Rightarrow> (int \<Rightarrow> gotime) \<Rightarrow> gotime \<Rightarrow> seed_flags
     \<Rightarrow> pgdb \<Rightarrow> clickhouse \<Rightarrow> (pgdb \<times> clickhouse \<times> (seed_error + int \<times> stats)) option" where
  "seed_main lm us parse pcg sort_slice clock now flags pg ch =
     (case bootstrapPostgres now (sf_org flags) pg of
        (pg, Inl _) \<Rightarrow> Some (pg, ch, Inl (Exit ''failed to bootstrap PostgreSQL''))
      | (pg, Inr orgID) \<Rightarrow>
     (case loadPrices now pg of
        None \<Rightarrow> None
      | Some (pg, Inl _) \<Rightarrow> Some (pg, ch, Inl (Exit ''failed to load model prices''))
      | Some (pg, Inr priceTable) \<Rightarrow>
          if CheckMissingModels priceTable \<noteq> [] then Some (pg, ch, Inl (Exit ''missing model prices''))
          else
            (case (if sf_drop flags then drop_events (OrgIDToUint64 orgID) ch else (ch, Inr ())) of
               (ch, Inl _) \<Rightarrow> Some (pg, ch, Inl (Exit ''failed to drop events''))
             | (ch, Inr _) \<Rightarrow>
                 let events = seed_events lm us pcg sort_slice now flags (OrgIDToUint64 orgID) priceTable in
                 (case insert_loop parse clock (sf_batchSize flags) events 0 0 Map.empty ch of
                    (ch, r) \<Rightarrow> Some (pg, ch, r)))))"

section \<open>What a run inserts\<close>

definition row_of :: "(string \<Rightarrow> string option) \<Rightarrow> GenEvent \<Rightarrow> event_row \<Rightarrow> bool" where
  "row_of parse e r \<longleftrightarrow> (\<exists>now u. parse (ge_EventID e) = Some u \<and> r = gen_to_row now u e)"

lemma gen_append_loop_rows:
  "gen_append_loop parse now es = Some rs \<Longrightarrow> list_all2 (row_of parse) es rs"
  by (induction es arbitrary: rs) (auto simp: row_of_def split: option.splits)

lemma insertBatch_rows:
  assumes "insertBatch parse now es st = (st', Inr u)"
  shows "\<exists>rs. list_all2 (row_of parse) es rs \<and> ch_events st' = ch_events st @ rs
     \<and> (model_view_ok st \<longrightarrow> model_view_ok st')"
proof (cases "es = []")
  case True
  with assms show ?thesis by (auto simp: insertBatch_def)
next
  case False
  with assms obtain rs where rs: "gen_append_loop parse now es = Some rs"
    "batch_Send rs (st\<lparr>ch_stmts := ch_stmts st + 1\<rparr>) = (st', Inr u)"
    by (auto simp: insertBatch_def ch_query_def ch_exec_def Let_def split: if_splits option.splits)
  then have "st' = insert_block rs (st\<lparr>ch_stmts := ch_stmts st + 2\<rparr>)"
    by (auto simp: batch_Send_def Let_def split: if_splits)
  with gen_append_loop_rows [OF rs(1)] show ?thesis
    by (auto simp: insert_events_rows model_view_insert)
qed

lemma insert_loop_rows:
  assumes "insert_loop parse clock n events i total0 stats st = (st', Inr (total', stats'))" "0 \<le> i"
  shows "\<exists>rs. list_all2 (row_of parse) (drop (nat i) events) rs \<and> ch_events st' = ch_events st @ rs
     \<and> total' = total0 + int (length rs) \<and> (model_view_ok st \<longrightarrow> model_view_ok st')"
  using assms
proof (induction parse clock n events i total0 stats st rule: insert_loop.induct)
  case (1 parse clock n events i total0 stats st)
  have l: "insert_loop parse clock n events i total0 stats st =
     (if int (length events) \<le> i then (st, Inr (total0, stats))
      else if min (i + n) (int (length events)) < i then (st, Inl Panic)
      else case insertBatch parse (clock i)
             (take (nat (min (i + n) (int (length events)) - i)) (drop (nat i) events)) st of
             (st, Inl _) \<Rightarrow> (st, Inl (Exit ''failed to insert batch''))
           | (st, Inr _) \<Rightarrow>
               if n * 5 = 0 then (st, Inl Panic)
               else insert_loop parse clock n events (i + n)
                      (total0 + int (length (take (nat (min (i + n) (int (length events)) - i)) (drop (nat i) events))))
                      (foldl count_event stats (take (nat (min (i + n) (int (length events)) - i)) (drop (nat i) events))) st)"
    unfolding Let_def by (subst insert_loop.simps) (simp only: Let_def)
  show ?case
  proof (cases "int (length events) \<le> i")
    case True
    with 1(2) l show ?thesis by auto
  next
    case False
    let ?e = "min (i + n) (int (length events))"
    let ?batch = "take (nat (?e - i)) (drop (nat i) events)"
    note run = 1(2) [unfolded l if_not_P [OF False]]
    have ok: "\<not> ?e < i" using run by (cases "?e < i") (simp_all only: if_True prod.inject sum.distinct simp_thms)
    note run = run [unfolded if_not_P [OF ok]]
    obtain st1 r where b: "insertBatch parse (clock i) ?batch st = (st1, r)" by fastforce
    note run = run [unfolded b prod.case]
    then obtain u where r: "r = Inr u" by (cases r) (simp_all only: sum.case prod.inject sum.distinct simp_thms)
    note run = run [unfolded r sum.case]
    have n: "n * 5 \<noteq> 0" using run by (cases "n * 5 = 0") (simp_all only: if_True prod.inject sum.distinct simp_thms)
    note rec = run [unfolded if_not_P [OF n]]
    have "0 < n" using ok n False by (auto simp: min_def split: if_splits)
    from 1(1) [OF False refl ok refl b [symmetric] r n rec] 1(3) \<open>0 < n\<close> obtain rs2 where
      rs2: "list_all2 (row_of parse) (drop (nat (i + n)) events) rs2" "ch_events st' = ch_events st1 @ rs2"
      "total' = total0 + int (length ?batch) + int (length rs2)" "model_view_ok st1 \<longrightarrow> model_view_ok st'"
      by auto
    from insertBatch_rows [OF b [unfolded r]] obtain rs1 where
      rs1: "list_all2 (row_of parse) ?batch rs1" "ch_events st1 = ch_events st @ rs1"
      "model_view_ok st \<longrightarrow> model_view_ok st1" by blast
    have split: "drop (nat i) events = ?batch @ drop (nat (i + n)) events"
    proof (cases "i + n \<le> int (length events)")
      case True
      then have "nat (?e - i) = nat n" "nat (i + n) = nat n + nat i" using 1(3) \<open>0 < n\<close> by auto
      then show ?thesis by (simp only: append_take_drop_id drop_drop [symmetric])
    next
      case F: False
      then have "nat (?e - i) = length (drop (nat i) events)" using 1(3) by auto
      with F 1(3) \<open>0 < n\<close> show ?thesis by simp
    qed
    have "list_all2 (row_of parse) (drop (nat i) events) (rs1 @ rs2)"
      by (subst split) (rule list_all2_appendI [OF rs1(1) rs2(1)])
    moreover have "int (length ?batch) = int (length rs1)" by (simp only: list_all2_lengthD [OF rs1(1)])
    ultimately show ?thesis using rs1(2,3) rs2(2-4) by (intro exI [of _ "rs1 @ rs2"]) simp
  qed
qed

section \<open>A run, from the demo organisation to the last row\<close>

definition seeded_row :: "gotime \<Rightarrow> int \<Rightarrow> event_row \<Rightarrow> bool" where
  "seeded_row now days r \<longleftrightarrow>
     cr_org_id r = OrgIDToUint64 demoOrgID \<and> cr_project_id r \<in> dp_Slug ` set demoProjects
     \<and> (local_day now + 1 - days) * (24 * hour) \<le> t_ns (cr_timestamp r) \<and> t_ns (cr_timestamp r) \<le> t_ns now
     \<and> (\<exists>m \<in> set DefaultModelDistributions. cr_model r = md_Model m \<and> cr_provider r = md_Provider m)
     \<and> cr_total_tokens r = cr_prompt_tokens r + cr_completion_tokens r \<and> cr_status_code r \<in> {200, 400, 429, 500}"

lemma local_day_UTC: "t_off t = 0 \<Longrightarrow> local_day t = t_ns t div (24 * hour)"
  by (simp add: local_day_def zdiv_zmult2_eq)

lemma seed_range:
  assumes "t_off now = 0"
  shows "local_day (AddDays (AddDays (Truncate now (24 * hour)) 1) (- days)) = local_day now + 1 - days"
    "t_off (AddDays (AddDays (Truncate now (24 * hour)) 1) (- days)) = 0"
proof -
  let ?t = "AddDays (AddDays (Truncate now (24 * hour)) 1) (- days)"
  show off: "t_off ?t = 0" using assms by (simp add: AddDays_def Add_def Truncate_def)
  have "t_ns ?t = (local_day now + 1 - days) * (24 * hour)"
    using Truncate_day [OF assms] by (simp add: AddDays_def Add_def algebra_simps)
  then show "local_day ?t = local_day now + 1 - days"
    unfolding local_day_UTC [OF off] by simp
qed

lemma DateTime64_3_range:
  "k * (24 * hour) \<le> t_ns t \<Longrightarrow> k * (24 * hour) \<le> t_ns (DateTime64_3 t)"
  "t_ns (DateTime64_3 t) \<le> t_ns t"
proof -
  have m: "k * (24 * hour) = (k * 86400000) * 1000000" by simp
  show "k * (24 * hour) \<le> t_ns t \<Longrightarrow> k * (24 * hour) \<le> t_ns (DateTime64_3 t)"
    unfolding m by (simp add: DateTime64_3_def pos_imp_zdiv_neg_iff)
  show "t_ns (DateTime64_3 t) \<le> t_ns t" by (simp add: DateTime64_3_def)
qed

lemma demo_distributions_slugs: "pd_ProjectID ` set demo_distributions = dp_Slug ` set demoProjects"
  by (simp add: demo_distributions_def demoProjects_def DefaultProjectDistributions_def)

lemma seed_events_in_range:
  assumes "prints_uuids us" "t_off now = 0" "\<forall>es. mset (sort_slice es) = mset es"
    and "e \<in> set (seed_events lm us pcg sort_slice now flags org pt)"
  shows "\<exists>g. gr_orgID g = org \<and> gr_projects g = demo_distributions
    \<and> in_range g (AddDays (AddDays (Truncate now (24 * hour)) 1) (- sf_days flags)) now e"
proof -
  obtain g rng where g: "NewGenerator pcg (sf_seed flags) org pt demo_distributions = (g, rng)" by fastforce
  have "demo_distributions \<noteq> []"
    by (simp add: demo_distributions_def demoProjects_def DefaultProjectDistributions_def)
  from NewGenerator_good [OF this, of pcg "sf_seed flags" org pt] have good: "good_generator g" by (simp add: g)
  have "gr_orgID g = org" "gr_projects g = demo_distributions" using g by (auto simp: NewGenerator_def)
  moreover have "list_all (in_range g (AddDays (AddDays (Truncate now (24 * hour)) 1) (- sf_days flags)) now)
      (fst (run_state (GenerateBatch lm us g (AddDays (AddDays (Truncate now (24 * hour)) 1) (- sf_days flags)) now
         (sf_eventsPerDay flags)) rng))"
    using pred_GenerateBatch [OF good assms(1) seed_range(2) [OF assms(2)]] by (simp add: pred_state_iff)
  moreover have "set (sort_slice es) = set es" for es using assms(3) by (metis set_mset_mset)
  ultimately show ?thesis
    using assms(4) by (auto simp: seed_events_def g Let_def list_all_iff)
qed

lemma seeded_row_of:
  assumes "row_of parse e r" "in_range g from_t now e" "local_day from_t = local_day now + 1 - days"
    and "gr_orgID g = OrgIDToUint64 demoOrgID" "gr_projects g = demo_distributions"
  shows "seeded_row now days r"
proof -
  from assms(1) obtain u v where r: "r = gen_to_row u v e" by (auto simp: row_of_def)
  from assms(2) have e: "good_event g (set DefaultModelDistributions) (ge_Timestamp e) e"
    "(local_day now + 1 - days) * (24 * hour) \<le> t_ns (ge_Timestamp e)" "t_ns (ge_Timestamp e) \<le> t_ns now"
    by (simp_all add: in_range_def assms(3))
  have "(ucast (c :: u32) :: u16) \<in> {200, 400, 429, 500}" if "c \<in> {200, 400, 429, 500}" for c
    using that by auto
  with e DateTime64_3_range(1) [OF e(2)] DateTime64_3_range(2) [of "ge_Timestamp e"] show ?thesis
    by (simp add: r seeded_row_def gen_to_row_def good_event_def assms(4,5) demo_distributions_slugs)
qed

text \<open>With the sorting that \<open>sort.Slice\<close> performs, the rows come in the order of their instants.\<close>

lemma rows_sorted:
  "list_all2 (row_of parse) es rs \<Longrightarrow> sorted (map (t_ns \<circ> ge_Timestamp) es) \<Longrightarrow>
     sorted (map (t_ns \<circ> cr_timestamp) rs)"
proof (induction rule: list_all2_induct)
  case (Cons e es r rs)
  have "t_ns (cr_timestamp r) \<le> t_ns (cr_timestamp x)" if x: "x \<in> set rs" for x
  proof -
    from Cons.hyps(2) x obtain e' where "e' \<in> set es" "row_of parse e' x"
      by (metis in_set_conv_nth list_all2_conv_all_nth)
    with Cons.prems Cons.hyps(1) show ?thesis
      by (auto simp: row_of_def gen_to_row_def DateTime64_3_def intro!: zdiv_mono1)
  qed
  with Cons show ?case by auto
qed simp

text \<open>The steps of a run that succeeds.\<close>

lemma seed_main_Inr:
  assumes "seed_main lm us parse pcg sort_slice clock now flags pg ch = Some (pg', ch', Inr (total', stats'))"
  obtains pt ch1 where
    "ch_events ch1 = (if sf_drop flags then filter (\<lambda>r. cr_org_id r \<noteq> OrgIDToUint64 demoOrgID) (ch_events ch)
                      else ch_events ch)"
    "insert_loop parse clock (sf_batchSize flags)
       (seed_events lm us pcg sort_slice now flags (OrgIDToUint64 demoOrgID) pt) 0 0 Map.empty ch1
       = (ch', Inr (total', stats'))"
proof -
  obtain pg1 r1 where b: "bootstrapPostgres now (sf_org flags) pg = (pg1, r1)" by fastforce
  with assms obtain org where r1: "r1 = Inr org" by (cases r1) (auto simp: seed_main_def)
  with b have "org = demoOrgID" by (auto elim: bootstrapPostgres_Inr)
  note b = b [unfolded r1 this]
  from assms b obtain pg2 r2 where l: "loadPrices now pg1 = Some (pg2, r2)"
    by (cases "loadPrices now pg1") (auto simp: seed_main_def)
  with assms b obtain pt where r2: "r2 = Inr pt" by (cases r2) (auto simp: seed_main_def)
  from assms b l r2 have m: "CheckMissingModels pt = []" by (auto simp: seed_main_def split: if_splits)
  obtain ch1 r3 where d: "(if sf_drop flags then drop_events (OrgIDToUint64 demoOrgID) ch else (ch, Inr ())) = (ch1, r3)"
    by fastforce
  with assms b l r2 m obtain v where r3: "r3 = Inr v" by (cases r3) (auto simp: seed_main_def)
  have "ch_events ch1 = (if sf_drop flags then filter (\<lambda>r. cr_org_id r \<noteq> OrgIDToUint64 demoOrgID) (ch_events ch)
                      else ch_events ch)"
    using d unfolding r3 by (auto simp: drop_events_def ch_exec_def Let_def split: if_splits)
  moreover from assms b l r2 m d r3 have "insert_loop parse clock (sf_batchSize flags)
       (seed_events lm us pcg sort_slice now flags (OrgIDToUint64 demoOrgID) pt) 0 0 Map.empty ch1
       = (ch', Inr (total', stats'))"
    by (simp add: seed_main_def Let_def split: prod.splits)
  ultimately show thesis by (rule that)
qed

text \<open>
  C25: When the seed command succeeds, on whatever stores, the rows that it adds to the events table are
  in the order of their instants, as many as it reports, and all of the demo organisation, one of its
  projects and a known model, with consistent tokens and statuses, within the requested days and not
  in the future; of the earlier rows, those of the demo organisation are kept unless \<open>--drop\<close> is given.
\<close>

theorem seed_main_rows:
  assumes "prints_uuids us" "t_off now = 0"
    and "\<forall>es. mset (sort_slice es) = mset es \<and> sorted (map (t_ns \<circ> ge_Timestamp) (sort_slice es))"
    and "seed_main lm us parse pcg sort_slice clock now flags pg ch = Some (pg', ch', Inr (total', stats'))"
  shows "\<exists>rows. ch_events ch' =
      (if sf_drop flags then filter (\<lambda>r. cr_org_id r \<noteq> OrgIDToUint64 demoOrgID) (ch_events ch)
       else ch_events ch) @ rows
    \<and> total' = int (length rows) \<and> sorted (map (t_ns \<circ> cr_timestamp) rows)
    \<and> list_all (seeded_row now (sf_days flags)) rows"
proof -
  from assms(4) obtain pt ch1 where 1: "ch_events ch1 =
      (if sf_drop flags then filter (\<lambda>r. cr_org_id r \<noteq> OrgIDToUint64 demoOrgID) (ch_events ch) else ch_events ch)"
    "insert_loop parse clock (sf_batchSize flags)
       (seed_events lm us pcg sort_slice now flags (OrgIDToUint64 demoOrgID) pt) 0 0 Map.empty ch1
       = (ch', Inr (total', stats'))" by (rule seed_main_Inr)
  let ?es = "seed_events lm us pcg sort_slice now flags (OrgIDToUint64 demoOrgID) pt"
  from insert_loop_rows [OF 1(2)] obtain rows where r: "list_all2 (row_of parse) ?es rows"
    "ch_events ch' = ch_events ch1 @ rows" "total' = int (length rows)" by auto
  have "sorted (map (t_ns \<circ> ge_Timestamp) ?es)" using assms(3) by (simp add: seed_events_def case_prod_unfold Let_def)
  from rows_sorted [OF r(1) this] have sorted: "sorted (map (t_ns \<circ> cr_timestamp) rows)" .
  have "seeded_row now (sf_days flags) x" if x: "x \<in> set rows" for x
  proof -
    from r(1) x obtain e where e: "e \<in> set ?es" "row_of parse e x"
      by (metis in_set_conv_nth list_all2_conv_all_nth)
    have "\<forall>es. mset (sort_slice es) = mset es" using assms(3) by blast
    from seed_events_in_range [OF assms(1,2) this e(1)] seeded_row_of [OF e(2)]
      seed_range(1) [OF assms(2)] show ?thesis by blast
  qed
  with r sorted 1(1) show ?thesis by (auto simp: list_all_iff)
qed

section \<open>A run on stores that work\<close>

lemma insertBatch_up:
  assumes "\<forall>n. \<not> ch_fails st n" "\<forall>x. parse x \<noteq> None"
  shows "\<exists>st'. insertBatch parse now es st = (st', Inr ()) \<and> ch_fails st' = ch_fails st"
proof -
  have "\<exists>rs. gen_append_loop parse now es = Some rs" for es
    using assms(2) by (induction es) (auto split: option.splits)
  then obtain rs where "gen_append_loop parse now es = Some rs" by blast
  with assms(1) show ?thesis
    by (cases "es = []") (simp_all add: insertBatch_def ch_query_def ch_exec_def batch_Send_def Let_def insert_block_def)
qed

lemma insert_loop_up:
  assumes "\<forall>n. \<not> ch_fails st n" "\<forall>x. parse x \<noteq> None" "0 < n" "0 \<le> i"
  shows "\<exists>st' total' stats'. insert_loop parse clock n events i total0 stats st = (st', Inr (total', stats'))
    \<and> ch_fails st' = ch_fails st"
  using assms
proof (induction "nat (int (length events) - i)" arbitrary: i total0 stats st rule: less_induct)
  case less
  show ?case
  proof (cases "int (length events) \<le> i")
    case True
    then show ?thesis by (subst insert_loop.simps) simp
  next
    case False
    let ?batch = "take (nat (min (i + n) (int (length events)) - i)) (drop (nat i) events)"
    from insertBatch_up [OF less.prems(1,2)] obtain st1 where
      b: "insertBatch parse (clock i) ?batch st = (st1, Inr ())" "ch_fails st1 = ch_fails st" by blast
    have "\<not> min (i + n) (int (length events)) < i" using False less.prems(3) by simp
    with False b(1) less.prems(3) have "insert_loop parse clock n events i total0 stats st
        = insert_loop parse clock n events (i + n) (total0 + int (length ?batch)) (foldl count_event stats ?batch) st1"
      by (subst insert_loop.simps) (simp only: Let_def if_False prod.case sum.case, simp)
    moreover have "\<exists>st' total' stats'. insert_loop parse clock n events (i + n) (total0 + int (length ?batch))
        (foldl count_event stats ?batch) st1 = (st', Inr (total', stats')) \<and> ch_fails st' = ch_fails st1"
      by (rule less.hyps) (use False less.prems b(2) in simp_all)
    ultimately show ?thesis using b(2) by simp
  qed
qed

lemma seed_price_loop_up:
  "\<forall>n. \<not> pg_fails db n \<Longrightarrow> \<exists>db'. seed_price_loop now ps db = (db', Inr ()) \<and> pg_fails db' = pg_fails db"
proof (induction ps arbitrary: db)
  case (Cons p ps)
  have "\<exists>db1. insert_price now p db = (db1, Inr ()) \<and> pg_fails db1 = pg_fails db"
    using Cons.prems by (simp add: insert_price_def pg_exec_up)
  then obtain db1 where "insert_price now p db = (db1, Inr ())" "pg_fails db1 = pg_fails db" by blast
  with Cons.IH [of db1] Cons.prems show ?case by simp
qed simp

lemma loadPrices_up:
  assumes "\<forall>n. \<not> pg_fails db n"
  shows "\<exists>db' pt. loadPrices now db = Some (db', Inr pt) \<and> CheckMissingModels pt = []"
proof -
  have complete: "\<exists>db' pt. loadPrices now db = Some (db', Inr pt) \<and> CheckMissingModels pt = []"
    if "\<forall>p \<in> set SeedModelPrices. priced db (pe_Provider p) (pe_ModelName p)" "\<forall>n. \<not> pg_fails db n" for db
    using loaded_complete [OF that(1)] that(2)
    by (subst loadPrices.simps) (simp add: pg_query_cases Let_def)
  let ?db = "db\<lparr>pg_stmts := pg_stmts db + 1\<rparr>"
  obtain db' where s: "seedModelPrices now ?db = (db', Inr ())" "pg_fails db' = pg_fails db"
    using seed_price_loop_up [of ?db now SeedModelPrices] assms by (auto simp: seedModelPrices_def)
  from complete [of db'] seed_price_loop_priced [OF s(1) [unfolded seedModelPrices_def]] s(2) assms
  have "\<exists>db'' pt. loadPrices now db' = Some (db'', Inr pt) \<and> CheckMissingModels pt = []" by simp
  with s(1) assms show ?thesis by (subst loadPrices.simps) (simp add: pg_query_cases Let_def)
qed

text \<open>On an empty database, and stores that work, a run with a positive batch size succeeds.\<close>

lemma seed_main_up:
  assumes "0 < sf_batchSize flags" "\<forall>n. \<not> ch_fails ch n" "\<forall>x. parse x \<noteq> None"
  shows "\<exists>pg' ch' total' stats'. seed_main lm us parse pcg sort_slice clock now flags
    (pg_empty uuids (\<lambda>_. False) prices) ch = Some (pg', ch', Inr (total', stats'))"
proof -
  obtain db r where b: "bootstrapPostgres now (sf_org flags) (pg_empty uuids (\<lambda>_. False) prices) = (db, r)" by fastforce
  note e = seeded_empty(1,2) [OF b]
  from loadPrices_up [OF e(2)] obtain db' pt where
    l: "loadPrices now db = Some (db', Inr pt)" "CheckMissingModels pt = []" by blast
  have "\<exists>ch1. (if sf_drop flags then drop_events (OrgIDToUint64 demoOrgID) ch else (ch, Inr ())) = (ch1, Inr ())
      \<and> ch_fails ch1 = ch_fails ch"
    using assms(2) by (simp add: drop_events_def ch_exec_def Let_def)
  then obtain ch1 where
    d: "(if sf_drop flags then drop_events (OrgIDToUint64 demoOrgID) ch else (ch, Inr ())) = (ch1, Inr ())"
      "ch_fails ch1 = ch_fails ch" by blast
  from insert_loop_up [of ch1 parse "sf_batchSize flags" 0 clock
      "seed_events lm us pcg sort_slice now flags (OrgIDToUint64 demoOrgID) pt" 0 Map.empty] assms d(2)
  obtain ch' total' stats' where "insert_loop parse clock (sf_batchSize flags)
      (seed_events lm us pcg sort_slice now flags (OrgIDToUint64 demoOrgID) pt) 0 0 Map.empty ch1
      = (ch', Inr (total', stats'))" by auto
  with b e l d(1) show ?thesis by (simp add: seed_main_def Let_def)
qed

definition sample_flags :: seed_flags where
  "sample_flags = \<lparr>sf_days = 30, sf_org = ''demo'', sf_eventsPerDay = 5000, sf_seed = 42,
     sf_batchSize = 10000, sf_drop = False\<rparr>"

definition sample_sort :: "GenEvent list \<Rightarrow> GenEvent list" where
  "sample_sort = sort_key (t_ns \<circ> ge_Timestamp)"

theorem seed_main_rows_witness:
  "\<exists>pg' ch' total' stats' rows. seed_main sample_libm canonical_uuid Some (\<lambda>_ _. sample_rng) sample_sort
      (\<lambda>_. zero_time) zero_time sample_flags (be_pg new_install) sample_store = Some (pg', ch', Inr (total', stats'))
    \<and> ch_events ch' = rows \<and> total' = int (length rows) \<and> list_all (seeded_row zero_time 30) rows"
proof -
  have "be_pg new_install = pg_empty (\<lambda>n. replicate n (CHR ''u'')) (\<lambda>_. False) []" by (simp add: new_install_def)
  with seed_main_up [of sample_flags sample_store Some] obtain pg' ch' total' stats' where
    run: "seed_main sample_libm canonical_uuid Some (\<lambda>_ _. sample_rng) sample_sort
      (\<lambda>_. zero_time) zero_time sample_flags (be_pg new_install) sample_store = Some (pg', ch', Inr (total', stats'))"
    by (fastforce simp: sample_flags_def sample_store_def ch_empty_def)
  have "prints_uuids canonical_uuid" "t_off zero_time = 0"
    "\<forall>es. mset (sample_sort es) = mset es \<and> sorted (map (t_ns \<circ> ge_Timestamp) (sample_sort es))"
    by (simp_all add: prints_uuids_def zero_time_def sample_sort_def)
  from seed_main_rows [OF this run] run show ?thesis
    by (auto simp: sample_flags_def sample_store_def ch_empty_def)
qed

section \<open>Seeding twice\<close>

text \<open>The sorting key of a row does not depend on when it was inserted.\<close>

lemma row_of_sort_columns:
  "row_of parse e r \<Longrightarrow> row_of parse e r' \<Longrightarrow> sort_columns r = sort_columns r'"
  by (auto simp: row_of_def gen_to_row_def sort_columns_def)

lemma rows_sort_columns:
  "list_all2 (row_of parse) es rs \<Longrightarrow> list_all2 (row_of parse) es rs' \<Longrightarrow>
     sort_columns ` set rs = sort_columns ` set rs'"
proof (induction arbitrary: rs' rule: list_all2_induct)
  case (Cons e es r rs)
  obtain r' rs'' where r': "rs' = r' # rs''" "row_of parse e r'" "list_all2 (row_of parse) es rs''"
    using Cons.prems by (auto simp: list_all2_Cons1)
  have "sort_columns r = sort_columns r'" by (rule row_of_sort_columns [OF Cons.hyps(1) r'(2)])
  then show ?case using Cons.IH [OF r'(3)] by (simp add: r'(1))
qed simp

text \<open>
  Inserting the same events again, in batches of any size, adds no event to the events table as a
  query with \<open>FINAL\<close> reads it, but the pre-aggregated tables count every one of them once more.
\<close>

lemma seed_again_counts_twice:
  assumes "model_view_ok st"
    and "insert_loop parse clock n events 0 0 Map.empty st = (st1, Inr (total1, stats1))"
    and "insert_loop parse clock2 n2 events 0 0 Map.empty st1 = (st2, Inr (total2, stats2))"
  shows "length (final_rows (ch_events st2)) = length (final_rows (ch_events st1))
    \<and> (\<Sum>r \<leftarrow> model_target v2 st2. mr_requests r)
      = (\<Sum>r \<leftarrow> model_target v2 st1. mr_requests r) + of_nat (length events)"
proof -
  from insert_loop_rows [OF assms(2)] obtain rs1 where 1: "list_all2 (row_of parse) events rs1"
    "ch_events st1 = ch_events st @ rs1" "model_view_ok st \<longrightarrow> model_view_ok st1" by auto
  from insert_loop_rows [OF assms(3)] obtain rs2 where 2: "list_all2 (row_of parse) events rs2"
    "ch_events st2 = ch_events st1 @ rs2" "model_view_ok st1 \<longrightarrow> model_view_ok st2" by auto
  have "sort_columns ` set (ch_events st2) = sort_columns ` set (ch_events st1)"
    using rows_sort_columns [OF 1(1) 2(1)] by (auto simp: 1(2) 2(2))
  moreover have count: "(\<Sum>r \<leftarrow> model_target v2 s. mr_requests r) = count_u64 (ch_events s)" if "model_view_ok s" for s
    using that [unfolded model_view_ok_def, rule_format, of "\<lambda>_. True" v2] by (simp add: comp_def)
  have "(\<Sum>r \<leftarrow> model_target v2 st2. mr_requests r)
      = (\<Sum>r \<leftarrow> model_target v2 st1. mr_requests r) + of_nat (length events)"
    using count [of st1] count [of st2] assms(1) 1(3) 2(3) list_all2_lengthD [OF 2(1)]
    by (simp add: 2(2) count_u64_def)
  ultimately show ?thesis by (simp add: length_final_rows)
qed

definition sample_gen_event :: GenEvent where
  "sample_gen_event =
     \<lparr>ge_OrgID = 1, ge_EventID = ''e'', ge_ProjectID = ''backend-api'', ge_Timestamp = zero_time,
      ge_Model = ''gpt-4o'', ge_Provider = ''openai'', ge_PromptTokens = 100, ge_CompletionTokens = 50,
      ge_TotalTokens = 150, ge_CostUSD = 0, ge_LatencyMs = 800, ge_StatusCode = 200, ge_Tags = Map.empty,
      ge_S3Status = ''none'', ge_SchemaVersion = 1\<rparr>"

end
