(* ===== verification/Ingest_Body.thy ===== *)
theory Ingest_Body
  imports Ingest_Wire Click_Store
begin

text \<open>
  The bodies of the requests to the ingestion API: \<open>json.NewDecoder(r.Body).Decode\<close> of an event and of a
  batch (\<open>handler.go\<close>, types of \<open>validation.go\<close>) behind the limit of \<open>BodySizeLimitMiddleware\<close>.
\<close>

section \<open>Decoding a body\<close>

definition scalar :: "jval \<Rightarrow> bool" where
  "scalar v \<longleftrightarrow> (case v of VArr _ \<Rightarrow> False | VObj _ \<Rightarrow> False | _ \<Rightarrow> True)"

text \<open>
  \<open>Decode\<close> takes the first value of the stream. An array or object ends with its bracket and what follows
  is not looked at; the end of another value shows only at the byte after it. The reader of
  \<open>http.MaxBytesReader\<close> hands out the first \<open>maxBytes\<close> bytes and then fails.
\<close>

definition decode_stream :: "nat \<Rightarrow> string \<Rightarrow> jval option" where
  "decode_stream maxBytes data =
     (case parse_value maxNestingDepth (skip_ws (take maxBytes data)) of
        None \<Rightarrow> None
      | Some (v, rest) \<Rightarrow>
          if scalar v \<and> (if rest = [] then maxBytes < length data else \<not> is_space (hd rest)) then None else Some v)"

text \<open>A field that is a pointer: \<open>null\<close> resets it, any other value is decoded into what it points to.\<close>

definition decode_pointer :: "(jval \<Rightarrow> 'a \<Rightarrow> 'a option) \<Rightarrow> 'a \<Rightarrow> jval \<Rightarrow> 'a option \<Rightarrow> 'a option option" where
  "decode_pointer decode z v old =
     (if v = VNull then Some None
      else map_option Some (decode v (case old of None \<Rightarrow> z | Some x \<Rightarrow> x)))"

definition decode_u32 :: "jval \<Rightarrow> u32 \<Rightarrow> u32 option" where
  "decode_u32 v old = map_option of_nat (decode_uint 32 v (unat old))"

definition event_fields :: "string list" where
  "event_fields =
     [''idempotency_key'', ''timestamp'', ''model'', ''provider'', ''prompt_tokens'', ''completion_tokens'',
      ''latency_ms'', ''status_code'', ''tags'', ''prompt'', ''response'']"

definition set_er :: "string \<Rightarrow> jval \<Rightarrow> EventRequest \<Rightarrow> EventRequest option" where
  "set_er f v x =
     (if f = ''idempotency_key''
      then map_option (\<lambda>s. x\<lparr>er_IdempotencyKey := s\<rparr>) (decode_string v (er_IdempotencyKey x))
      else if f = ''timestamp'' then map_option (\<lambda>s. x\<lparr>er_Timestamp := s\<rparr>) (decode_string v (er_Timestamp x))
      else if f = ''model'' then map_option (\<lambda>s. x\<lparr>er_Model := s\<rparr>) (decode_string v (er_Model x))
      else if f = ''provider'' then map_option (\<lambda>s. x\<lparr>er_Provider := s\<rparr>) (decode_string v (er_Provider x))
      else if f = ''prompt_tokens''
      then map_option (\<lambda>n. x\<lparr>er_PromptTokens := n\<rparr>) (decode_pointer decode_u32 0 v (er_PromptTokens x))
      else if f = ''completion_tokens''
      then map_option (\<lambda>n. x\<lparr>er_CompletionTokens := n\<rparr>) (decode_pointer decode_u32 0 v (er_CompletionTokens x))
      else if f = ''latency_ms''
      then map_option (\<lambda>n. x\<lparr>er_LatencyMs := n\<rparr>) (decode_pointer decode_u32 0 v (er_LatencyMs x))
      else if f = ''status_code''
      then map_option (\<lambda>n. x\<lparr>er_StatusCode := n\<rparr>) (decode_pointer decode_u32 0 v (er_StatusCode x))
      else if f = ''tags''
      then map_option (\<lambda>m. x\<lparr>er_Tags := map_option tag_entries m\<rparr>) (decode_tags v (map_option map_of (er_Tags x)))
      else if f = ''prompt''
      then map_option (\<lambda>s. x\<lparr>er_Prompt := s\<rparr>) (decode_pointer decode_string [] v (er_Prompt x))
      else if f = ''response''
      then map_option (\<lambda>s. x\<lparr>er_Response := s\<rparr>) (decode_pointer decode_string [] v (er_Response x))
      else None)"

definition zero_request :: EventRequest where
  "zero_request =
     \<lparr>er_IdempotencyKey = [], er_Timestamp = [], er_Model = [], er_Provider = [], er_PromptTokens = None,
      er_CompletionTokens = None, er_LatencyMs = None, er_StatusCode = None, er_Tags = None,
      er_Prompt = None, er_Response = None\<rparr>"

text \<open>A structure inside a value: \<open>null\<close> keeps it.\<close>

definition decode_object ::
    "string list \<Rightarrow> (string \<Rightarrow> jval \<Rightarrow> 'a \<Rightarrow> 'a option) \<Rightarrow> jval \<Rightarrow> 'a \<Rightarrow> 'a option" where
  "decode_object names set_field v x =
     (case v of VNull \<Rightarrow> Some x | VObj ms \<Rightarrow> decode_members names set_field ms x | _ \<Rightarrow> None)"

text \<open>
  A slice is the memory behind it and its length: an array that is decoded into a slice writes over the
  elements that are there, also over those beyond its length, and only then makes the slice grow.
\<close>

fun decode_elements :: "(jval \<Rightarrow> 'a \<Rightarrow> 'a option) \<Rightarrow> 'a \<Rightarrow> jval list \<Rightarrow> 'a list \<Rightarrow> 'a list option" where
  "decode_elements decode z [] mem = Some mem"
| "decode_elements decode z (v # vs) mem =
     (case decode v (if mem = [] then z else hd mem) of
        None \<Rightarrow> None
      | Some x \<Rightarrow> map_option (\<lambda>xs. x # xs) (decode_elements decode z vs (tl mem)))"

definition decode_slice ::
    "(jval \<Rightarrow> 'a \<Rightarrow> 'a option) \<Rightarrow> 'a \<Rightarrow> jval \<Rightarrow> 'a list \<times> nat \<Rightarrow> ('a list \<times> nat) option" where
  "decode_slice decode z v s =
     (case v of
        VNull \<Rightarrow> Some ([], 0)
      | VArr vs \<Rightarrow>
          if vs = [] then Some ([], 0)
          else map_option (\<lambda>mem. (mem, length vs)) (decode_elements decode z vs (fst s))
      | _ \<Rightarrow> None)"

definition decode_event :: "string \<Rightarrow> EventRequest option" where
  "decode_event data =
     (case decode_stream maxBodyBatch data of
        None \<Rightarrow> None
      | Some v \<Rightarrow> decode_object event_fields set_er v zero_request)"

definition decode_batch :: "string \<Rightarrow> EventRequest list option" where
  "decode_batch data =
     (case decode_stream maxBodyBatch data of
        None \<Rightarrow> None
      | Some v \<Rightarrow>
          map_option (\<lambda>(mem, n). take n mem)
            (decode_object [''events''] (\<lambda>_. decode_slice (decode_object event_fields set_er) zero_request)
              v ([], 0)))"

section \<open>What is decoded is UTF-8\<close>

definition texts_ok :: "EventRequest \<Rightarrow> bool" where
  "texts_ok req \<longleftrightarrow>
     valid_utf8 (er_IdempotencyKey req) \<and> valid_utf8 (er_Model req) \<and> valid_utf8 (er_Provider req)
     \<and> pred_option valid_utf8 (er_Prompt req) \<and> pred_option valid_utf8 (er_Response req)
     \<and> tags_ok (map_option map_of (er_Tags req))"

lemma map_of_tag_entries:
  assumes "finite (dom m)"
  shows "map_of (tag_entries m) = m" "length (tag_entries m) = card (dom m)"
    "set (tag_entries m) = {(k, v). m k = Some v}"
proof -
  show set: "set (tag_entries m) = {(k, v). m k = Some v}"
    using assms by (force simp: tag_entries_def)
  have "distinct (map fst (tag_entries m))" by (simp add: tag_entries_def comp_def)
  then show "map_of (tag_entries m) = m"
    by (intro ext) (metis (mono_tags, lifting) case_prodD case_prodI map_of_eq_None_iff map_of_eq_Some_iff
        mem_Collect_eq not_Some_eq set)
  show "length (tag_entries m) = card (dom m)" by (simp add: tag_entries_def)
qed

lemma decode_members_inv:
  assumes "decode_members names set_field ms x = Some y" and "P x"
    and step: "\<And>f v x y. P x \<Longrightarrow> set_field f v x = Some y \<Longrightarrow> P y"
  shows "P y"
  using assms(1,2)
proof (induction ms arbitrary: x)
  case (Cons m ms)
  then show ?case by (cases m) (auto split: option.splits intro: step)
qed simp

lemma decode_string_valid: "decode_string v old = Some s \<Longrightarrow> valid_utf8 old \<Longrightarrow> valid_utf8 s"
  by (auto simp: decode_string_def unquote_valid split: jval.splits)

lemma decode_text_valid:
  "decode_pointer decode_string [] v old = Some p \<Longrightarrow> pred_option valid_utf8 old \<Longrightarrow> pred_option valid_utf8 p"
  by (cases old) (auto simp: decode_pointer_def split: if_splits dest: decode_string_valid)

lemma tag_members_valid: "tag_members ms m = Some m' \<Longrightarrow> tags_ok (Some m) \<Longrightarrow> tags_ok (Some m')"
proof (induction ms arbitrary: m)
  case (Cons kv ms)
  obtain k v where kv: "kv = (k, v)" by fastforce
  with Cons.prems obtain key s where ks: "unquote k = Some key" "decode_string v [] = Some s"
    "tag_members ms (m(key \<mapsto> s)) = Some m'" by (auto split: option.splits)
  have "tags_ok (Some (m(key \<mapsto> s)))"
    using Cons.prems(2) unquote_valid [OF ks(1)] decode_string_valid [OF ks(2)] by (auto simp: tags_ok_def)
  with Cons.IH ks(3) show ?case by blast
qed simp

lemma decode_tags_valid:
  assumes "decode_tags v old = Some m" "tags_ok old"
  shows "tags_ok m"
proof -
  have e: "tags_ok (Some Map.empty)" "tags_ok None" by (simp_all add: tags_ok_def)
  show ?thesis
    using assms e tag_members_valid
    by (cases old) (auto simp: decode_tags_def split: jval.splits)
qed

lemma set_er_ok: "texts_ok x \<Longrightarrow> set_er f v x = Some y \<Longrightarrow> texts_ok y"
proof -
  assume x: "texts_ok x" and y: "set_er f v x = Some y"
  have t: "map_option map_of (map_option tag_entries m) = m" if "tags_ok m" for m
    using that by (cases m) (simp_all add: tags_ok_def map_of_tag_entries)
  show "texts_ok y"
    using x y unfolding set_er_def texts_ok_def
    by (auto split: if_splits simp: t dest: decode_string_valid decode_text_valid decode_tags_valid)
qed

lemma zero_request_ok: "texts_ok zero_request"
  by (simp add: texts_ok_def zero_request_def tags_ok_def)

lemma decode_object_ok:
  "decode_object event_fields set_er v x = Some y \<Longrightarrow> texts_ok x \<Longrightarrow> texts_ok y"
  using set_er_ok by (auto simp: decode_object_def split: jval.splits intro: decode_members_inv)

lemma decode_event_ok: "decode_event data = Some req \<Longrightarrow> texts_ok req"
  by (auto simp: decode_event_def split: option.splits intro: decode_object_ok zero_request_ok)

lemma decode_elements_ok:
  "decode_elements (decode_object event_fields set_er) zero_request vs mem = Some xs \<Longrightarrow> list_all texts_ok mem
     \<Longrightarrow> list_all texts_ok xs"
proof (induction vs arbitrary: mem xs)
  case (Cons v vs)
  then obtain y ys where y: "decode_object event_fields set_er v (if mem = [] then zero_request else hd mem) = Some y"
    "decode_elements (decode_object event_fields set_er) zero_request vs (tl mem) = Some ys" "xs = y # ys"
    by (auto split: option.splits)
  have "texts_ok (if mem = [] then zero_request else hd mem)" "list_all texts_ok (tl mem)"
    using Cons.prems(2) zero_request_ok by (cases mem; simp)+
  with y Cons.IH decode_object_ok show ?case by auto
qed simp

lemma decode_batch_ok: "decode_batch data = Some reqs \<Longrightarrow> list_all texts_ok reqs"
proof -
  let ?dec = "decode_slice (decode_object event_fields set_er) zero_request"
  have s: "list_all texts_ok (fst t)" if "list_all texts_ok (fst s)" "?dec v s = Some t" for v s t
    using that by (auto simp: decode_slice_def split: jval.splits if_splits intro: decode_elements_ok)
  have ob: "list_all texts_ok (fst t)" if "decode_object [''events''] (\<lambda>_. ?dec) v ([], 0) = Some t" for v t
    using that s
    by (auto simp: decode_object_def split: jval.splits
        intro: decode_members_inv [where P = "\<lambda>t. list_all texts_ok (fst t)"])
  show "decode_batch data = Some reqs \<Longrightarrow> list_all texts_ok reqs"
    using ob by (fastforce simp: decode_batch_def list_all_iff split: option.splits dest: in_set_takeD)
qed

section \<open>From the body to the worker\<close>

lemma to_valid_ok: "valid_utf8 s \<Longrightarrow> to_valid s = s"
  by (simp add: valid_utf8_def)

lemma HandleEvent_202:
  assumes "HandleEvent Publish now body js r w = (js', w')" and "rs_Status w' = 202"
  shows "\<exists>req. body = Some req \<and> valid_event now req
    \<and> marshals (buildProtoEvent now (OrgIDToUint64 (OrgIDFromContext (rq_Ctx r))) (snd (ValidateEvent now req)))
    \<and> js_queued js' = js_queued js @ [(OrgIDToUint64 (OrgIDFromContext (rq_Ctx r)),
          buildProtoEvent now (OrgIDToUint64 (OrgIDFromContext (rq_Ctx r))) (snd (ValidateEvent now req)))]"
proof -
  let ?org = "OrgIDToUint64 (OrgIDFromContext (rq_Ctx r))"
  from nats.HandleEvent_spec [OF assms(1)] assms(2) obtain req where r: "body = Some req" "valid_event now req"
    "js_queued js' = js_queued js @ [(?org, buildProtoEvent now ?org (snd (ValidateEvent now req)))]" by auto
  have "marshals (buildProtoEvent now ?org (snd (ValidateEvent now req)))"
  proof (rule ccontr)
    assume "\<not> marshals (buildProtoEvent now ?org (snd (ValidateEvent now req)))"
    moreover have "fst (ValidateEvent now req) = []" using r(2) by (simp add: ValidateEvent_Nil)
    ultimately have "fst (HandleEvent Publish now body js r w) = js"
      by (simp add: r(1) HandleEvent_def Publish_def Let_def case_prod_unfold)
    with r(3) assms(1) show False by simp
  qed
  with r show ?thesis by blast
qed

lemma built_tags:
  "pb_Tags (buildProtoEvent now org req) = Some (case er_Tags req of None \<Rightarrow> Map.empty | Some tags \<Rightarrow> map_of tags)"
  by (simp add: buildProtoEvent_def Let_def)

lemma received_built_tags:
  assumes "tags_ok (map_option map_of (er_Tags req))"
  shows "(case received_tags (pb_Tags (buildProtoEvent now org req)) of None \<Rightarrow> Map.empty | Some m \<Rightarrow> m)
    = (case er_Tags req of None \<Rightarrow> Map.empty | Some tags \<Rightarrow> map_of tags)"
proof -
  have "tags_ok (pb_Tags (buildProtoEvent now org req))"
    using assms unfolding built_tags by (cases "er_Tags req") (simp_all add: tags_ok_def)
  from received_tags_valid [OF this] show ?thesis unfolding built_tags by (auto split: if_splits)
qed

text \<open>What the worker reads is what the request says; texts that are cut are left out.\<close>

definition arrived :: "u64 \<Rightarrow> EventRequest \<Rightarrow> LLMEvent \<Rightarrow> bool" where
  "arrived org req y \<longleftrightarrow>
     pb_OrgId y = org \<and> pb_EventId y = er_IdempotencyKey req \<and> pb_Model y = er_Model req
     \<and> pb_Provider y = er_Provider req \<and> Some (pb_Timestamp y) = parse_RFC3339Nano (er_Timestamp req)
     \<and> Some (pb_PromptTokens y) = er_PromptTokens req \<and> Some (pb_CompletionTokens y) = er_CompletionTokens req
     \<and> Some (pb_LatencyMs y) = er_LatencyMs req \<and> Some (pb_StatusCode y) = er_StatusCode req
     \<and> (case pb_Tags y of None \<Rightarrow> Map.empty | Some m \<Rightarrow> m)
         = (case er_Tags req of None \<Rightarrow> Map.empty | Some tags \<Rightarrow> map_of tags)
     \<and> (case er_Prompt req of None \<Rightarrow> pb_Prompt y = []
         | Some s \<Rightarrow> maxPromptBytes < length s \<or> pb_Prompt y = s \<and> pb_PromptHash y = sha256Hex s)
     \<and> (case er_Response req of None \<Rightarrow> pb_Response y = []
         | Some s \<Rightarrow> maxResponseBytes < length s \<or> pb_Response y = s)"

lemma built_arrives:
  assumes "texts_ok req" "valid_event now req" and x: "x = buildProtoEvent now org (snd (ValidateEvent now req))"
    and "marshals x" "number_ok (fmt 0)" "pf (fmt 0) = Some 0"
  shows "\<exists>data y. Marshal fmt x = Some data \<and> Unmarshal pf data = Some y \<and> arrived org req y"
proof -
  from assms(4) obtain data where d: "Marshal fmt x = Some data" using Marshal_defined [of fmt x] by auto
  have "wire_ok fmt pf x" using built_wire_ok assms(4-6) x by blast
  from wire_read [OF this d] have u: "Unmarshal pf data = Some (received x)" .
  have t: "tags_ok (map_option map_of (er_Tags (snd (ValidateEvent now req))))"
    using assms(1) by (simp add: texts_ok_def ValidateEvent_def Let_def)
  have tags: "(case pb_Tags (received x) of None \<Rightarrow> Map.empty | Some m \<Rightarrow> m)
      = (case er_Tags req of None \<Rightarrow> Map.empty | Some tags \<Rightarrow> map_of tags)"
    using received_built_tags [OF t, of now org] by (simp add: x received_def ValidateEvent_def Let_def)
  have "arrived org req (received x)"
    unfolding arrived_def
    by (intro conjI tags)
      (use assms(1) [unfolded texts_ok_def] assms(2) [unfolded valid_event_def] in \<open>auto simp: x received_def
         buildProtoEvent_def ValidateEvent_def Let_def deref_def to_valid_ok to_valid_sha256Hex truncate_text_def
         split: option.split\<close>)
  with d u show ?thesis by blast
qed

lemma decode_stream_print:
  assumes "value_ok v" "depth_ok 4 v" "\<not> scalar v" "length (print_value v) \<le> maxBytes"
  shows "decode_stream maxBytes (print_value v) = Some v"
proof -
  have "depth_ok maxNestingDepth v"
    by (rule depth_ok_mono [OF assms(2)]) (simp add: maxNestingDepth_def)
  from parse_print [OF assms(1) this, of "[]"] skip_ws_print [OF assms(1), of "[]"] assms(3,4) show ?thesis
    by (simp add: decode_stream_def)
qed

section \<open>Bodies that are written by \<open>json.Marshal\<close>\<close>

lemma event_fields_plain: "\<forall>k \<in> set event_fields. plain_key k"
  by (simp add: event_fields_def plain_key_def)

lemma event_field_names:
  "''idempotency_key'' \<in> set event_fields" "''timestamp'' \<in> set event_fields" "''model'' \<in> set event_fields"
  "''provider'' \<in> set event_fields" "''prompt_tokens'' \<in> set event_fields"
  "''completion_tokens'' \<in> set event_fields" "''latency_ms'' \<in> set event_fields"
  "''status_code'' \<in> set event_fields" "''tags'' \<in> set event_fields"
  by (simp_all add: event_fields_def)

lemma er_member:
  assumes "k \<in> set event_fields"
  shows "decode_members event_fields set_er ((k, v) # ms) x
     = (case set_er k v x of None \<Rightarrow> None | Some x \<Rightarrow> decode_members event_fields set_er ms x)"
  using assms event_fields_plain by (intro decode_members_field) auto

lemma u32_pointer_written:
  "decode_pointer decode_u32 z (json_uint (unat (n :: u32))) old = Some (Some n)"
  by (simp add: decode_pointer_def decode_u32_def uint_written) (simp add: json_uint_def)

text \<open>How long a written value is at most.\<close>

lemma length_quote_body: "list_all is_ascii s \<Longrightarrow> length (quote_body s) \<le> 6 * length s"
proof (induction s)
  case (Cons c s)
  have "length (escape c) \<le> 6" by (simp add: escape_def Let_def)
  with Cons show ?case by (simp add: quote_body_ascii)
qed simp

lemma length_join: "\<forall>x \<in> set xs. length x \<le> k \<Longrightarrow> length (join_with c xs) \<le> length xs * (k + 1)"
  by (induction c xs rule: join_with.induct) auto

definition member_size :: "string \<times> jval \<Rightarrow> nat" where
  "member_size m = length (fst m) + 3 + length (print_value (snd m))"

lemma length_object:
  assumes "\<forall>m \<in> set ms. member_size m \<le> k"
  shows "length (print_value (VObj ms)) \<le> length ms * (k + 1) + 2"
proof -
  let ?xs = "map (\<lambda>(k, v). QU # k @ QU # CHR '':'' # print_value v) ms"
  have "\<forall>x \<in> set ?xs. length x \<le> k" using assms by (auto simp: member_size_def)
  from length_join [OF this, of "CHR '',''"] show ?thesis by simp
qed

lemma member_size_string: "list_all is_ascii s \<Longrightarrow> member_size (k, json_string s) \<le> length k + 5 + 6 * length s"
  using length_quote_body [of s] by (simp add: member_size_def json_string_def)

lemma member_size_u32: "member_size (k, json_uint (unat (n :: u32))) \<le> length k + 13"
proof -
  have "unat n < 2 ^ LENGTH(32)" by (rule unsigned_less)
  then have "unat n < 10 ^ 10" by simp
  then have "length (dec (unat n)) \<le> 10" using dec_length [of 10 "unat n"] by simp
  then show ?thesis by (simp add: member_size_def json_uint_def)
qed

section \<open>Properties\<close>


text \<open>
  C28: When POST /v1/events answers 202 to a body, the body decodes to a valid request, the queue has one
  more event, for the organisation of the key, and the event that the worker decodes from the bytes of the
  queue is the one of the request: id, model, provider, instant with its zone, tokens, latency, status and
  tags, and every text that is not cut.
\<close>

theorem accepted_event_arrives:
  assumes "HandleEvent Publish now (decode_event body) js r w = (js', w')" and "rs_Status w' = 202"
    and "number_ok (fmt 0)" and "pf (fmt 0) = Some 0"
  shows "\<exists>req x data y. decode_event body = Some req \<and> valid_event now req
    \<and> js_queued js' = js_queued js @ [(OrgIDToUint64 (OrgIDFromContext (rq_Ctx r)), x)]
    \<and> Marshal fmt x = Some data \<and> Unmarshal pf data = Some y
    \<and> arrived (OrgIDToUint64 (OrgIDFromContext (rq_Ctx r))) req y"
  using HandleEvent_202 [OF assms(1,2)] built_arrives [OF decode_event_ok _ refl, where fmt = fmt and pf = pf] assms(3,4)
  by blast

definition sample_members :: "(string \<times> jval) list" where
  "sample_members =
     [(''idempotency_key'', json_string (er_IdempotencyKey sample_event)),
      (''timestamp'', json_string (er_Timestamp sample_event)), (''model'', json_string ''gpt-4o''),
      (''provider'', json_string ''openai''), (''prompt_tokens'', json_uint (unat (100 :: u32))),
      (''completion_tokens'', json_uint (unat (50 :: u32))), (''latency_ms'', json_uint (unat (800 :: u32))),
      (''status_code'', json_uint (unat (200 :: u32)))]"

lemma sample_body_decoded: "decode_event (print_value (VObj sample_members)) = Some sample_event"
proof -
  have a: "list_all is_ascii (er_IdempotencyKey sample_event)" "list_all is_ascii (er_Timestamp sample_event)"
    "list_all is_ascii ''gpt-4o''" "list_all is_ascii ''openai''"
    "length (er_IdempotencyKey sample_event) = 36" "length (er_Timestamp sample_event) = 20"
    by (simp_all add: sample_event_def is_ascii_def)
  have k: "plain_key k" if "k \<in> set event_fields" for k using that event_fields_plain by blast
  have "value_ok (VObj sample_members)" "depth_ok 4 (VObj sample_members)" "\<not> scalar (VObj sample_members)"
    using k [THEN plain_key_read(2)] event_field_names
    by (simp_all add: sample_members_def json_facts scalar_def numeral_eq_Suc)
  moreover have "length (print_value (VObj sample_members)) \<le> maxBodyBatch"
  proof -
    have s: "member_size (k, json_string s) \<le> 1000" if "list_all is_ascii s" "length s \<le> 100" "length k \<le> 20" for k s
      using member_size_string [OF that(1), of k] that(2,3) by simp
    have u: "member_size (k, json_uint (unat (n :: u32))) \<le> 1000" if "length k \<le> 20" for k n
      using member_size_u32 [of k n] that by simp
    have "\<forall>m \<in> set sample_members. member_size m \<le> 1000"
      unfolding sample_members_def list.set ball_simps
      by (intro conjI s u TrueI a) (simp_all add: a)
    moreover have "length sample_members = 8" by (simp add: sample_members_def)
    ultimately show ?thesis using length_object [of sample_members 1000] by (simp add: maxBodyBatch_def)
  qed
  ultimately have "decode_stream maxBodyBatch (print_value (VObj sample_members)) = Some (VObj sample_members)"
    by (rule decode_stream_print)
  moreover have "decode_object event_fields set_er (VObj sample_members) zero_request = Some sample_event"
  proof -
    note v = to_valid_ok [OF valid_ascii [OF a(1)]] to_valid_ok [OF valid_ascii [OF a(2)]]
      to_valid_ok [OF valid_ascii [OF a(3)]] to_valid_ok [OF valid_ascii [OF a(4)]]
    note u = u32_pointer_written [where n = 100, simplified] u32_pointer_written [where n = 50, simplified]
      u32_pointer_written [where n = 800, simplified] u32_pointer_written [where n = 200, simplified]
    show ?thesis
      unfolding decode_object_def sample_members_def
      by (simp add: er_member event_field_names set_er_def json_facts v u
          del: decode_members.simps(2)) (simp add: zero_request_def sample_event_def)
  qed
  ultimately show ?thesis by (simp add: decode_event_def)
qed

theorem accepted_event_arrives_witness:
  "\<exists>body (js' :: jetstream) x data y. js_queued js' = [(OrgIDToUint64 [], x)]
     \<and> Marshal zero_fmt x = Some data \<and> Unmarshal zero_parse data = Some y
     \<and> decode_event body = Some sample_event \<and> arrived (OrgIDToUint64 []) sample_event y"
proof -
  let ?js = "\<lparr>js_log = [], js_tries = 0, js_fails = \<lambda>_. False\<rparr>"
  obtain body where body: "decode_event body = Some sample_event" using sample_body_decoded by blast
  obtain js' w' where h: "HandleEvent Publish sample_now (decode_event body) ?js sample_request fresh_response = (js', w')"
    by fastforce
  have "valid_event sample_now sample_event"
  proof -
    have "uuidV7Regex (ToLower (er_IdempotencyKey sample_event))" by code_simp
    moreover have "case parse_RFC3339Nano (er_Timestamp sample_event) of None \<Rightarrow> False
        | Some t \<Rightarrow> t_ns t \<le> t_ns sample_now + 3600 * second" by code_simp
    moreover have "RuneCountInString ''gpt-4o'' \<le> 100" by code_simp
    ultimately show ?thesis
      by (auto simp: valid_event_def sample_event_def allowedProviders_def split: option.splits)
  qed
  then have "fst (ValidateEvent sample_now sample_event) = []" by (simp add: ValidateEvent_Nil)
  moreover have "marshals (buildProtoEvent sample_now org (snd (ValidateEvent sample_now sample_event)))" for org
    by (rule sample_built_marshals) simp
  ultimately have "rs_Status w' = 202"
    using h by (auto simp: body HandleEvent_def sample_request_def Publish_def js_Publish_def Let_def
        writeJSON_def case_prod_unfold SetHeader_def)
  from accepted_event_arrives [where fmt = zero_fmt and pf = zero_parse, OF h this zero_written(1) zero_written(2)]
  obtain x data y where "js_queued js' = js_queued ?js @ [(OrgIDToUint64 (OrgIDFromContext (rq_Ctx sample_request)), x)]"
    "Marshal zero_fmt x = Some data" "Unmarshal zero_parse data = Some y"
    "arrived (OrgIDToUint64 (OrgIDFromContext (rq_Ctx sample_request))) sample_event y"
    by (auto simp: body)
  moreover have "OrgIDFromContext (rq_Ctx sample_request) = []" "js_queued ?js = []"
    by (simp_all add: sample_request_def OrgIDFromContext_def empty_ctx_def js_queued_def)
  ultimately show ?thesis using body by (intro exI [of _ body]) auto
qed

end
