(* ===== verification/Traffic.thy ===== *)
theory Traffic
  imports Data_Generator Ingest_Body
begin

text \<open>
  The command \<open>cmd/trafficgen\<close>: it sends batches of generated events to the ingestion API at the rate
  of a scenario, and backs off when it is refused. A tick of its main loop is one step; the clock, the
  HTTP exchange (\<open>send\<close>, with the state of the server) and whether the context has ended are
  arguments. Printing statistics and the shutdown signals are left out.
\<close>

section \<open>The payload\<close>

record eventPayload =
  ep_IdempotencyKey :: string
  ep_Timestamp :: string
  ep_Model :: string
  ep_Provider :: string
  ep_PromptTokens :: u32
  ep_CompletionTokens :: u32
  ep_LatencyMs :: u32
  ep_StatusCode :: u32
  ep_Tags :: "string \<rightharpoonup> string"

definition toPayload :: "GenEvent \<Rightarrow> eventPayload" where
  "toPayload e =
     \<lparr>ep_IdempotencyKey = ge_EventID e, ep_Timestamp = Format_RFC3339Nano (ge_Timestamp e),
      ep_Model = ge_Model e, ep_Provider = ge_Provider e, ep_PromptTokens = ge_PromptTokens e,
      ep_CompletionTokens = ge_CompletionTokens e, ep_LatencyMs = ge_LatencyMs e,
      ep_StatusCode = ge_StatusCode e, ep_Tags = ge_Tags e\<rparr>"

text \<open>The body of a batch, as \<open>json.Marshal\<close> writes the type \<open>batchRequest\<close>.\<close>

definition payload_members :: "eventPayload \<Rightarrow> (string \<times> jval) list" where
  "payload_members p =
     [(''idempotency_key'', json_string (ep_IdempotencyKey p)), (''timestamp'', json_string (ep_Timestamp p)),
      (''model'', json_string (ep_Model p)), (''provider'', json_string (ep_Provider p)),
      (''prompt_tokens'', json_uint (unat (ep_PromptTokens p))),
      (''completion_tokens'', json_uint (unat (ep_CompletionTokens p))),
      (''latency_ms'', json_uint (unat (ep_LatencyMs p))), (''status_code'', json_uint (unat (ep_StatusCode p)))]
     @ omit_tags (Some (ep_Tags p))"

definition marshal_batch :: "eventPayload list \<Rightarrow> string" where
  "marshal_batch events = print_value (VObj [(''events'', VArr (map (\<lambda>p. VObj (payload_members p)) events))])"

text \<open>The request of a batch; \<open>marshal\<close>, the check of the URL and the exchange itself are arguments.\<close>

definition sendBatch ::
    "(eventPayload list \<Rightarrow> 'b option) \<Rightarrow> (string \<Rightarrow> bool) \<Rightarrow> ('s \<Rightarrow> string \<Rightarrow> (string \<times> string) list \<Rightarrow> 'b \<Rightarrow> 's \<times> int option)
     \<Rightarrow> string \<Rightarrow> 's \<Rightarrow> string \<Rightarrow> eventPayload list \<Rightarrow> 's \<times> (string + int)" where
  "sendBatch marshal valid_url client_do endpoint st apiKey events =
     (case marshal events of
        None \<Rightarrow> (st, Inl ''marshal'')
      | Some body \<Rightarrow>
          if \<not> valid_url endpoint then (st, Inl ''create request'')
          else (case client_do st endpoint
                       [(''Authorization'', ''Bearer '' @ apiKey), (''Content-Type'', ''application/json'')] body of
                  (st, None) \<Rightarrow> (st, Inl ''send'')
                | (st, Some code) \<Rightarrow> (st, Inr code)))"

section \<open>What the server decodes\<close>

text \<open>
  What the server decodes: the names of the members are those of \<open>EventRequest\<close>, the tags are omitted
  when there are none, and there is neither prompt nor response.
\<close>

definition decoded :: "eventPayload \<Rightarrow> EventRequest" where
  "decoded p =
     \<lparr>er_IdempotencyKey = ep_IdempotencyKey p, er_Timestamp = ep_Timestamp p, er_Model = ep_Model p,
      er_Provider = ep_Provider p, er_PromptTokens = Some (ep_PromptTokens p),
      er_CompletionTokens = Some (ep_CompletionTokens p), er_LatencyMs = Some (ep_LatencyMs p),
      er_StatusCode = Some (ep_StatusCode p),
      er_Tags = (if ep_Tags p = Map.empty then None else Some (tag_entries (ep_Tags p))),
      er_Prompt = None, er_Response = None\<rparr>"

definition payload_ok :: "eventPayload \<Rightarrow> bool" where
  "payload_ok p \<longleftrightarrow>
     valid_utf8 (ep_IdempotencyKey p) \<and> valid_utf8 (ep_Timestamp p) \<and> valid_utf8 (ep_Model p)
     \<and> valid_utf8 (ep_Provider p) \<and> tags_ok (Some (ep_Tags p))"

lemma er_tags_written:
  assumes "tags_ok (Some m)" "er_Tags x = None"
  shows "decode_members event_fields set_er (omit_tags (Some m)) x
     = Some (x\<lparr>er_Tags := if m = Map.empty then None else Some (tag_entries m)\<rparr>)"
proof (cases "m = Map.empty")
  case True
  have "x = x\<lparr>er_Tags := None\<rparr>" using assms(2) by (cases x) simp
  with True show ?thesis by (simp add: omit_tags_def)
next
  case False
  have "decode_tags (json_tags m) None = Some (Some m)"
    using decode_tags_written [of m] received_tags_valid [OF assms(1)] False
    by (simp add: received_tags_def)
  with False assms(2) show ?thesis
    by (simp add: omit_tags_def er_member event_field_names set_er_def del: decode_members.simps(2))
qed

lemma payload_read:
  assumes "payload_ok p"
  shows "decode_object event_fields set_er (VObj (payload_members p)) zero_request = Some (decoded p)"
  using assms
  by (simp add: decode_object_def payload_members_def payload_ok_def er_member event_field_names set_er_def json_facts
      to_valid_ok u32_pointer_written er_tags_written zero_request_def decoded_def del: decode_members.simps(2))

lemma payload_members_ok: "list_all (\<lambda>(k, v). plain_key k \<and> value_ok v \<and> depth_ok (Suc 0) v) (payload_members p)"
proof -
  have t: "plain_key ''tags''" using event_fields_plain event_field_names by blast
  show ?thesis
    using event_fields_plain event_field_names
    by (simp add: payload_members_def json_facts omit_tags_def json_tags_ok t)
qed

lemma payload_value_ok: "value_ok (VObj (payload_members p))" "depth_ok 2 (VObj (payload_members p))"
  using payload_members_ok [of p] plain_key_read(2) by (auto simp: list_all_iff numeral_2_eq_2)

text \<open>The server decodes from the body of a batch the payloads of the batch.\<close>

lemma elements_read:
  "list_all payload_ok ps \<Longrightarrow>
     decode_elements (decode_object event_fields set_er) zero_request (map (\<lambda>p. VObj (payload_members p)) ps) []
       = Some (map decoded ps)"
  by (induction ps) (simp_all add: payload_read)

lemma decode_marshal_batch:
  assumes "list_all payload_ok ps" "length (marshal_batch ps) \<le> maxBodyBatch"
  shows "decode_batch (marshal_batch ps) = Some (map decoded ps)"
proof -
  let ?v = "VObj [(''events'', VArr (map (\<lambda>p. VObj (payload_members p)) ps))]"
  have k: "plain_key ''events''" by (simp add: plain_key_def)
  have "value_ok ?v" "depth_ok 4 ?v" "\<not> scalar ?v"
    using payload_value_ok plain_key_read(2) [OF k] by (auto simp: scalar_def numeral_eq_Suc)
  from decode_stream_print [OF this] assms(2)
  have "decode_stream maxBodyBatch (marshal_batch ps) = Some ?v" by (simp only: marshal_batch_def)
  then show ?thesis
    using elements_read [OF assms(1)]
    by (simp add: decode_batch_def decode_object_def decode_members_field [OF k] decode_slice_def
        del: decode_members.simps(2))
qed

section \<open>The main loop\<close>

record traffic =
  tg_scenario :: scenario
  tg_gen_rng :: rng
  tg_scenario_rng :: rng
  tg_interval :: int
  tg_backoff :: int
  tg_sent :: int
  tg_ok :: int
  tg_errs :: int
  tg_err429 :: int
  tg_cost :: int
  tg_models :: "string \<rightharpoonup> int"

text \<open>
  The interval of the ticker. A conversion of infinity gives the least \<open>int64\<close> on amd64; like every
  interval that is not positive it makes the ticker panic, and so does the 0 of this model.
\<close>

definition tick_interval :: "int \<Rightarrow> f64 \<Rightarrow> int" where
  "tick_interval batchSize rps =
     int_of_f64 (fdiv (fmul (fl (of_int second)) (fl (of_int batchSize))) rps)"

definition count_model :: "(string \<rightharpoonup> int) \<Rightarrow> GenEvent \<Rightarrow> (string \<rightharpoonup> int)" where
  "count_model m e = m(ge_Model e \<mapsto> (case m (ge_Model e) of None \<Rightarrow> 0 | Some k \<Rightarrow> k) + 1)"

definition next_backoff :: "int \<Rightarrow> int" where
  "next_backoff b = min (b * 2 + second) (30 * second)"

text \<open>The batch of a tick; event \<open>i\<close> is stamped by its own reading of the clock.\<close>

definition traffic_events ::
    "libm \<Rightarrow> (u8 list \<Rightarrow> string) \<Rightarrow> Generator \<Rightarrow> (nat \<Rightarrow> gotime) \<Rightarrow> int \<Rightarrow> ScenarioParams
     \<Rightarrow> GenEvent list random" where
  "traffic_events lm us g clock batchSize params =
     traverse_list (\<lambda>i. generateEvent lm us g (UTC (clock i)) (Some params)) [0 ..< nat batchSize]"

text \<open>What the answer to a batch does to the counters and to the backoff.\<close>

definition after_send :: "bool \<Rightarrow> (string + int) \<Rightarrow> traffic \<Rightarrow> traffic" where
  "after_send ctx_done answer t =
     (case answer of
        Inl _ \<Rightarrow>
          if ctx_done then t\<lparr>tg_errs := tg_errs t + 1\<rparr>
          else t\<lparr>tg_errs := tg_errs t + 1, tg_backoff := next_backoff (tg_backoff t)\<rparr>
      | Inr st \<Rightarrow>
          if st = 429
          then t\<lparr>tg_err429 := tg_err429 t + 1, tg_errs := tg_errs t + 1,
                 tg_backoff := next_backoff (tg_backoff t)\<rparr>
          else if 400 \<le> st then t\<lparr>tg_errs := tg_errs t + 1\<rparr>
          else t\<lparr>tg_ok := tg_ok t + 1, tg_backoff := 0\<rparr>)"

text \<open>One tick; \<^const>\<open>None\<close> is the panic of a ticker that is reset to an interval that is not positive.\<close>

definition tick ::
    "libm \<Rightarrow> (u8 list \<Rightarrow> string) \<Rightarrow> ('s \<Rightarrow> string \<Rightarrow> eventPayload list \<Rightarrow> 's \<times> (string + int)) \<Rightarrow> Generator
     \<Rightarrow> f64 \<Rightarrow> int \<Rightarrow> string \<Rightarrow> int \<Rightarrow> (nat \<Rightarrow> gotime) \<Rightarrow> bool \<Rightarrow> 's \<Rightarrow> traffic \<Rightarrow> ('s \<times> traffic) option" where
  "tick lm us send g rps batchSize apiKey elapsed clock ctx_done st t =
     (let ((sc, params), scenario_rng) = run_state (Params (tg_scenario t) elapsed) (tg_scenario_rng t);
          newInterval = tick_interval batchSize (fmul rps (sp_RPSMultiplier params))
      in if newInterval \<le> 0 then None
         else
           let (events, gen_rng) = run_state (traffic_events lm us g clock batchSize params) (tg_gen_rng t);
               batchCost = foldl fadd 0 (map ge_CostUSD events);
               t = t\<lparr>tg_scenario := sc, tg_gen_rng := gen_rng, tg_scenario_rng := scenario_rng,
                     tg_interval := newInterval, tg_models := foldl count_model (tg_models t) events,
                     tg_sent := tg_sent t + batchSize,
                     tg_cost := tg_cost t + int_of_f64 (fmul batchCost 1000000)\<rparr>;
               (st, answer) = send st apiKey (map toPayload events)
           in Some (st, after_send ctx_done answer t))"

definition traffic_start :: "string \<Rightarrow> f64 \<Rightarrow> int \<Rightarrow> rng \<Rightarrow> rng \<Rightarrow> traffic option" where
  "traffic_start st rps batchSize gen_rng scenario_rng =
     (if tick_interval batchSize rps \<le> 0 then None
      else Some \<lparr>tg_scenario = NewScenario st, tg_gen_rng = gen_rng, tg_scenario_rng = scenario_rng,
                 tg_interval = tick_interval batchSize rps, tg_backoff = 0, tg_sent = 0, tg_ok = 0,
                 tg_errs = 0, tg_err429 = 0, tg_cost = 0, tg_models = Map.empty\<rparr>)"

text \<open>A run of the loop.\<close>

inductive traffic_run ::
    "libm \<Rightarrow> (u8 list \<Rightarrow> string) \<Rightarrow> ('s \<Rightarrow> string \<Rightarrow> eventPayload list \<Rightarrow> 's \<times> (string + int)) \<Rightarrow> Generator
     \<Rightarrow> f64 \<Rightarrow> int \<Rightarrow> string \<Rightarrow> nat \<Rightarrow> 's \<times> traffic \<Rightarrow> 's \<times> traffic \<Rightarrow> bool"
  for lm us send g rps batchSize apiKey where
  start: "traffic_run lm us send g rps batchSize apiKey 0 s s"
| ticked: "traffic_run lm us send g rps batchSize apiKey n s (st, t) \<Longrightarrow>
     tick lm us send g rps batchSize apiKey elapsed clock ctx_done st t = Some (st', t') \<Longrightarrow>
     traffic_run lm us send g rps batchSize apiKey (Suc n) s (st', t')"

section \<open>What a run counts\<close>

lemma tick_cases:
  assumes "tick lm us send g rps batchSize apiKey elapsed clock ctx_done st t = Some (st', t')"
  obtains t1 answer where "t' = after_send ctx_done answer t1" "tg_sent t1 = tg_sent t + batchSize"
    "tg_ok t1 = tg_ok t" "tg_errs t1 = tg_errs t" "tg_err429 t1 = tg_err429 t" "tg_backoff t1 = tg_backoff t"
  using assms by (auto simp: tick_def Let_def split: prod.splits if_splits)

text \<open>The waits a backoff can have: the partial sums of the doubling, cut at 30 seconds.\<close>

definition backoffs :: "int set" where
  "backoffs = {0, 1 * second, 3 * second, 7 * second, 15 * second, 30 * second}"

lemma next_backoff_closed: "b \<in> backoffs \<Longrightarrow> next_backoff b \<in> backoffs"
  by (auto simp: backoffs_def next_backoff_def)

definition accounts :: "int \<Rightarrow> nat \<Rightarrow> traffic \<Rightarrow> bool" where
  "accounts batchSize n t \<longleftrightarrow>
     tg_sent t = int n * batchSize \<and> tg_ok t + tg_errs t = int n \<and> 0 \<le> tg_ok t
     \<and> 0 \<le> tg_err429 t \<and> tg_err429 t \<le> tg_errs t \<and> tg_backoff t \<in> backoffs"

lemma after_send_accounts:
  assumes "accounts batchSize n t" "tg_sent t1 = tg_sent t + batchSize"
    "tg_ok t1 = tg_ok t" "tg_errs t1 = tg_errs t" "tg_err429 t1 = tg_err429 t" "tg_backoff t1 = tg_backoff t"
  shows "accounts batchSize (Suc n) (after_send ctx_done answer t1)"
  using assms next_backoff_closed [of "tg_backoff t"]
  by (cases answer) (auto simp: accounts_def after_send_def backoffs_def algebra_simps)

text \<open>
  After any number of ticks, with any answers of the server, the counters of the client add up: it
  has sent one batch for each tick, each counted as one success or one error, errors of rate limiting
  among the errors; and its backoff is 0, 1, 3, 7, 15 or 30 seconds.
\<close>

lemma traffic_accounts:
  assumes "traffic_start sc rps batchSize gen_rng scenario_rng = Some t"
    and "traffic_run lm us send g rps batchSize apiKey n (st, t) (st', t')"
  shows "tg_sent t' = int n * batchSize \<and> tg_ok t' + tg_errs t' = int n
    \<and> 0 \<le> tg_err429 t' \<and> tg_err429 t' \<le> tg_errs t' \<and> tg_backoff t' \<in> backoffs"
proof -
  have 0: "accounts batchSize 0 t"
    using assms(1) by (auto simp: traffic_start_def accounts_def backoffs_def split: if_splits)
  have "accounts batchSize n (snd s')" if "traffic_run lm us send g rps batchSize apiKey n s s'" "snd s = t" for s s'
    using that
  proof (induction rule: traffic_run.induct)
    case (start s)
    with 0 show ?case by simp
  next
    case (ticked n s st t elapsed clock ctx_done st' t')
    then have "accounts batchSize n t" by simp
    with ticked.hyps(2) show ?case by (auto elim!: tick_cases intro: after_send_accounts)
  qed
  from this [OF assms(2)] show ?thesis by (simp add: accounts_def)
qed

text \<open>Ten events every five seconds, and one tick that the server refuses.\<close>

definition sample_traffic :: traffic where
  "sample_traffic = \<lparr>tg_scenario = NewScenario ''normal'', tg_gen_rng = sample_rng, tg_scenario_rng = sample_rng,
     tg_interval = tick_interval 10 2, tg_backoff = 0, tg_sent = 0, tg_ok = 0, tg_errs = 0, tg_err429 = 0,
     tg_cost = 0, tg_models = Map.empty\<rparr>"

lemma sample_interval: "0 < tick_interval 10 2" "0 < tick_interval 10 (fmul 2 1)"
  by code_simp+

lemma sample_tick:
  "\<exists>t'. tick sample_libm canonical_uuid (\<lambda>st _ _. (st, Inr 429)) sample_generator 2 10 ''k'' 0 (\<lambda>_. zero_time)
      False () sample_traffic = Some ((), t')"
  using sample_interval(2)
  by (simp add: tick_def Params_def sample_traffic_def NewScenario_def normal_params_def Let_def case_prod_unfold)

section \<open>The server accepts what the client sends\<close>

lemma known_models:
  assumes "m \<in> set DefaultModelDistributions"
  shows "md_Model m \<noteq> []" "RuneCountInString (md_Model m) \<le> 100" "allowedProviders (md_Provider m)"
proof -
  show "md_Model m \<noteq> []" "allowedProviders (md_Provider m)"
    using assms by (auto simp: DefaultModelDistributions_def allowedProviders_def)
  have "length (md_Model m) \<le> 100" using assms by (auto simp: DefaultModelDistributions_def)
  with length_runes [of "md_Model m"] show "RuneCountInString (md_Model m) \<le> 100"
    by (simp add: RuneCountInString_def)
qed

lemma small_tags_valid:
  assumes "small_tags tags"
  shows "finite (dom tags)" "length (tag_entries tags) \<le> 20" "list_all valid_tag (tag_entries tags)"
proof -
  have sub: "dom tags \<subseteq> {''feature'', ''team'', ''environment''}" using assms by (simp add: small_tags_def)
  then show fin: "finite (dom tags)" by (rule finite_subset) simp
  have "card (dom tags) \<le> card {''feature'', ''team'', ''environment''}" by (rule card_mono [OF _ sub]) simp
  then show "length (tag_entries tags) \<le> 20" by (simp add: map_of_tag_entries(2) [OF fin])
  have key: "k \<noteq> [] \<and> length k \<le> 50 \<and> list_all tag_char k" if "k \<in> {''feature'', ''team'', ''environment''}" for k
  proof -
    have "list_all tag_char ''feature''" "list_all tag_char ''team''" "list_all tag_char ''environment''"
      by code_simp+
    with that show ?thesis by auto
  qed
  have "valid_tag (k, v)" if "tags k = Some v" for k v
  proof -
    have "k \<in> {''feature'', ''team'', ''environment''}" using sub that by blast
    moreover have "length v \<le> 14" using assms that by (auto simp: small_tags_def short_text_def ran_def)
    ultimately show ?thesis using key [of k] by (auto simp: valid_tag_def)
  qed
  then show "list_all valid_tag (tag_entries tags)"
    by (auto simp: list_all_iff map_of_tag_entries(3) [OF fin])
qed

text \<open>A generated event that is not more than an hour ahead of the server.\<close>

definition sendable :: "gotime \<Rightarrow> GenEvent \<Rightarrow> bool" where
  "sendable now e \<longleftrightarrow>
     t_off (ge_Timestamp e) = 0 \<and> 0 \<le> fst (civil (ge_Timestamp e)) \<and> fst (civil (ge_Timestamp e)) \<le> 9999
     \<and> t_ns (ge_Timestamp e) \<le> t_ns now + 3600 * second"

lemma parse_decoded:
  "sendable now e \<Longrightarrow> parse_RFC3339Nano (er_Timestamp (decoded (toPayload e))) = Some (ge_Timestamp e)"
  by (simp add: sendable_def decoded_def toPayload_def parse_Format_RFC3339Nano)

lemma decoded_valid:
  assumes "good_event g (set DefaultModelDistributions) ts e" "sendable now e"
  shows "valid_event now (decoded (toPayload e))"
proof -
  from assms(1) obtain m where m: "m \<in> set DefaultModelDistributions" "ge_Model e = md_Model m"
    "ge_Provider e = md_Provider m" by (auto simp: good_event_def)
  have "ge_StatusCode e \<in> {200, 400, 429, 500}" "small_tags (ge_Tags e)" "uuidV7Regex (ToLower (ge_EventID e))"
    using assms(1) by (simp_all add: good_event_def)
  with parse_decoded [OF assms(2)] known_models [OF m(1)] small_tags_valid [of "ge_Tags e"] assms(2) show ?thesis
    unfolding valid_event_def by (auto simp: decoded_def toPayload_def sendable_def m)
qed

lemma pred_Params:
  "pred_state (\<lambda>(sc', p). \<forall>m. sp_ModelOverride p = Some m \<longrightarrow> m \<in> set DefaultModelDistributions) (Params sc elapsed)"
proof -
  have n: "sp_ModelOverride normal_params = None" by (simp add: normal_params_def)
  have mem: "DefaultModelDistributions ! 0 \<in> set DefaultModelDistributions"
    "DefaultModelDistributions ! 6 \<in> set DefaultModelDistributions"
    by (rule nth_mem, simp add: DefaultModelDistributions_def)+
  have k: "\<forall>m. sp_ModelOverride (anomaly_kind ty) = Some m \<longrightarrow> m \<in> set DefaultModelDistributions" for ty
    using mem(2) by (simp add: anomaly_kind_def n)
  show ?thesis
  proof (cases sc)
    case NormalScenario
    then show ?thesis by (simp add: Params_def pred_return n)
  next
    case SpikeScenario
    then show ?thesis using mem(1) by (simp add: Params_def pred_return spike_Params_def Let_def n)
  next
    case (AnomalyScenario a)
    have "pred_state (\<lambda>(a', p). \<forall>m. sp_ModelOverride p = Some m \<longrightarrow> m \<in> set DefaultModelDistributions)
        (anomaly_Params a elapsed)"
      unfolding anomaly_Params_def
      by (intro pred_bind [OF pred_any] pred_if pred_return) (simp_all add: k n)
    then show ?thesis unfolding AnomalyScenario Params_def scenario.case
      by (rule pred_bind2) (simp add: pred_return)
  qed
qed

text \<open>The queued event carries what was generated.\<close>

definition carries :: "u64 \<Rightarrow> GenEvent \<Rightarrow> u64 \<times> LLMEvent \<Rightarrow> bool" where
  "carries org e q \<longleftrightarrow>
     fst q = org \<and> pb_OrgId (snd q) = org \<and> pb_EventId (snd q) = ge_EventID e
     \<and> pb_Timestamp (snd q) = ge_Timestamp e \<and> pb_Model (snd q) = ge_Model e \<and> pb_Provider (snd q) = ge_Provider e
     \<and> pb_PromptTokens (snd q) = ge_PromptTokens e \<and> pb_CompletionTokens (snd q) = ge_CompletionTokens e
     \<and> pb_TotalTokens (snd q) = ge_TotalTokens e \<and> pb_LatencyMs (snd q) = ge_LatencyMs e
     \<and> pb_StatusCode (snd q) = ge_StatusCode e \<and> pb_Tags (snd q) = Some (ge_Tags e)
     \<and> pb_S3Status (snd q) = S3Status_NONE"

lemma decoded_carries:
  assumes "good_event g (set DefaultModelDistributions) ts e" "sendable now e"
  shows "carries org e (org, buildProtoEvent now org (snd (ValidateEvent now (decoded (toPayload e)))))"
proof -
  have t: "small_tags (ge_Tags e)" "ge_TotalTokens e = ge_PromptTokens e + ge_CompletionTokens e"
    using assms(1) by (simp_all add: good_event_def)
  have d: "er_Prompt (decoded (toPayload e)) = None" "er_Response (decoded (toPayload e)) = None"
    by (simp_all add: decoded_def)
  have tags: "(case er_Tags (decoded (toPayload e)) of None \<Rightarrow> Map.empty | Some tags \<Rightarrow> map_of tags) = ge_Tags e"
    by (simp add: decoded_def toPayload_def map_of_tag_entries(1) [OF small_tags_valid(1) [OF t(1)]])
  show ?thesis
    unfolding carries_def buildProtoEvent_def Let_def
    using parse_decoded [OF assms(2)] tags
    by (simp add: d truncate_text_def) (simp add: decoded_def toPayload_def deref_def t(2))
qed

section \<open>The size of a batch\<close>

text \<open>Crude bounds are enough: 500 events stay far below the limit.\<close>

lemma tag_texts:
  assumes "small_tags m" "k \<in> dom m"
  shows "length k \<le> 11" "list_all is_ascii k" "short_text (the (m k))"
proof -
  have k: "k \<in> {''feature'', ''team'', ''environment''}" using assms by (auto simp: small_tags_def)
  then show "length k \<le> 11" by auto
  have "list_all is_ascii ''feature''" "list_all is_ascii ''team''" "list_all is_ascii ''environment''"
    by (simp_all add: is_ascii_def)
  with k show "list_all is_ascii k" by blast
  show "short_text (the (m k))" using assms by (auto simp: small_tags_def ran_def)
qed

lemma tags_size:
  assumes "small_tags m"
  shows "length (print_value (json_tags m)) \<le> 600"
proof -
  let ?ks = "sorted_list_of_set (dom m)"
  have sub: "dom m \<subseteq> {''feature'', ''team'', ''environment''}" using assms by (simp add: small_tags_def)
  then have fin: "finite (dom m)" by (rule finite_subset) simp
  have "card (dom m) \<le> card {''feature'', ''team'', ''environment''}" by (rule card_mono [OF _ sub]) simp
  then have n: "length ?ks \<le> 3" by simp
  have "member_size (quote_body k, json_string (the (m k))) \<le> 160" if "k \<in> dom m" for k
  proof -
    have "length (quote_body k) \<le> 66" using length_quote_body tag_texts(1,2) [OF assms that] by fastforce
    moreover have "list_all is_ascii (the (m k))" "length (the (m k)) \<le> 14"
      using tag_texts(3) [OF assms that] by (simp_all add: short_text_def)
    ultimately show ?thesis using member_size_string [of "the (m k)" "quote_body k"] by simp
  qed
  then have "\<forall>x \<in> set (map (\<lambda>k. (quote_body k, json_string (the (m k)))) ?ks). member_size x \<le> 160"
    using fin by simp
  from length_object [OF this] n show ?thesis by (simp add: json_tags_def)
qed

definition payload_small :: "eventPayload \<Rightarrow> bool" where
  "payload_small p \<longleftrightarrow>
     list_all (\<lambda>s. list_all is_ascii s \<and> length s \<le> 100)
       [ep_IdempotencyKey p, ep_Timestamp p, ep_Model p, ep_Provider p]
     \<and> small_tags (ep_Tags p)"

lemma payload_size:
  assumes "payload_small p"
  shows "length (print_value (VObj (payload_members p))) \<le> 9011"
proof -
  have s: "member_size (k, json_string s) \<le> 1000"
    if "list_all is_ascii s" "length s \<le> 100" "length k \<le> 20" for k s
    using member_size_string [OF that(1), of k] that(2,3) by simp
  have u: "member_size (k, json_uint (unat (n :: u32))) \<le> 1000" if "length k \<le> 20" for k n
    using member_size_u32 [of k n] that by simp
  have t: "member_size (''tags'', json_tags (ep_Tags p)) \<le> 1000"
    using tags_size [of "ep_Tags p"] assms by (simp add: payload_small_def member_size_def)
  have "\<forall>m \<in> set (payload_members p). member_size m \<le> 1000"
    using assms by (simp add: payload_members_def payload_small_def s u t omit_tags_def)
  moreover have "length (payload_members p) \<le> 9" by (simp add: payload_members_def omit_tags_def)
  ultimately show ?thesis using length_object [of "payload_members p" 1000] by fastforce
qed

lemma batch_size:
  assumes "list_all payload_small ps" "length ps \<le> 500"
  shows "length (marshal_batch ps) \<le> maxBodyBatch"
proof -
  let ?vs = "map print_value (map (\<lambda>p. VObj (payload_members p)) ps)"
  have "\<forall>x \<in> set ?vs. length x \<le> 9011"
    using assms(1) payload_size by (auto simp: list_all_iff simp del: print_value.simps)
  from length_join [OF this, of "CHR '',''"]
  have "length (join_with (CHR '','') ?vs) \<le> 500 * 9012" using assms(2) by (simp del: print_value.simps)
  then have "length (print_value (VArr (map (\<lambda>p. VObj (payload_members p)) ps))) \<le> 500 * 9012 + 2" by simp
  then have "\<forall>m \<in> set [(''events'', VArr (map (\<lambda>p. VObj (payload_members p)) ps))]. member_size m \<le> 500 * 9012 + 11"
    by (simp add: member_size_def)
  from length_object [OF this] show ?thesis by (simp add: marshal_batch_def maxBodyBatch_def del: print_value.simps)
qed

lemma time_text:
  assumes "t_off t = 0" "0 \<le> fst (civil t)" "fst (civil t) \<le> 9999"
  shows "list_all is_ascii (Format_RFC3339Nano t)" "length (Format_RFC3339Nano t) \<le> 100"
proof -
  have "is_ascii c" if "time_char c" for c using that by (auto simp: time_char_def is_digit_def is_ascii_def)
  then show "list_all is_ascii (Format_RFC3339Nano t)"
    using Format_RFC3339Nano_chars [of t] by (simp add: list_all_iff)
  obtain y m d where c: "civil t = (y, m, d)" by (cases "civil t") auto
  note r = civil_from_days_roundtrip [OF c [unfolded civil_def]]
  have d: "0 \<le> m" "m < 100" "0 \<le> d" "d < 100"
    using r(2-5) by (auto simp: days_in_def split: if_splits)
  have l: "length (pad0 4 (dec (nat y))) = 4" "length (pad0 2 (dec (nat m))) = 2" "length (pad0 2 (dec (nat d))) = 2"
    using assms(2,3) d by (simp_all add: c length_pad0_dec)
  have f: "length (Format_frac t) \<le> 10"
  proof -
    have "t_ns t mod second < 1000000000" "0 \<le> t_ns t mod second" by simp_all
    then have "length (pad0 9 (dec (nat (t_ns t mod second)))) = 9" by (simp add: length_pad0_dec)
    moreover have "length (trim_zeros s) \<le> length s" for s
      using length_dropWhile_le [of "\<lambda>c. c = CHR ''0''" "rev s"] by (simp add: trim_zeros_def)
    ultimately have "length (trim_zeros (pad0 9 (dec (nat (t_ns t mod second))))) \<le> 9" by metis
    then show ?thesis by (simp add: Format_frac_def Let_def)
  qed
  have w: "length (two_digits (u div 3600)) = 2" "length (two_digits (u mod 3600 div 60)) = 2" "length (two_digits (u mod 60)) = 2"
    if "0 \<le> u" "u < 86400" for u
  proof -
    have "u div 3600 \<le> 86399 div 3600" using that(2) by (intro zdiv_mono1) simp_all
    moreover have "u mod 3600 div 60 \<le> 3599 div 60"
      using pos_mod_bound [of 3600 u] by (intro zdiv_mono1) simp_all
    moreover have "u mod 60 < 60" "0 \<le> u mod 60" "0 \<le> u mod 3600 div 60" "0 \<le> u div 3600"
      using that(1) by (simp_all add: pos_imp_zdiv_nonneg_iff)
    ultimately have "0 \<le> u div 3600" "u div 3600 < 100" "0 \<le> u mod 3600 div 60" "u mod 3600 div 60 < 100"
      "0 \<le> u mod 60" "u mod 60 < 100" by simp_all
    then show "length (two_digits (u div 3600)) = 2" "length (two_digits (u mod 3600 div 60)) = 2"
      "length (two_digits (u mod 60)) = 2" by (simp_all only: length_two_digits)
  qed
  define u where "u = (t_ns t div second + t_off t) mod 86400"
  have "0 \<le> u" "u < 86400" unfolding u_def by simp_all
  note w = w [OF this]
  have "length (Format_clock t) \<le> 20"
    unfolding Format_clock_def Let_def u_def [symmetric]
    using assms(2) by (simp add: w l Format_year_def Format_month_def Format_day_def c)
  moreover have "length (Format_zone t) = 1" by (simp add: Format_zone_def assms(1))
  ultimately show "length (Format_RFC3339Nano t) \<le> 100"
    using f by (simp add: Format_RFC3339Nano_def)
qed

lemma default_texts:
  "m \<in> set DefaultModelDistributions \<Longrightarrow>
     list_all is_ascii (md_Model m) \<and> length (md_Model m) \<le> 100
     \<and> list_all is_ascii (md_Provider m) \<and> length (md_Provider m) \<le> 100"
proof -
  have "list_all (\<lambda>m. list_all is_ascii (md_Model m) \<and> length (md_Model m) \<le> 100
     \<and> list_all is_ascii (md_Provider m) \<and> length (md_Provider m) \<le> 100) DefaultModelDistributions"
    by code_simp
  then show "m \<in> set DefaultModelDistributions \<Longrightarrow> ?thesis" by (simp add: list_all_iff)
qed

lemma uuid_text:
  assumes "uuidV7Regex (ToLower s)"
  shows "list_all is_ascii s" "length s \<le> 100"
proof -
  show "length s \<le> 100" using assms by (simp add: uuidV7Regex_def ToLower_def)
  let ?t = "ToLower s"
  have h: "is_ascii c" if "is_lower_hex c" for c
    using that by (auto simp: is_lower_hex_def is_digit_def is_ascii_def)
  have run: "is_ascii (?t ! j)" if "hex_run ?t i n" "i \<le> j" "j < i + n" "j < length ?t" for i n j
  proof -
    have "take n (drop i ?t) ! (j - i) = ?t ! j" "j - i < length (take n (drop i ?t))" using that by auto
    then have "?t ! j \<in> set (take n (drop i ?t))" by (metis nth_mem)
    then show ?thesis using that(1) h by (simp add: hex_run_def list_all_iff)
  qed
  have d: "is_ascii (CHR ''-'')" "is_ascii (CHR ''7'')" by (simp_all add: is_ascii_def)
  have len: "length ?t = 36" using assms by (simp add: uuidV7Regex_def)
  have "is_ascii (?t ! j)" if "j < 36" for j
  proof -
    have "j < 8 \<or> j = 8 \<or> 9 \<le> j \<and> j < 13 \<or> j = 13 \<or> j = 14 \<or> 15 \<le> j \<and> j < 18 \<or> j = 18
      \<or> 19 \<le> j \<and> j < 23 \<or> j = 23 \<or> 24 \<le> j" by auto
    then show ?thesis
      by (elim disjE conjE) (use assms run [of 0 8] run [of 9 4] run [of 15 3] run [of 19 4] run [of 24 12] len that d in
        \<open>simp_all add: uuidV7Regex_def\<close>)
  qed
  then have "list_all is_ascii ?t" using len by (simp add: list_all_length)
  moreover have "is_ascii c" if "is_ascii (lower_char c)" for c
    using that by (auto simp: lower_char_def is_ascii_def Let_def split: if_splits)
  ultimately show "list_all is_ascii s" by (auto simp: ToLower_def list_all_iff)
qed

lemma good_payload:
  assumes "good_event g (set DefaultModelDistributions) ts e" "sendable now e"
  shows "payload_small (toPayload e)" "payload_ok (toPayload e)"
proof -
  from assms(1) obtain m where m: "m \<in> set DefaultModelDistributions" "ge_Model e = md_Model m"
    "ge_Provider e = md_Provider m" by (auto simp: good_event_def)
  have tags: "small_tags (ge_Tags e)" and id: "uuidV7Regex (ToLower (ge_EventID e))"
    using assms(1) by (simp_all add: good_event_def)
  have t: "list_all is_ascii (Format_RFC3339Nano (ge_Timestamp e))" "length (Format_RFC3339Nano (ge_Timestamp e)) \<le> 100"
    using time_text assms(2) by (auto simp: sendable_def)
  show s: "payload_small (toPayload e)"
    using default_texts [OF m(1)] tags uuid_text [OF id] t by (simp add: payload_small_def toPayload_def m)
  have "tags_ok (Some (ge_Tags e))"
    using tag_texts [OF tags] small_tags_valid(1) [OF tags] by (simp add: tags_ok_def valid_ascii short_text_def)
  with s show "payload_ok (toPayload e)"
    by (simp add: payload_ok_def payload_small_def valid_ascii) (simp add: toPayload_def)
qed

lemma built_marshals:
  assumes "sendable now e" "time_marshals (UTC now)"
  shows "marshals (buildProtoEvent now org (snd (ValidateEvent now (decoded (toPayload e)))))"
  using parse_decoded [OF assms(1)] assms
  by (simp add: marshals_def buildProtoEvent_def Let_def time_marshals_def sendable_def UTC_def)

definition on_time :: "gotime \<Rightarrow> gotime \<Rightarrow> bool" where
  "on_time now t \<longleftrightarrow>
     0 \<le> fst (civil (UTC t)) \<and> fst (civil (UTC t)) \<le> 9999 \<and> t_ns t \<le> t_ns now + 3600 * second"

lemma pred_traffic_events:
  assumes "good_generator g" "prints_uuids us"
    and "\<forall>m. sp_ModelOverride params = Some m \<longrightarrow> m \<in> set DefaultModelDistributions"
    and "\<forall>i < nat n. on_time now (clock i)"
  shows "pred_state (\<lambda>es. length es = nat n \<and>
      list_all (\<lambda>e. sendable now e \<and> (\<exists>ts. good_event g (set DefaultModelDistributions) ts e)) es)
    (traffic_events lm us g clock n params)"
proof -
  have m: "set DefaultModelDistributions \<union> {m. \<exists>p. Some params = Some p \<and> sp_ModelOverride p = Some m}
      = set DefaultModelDistributions" using assms(3) by auto
  have ev: "pred_state (\<lambda>e. sendable now e \<and> (\<exists>ts. good_event g (set DefaultModelDistributions) ts e))
      (generateEvent lm us g (UTC (clock i)) (Some params))" if "i \<in> set [0 ..< nat n]" for i
  proof (rule pred_mono [OF pred_generateEvent [OF assms(1,2), of "Some params", unfolded m]])
    fix e
    assume e: "good_event g (set DefaultModelDistributions) (UTC (clock i)) e"
    moreover have "on_time now (clock i)" using assms(4) that by simp
    ultimately show "sendable now e \<and> (\<exists>ts. good_event g (set DefaultModelDistributions) ts e)"
      by (auto simp: sendable_def on_time_def UTC_def good_event_def)
  qed
  have "pred_state (\<lambda>es. length es = length [0 ..< nat n] \<and>
      list_all (\<lambda>e. sendable now e \<and> (\<exists>ts. good_event g (set DefaultModelDistributions) ts e)) es)
    (traverse_list (\<lambda>i. generateEvent lm us g (UTC (clock i)) (Some params)) [0 ..< nat n])"
    by (rule pred_traverse) (rule ev)
  then show ?thesis by (simp add: traffic_events_def)
qed

text \<open>
  C27: The client and the server agree: in every scenario, a batch of 1 to 500 events generated while the
  clock of the client is at most an hour ahead of the server's is within the limit for bodies, is decoded, and is queued
  whole and in order while no publication fails and the clock of the server shows a year that can be encoded, and every queued event carries the values of the generated one, for the
  organisation of the key.
\<close>

theorem traffic_batch_queued:
  assumes g: "good_generator g" "prints_uuids us"
    and params: "run_state (Params sc elapsed) rng0 = ((sc', params), rng1)"
    and events: "run_state (traffic_events lm us g clock n params) rng = (events, rng')"
    and n: "0 < n" "n \<le> 500" and time: "\<forall>i < nat n. on_time now (clock i)"
    and server: "\<forall>k. \<not> js_fails js k" "rq_Method r = ''POST''" "time_marshals (UTC now)"
  shows "\<exists>new. js_queued (fst (HandleBatch Publish now (decode_batch (marshal_batch (map toPayload events))) js r w))
      = js_queued js @ new
    \<and> list_all2 (carries (OrgIDToUint64 (OrgIDFromContext (rq_Ctx r)))) events new"
proof -
  let ?org = "OrgIDToUint64 (OrgIDFromContext (rq_Ctx r))" and ?reqs = "map (decoded \<circ> toPayload) events"
  have "\<forall>m. sp_ModelOverride params = Some m \<longrightarrow> m \<in> set DefaultModelDistributions"
    using pred_Params [of sc elapsed, unfolded pred_state_iff, rule_format, of rng0] params by simp
  from pred_traffic_events [OF g this time, of lm, unfolded pred_state_iff, rule_format, of rng] events have
    es: "length events = nat n" "\<And>e. e \<in> set events \<Longrightarrow>
        sendable now e \<and> (\<exists>ts. good_event g (set DefaultModelDistributions) ts e)"
    by (auto simp: list_all_iff)
  have "list_all payload_small (map toPayload events)" "list_all payload_ok (map toPayload events)"
    using es(2) good_payload by (fastforce simp: list_all_iff)+
  then have dec: "decode_batch (marshal_batch (map toPayload events)) = Some ?reqs"
    using es(1) n by (simp add: decode_marshal_batch batch_size)
  have "ValidateBatch ?reqs = []" using es(1) n by (simp add: ValidateBatch_def maxBatchSize_def)
  note batch = this
  have "filter (\<lambda>e. valid_event now e) ?reqs = ?reqs"
    using es(2) decoded_valid by (fastforce simp: filter_id_conv)
  then have "built now ?org ?reqs
      = map (\<lambda>e. (?org, buildProtoEvent now ?org (snd (ValidateEvent now (decoded (toPayload e)))))) events"
    by (simp add: built_def)
  moreover from this have "\<forall>x \<in> set (built now ?org ?reqs). marshals (snd x)"
    using es(2) server(3) by (auto simp: built_marshals)
  note HandleBatch_queues_all_valid [OF server(1,2) batch this, of w]
  moreover have "list_all2 (carries ?org) events
      (map (\<lambda>e. (?org, buildProtoEvent now ?org (snd (ValidateEvent now (decoded (toPayload e)))))) events)"
    unfolding list_all2_map2 list.rel_refl_strong
    using es(2) decoded_carries by (fastforce intro!: list.rel_refl_strong)
  ultimately show ?thesis unfolding dec by auto
qed

lemma sample_marshals: "time_marshals (UTC sample_now)"
  unfolding time_marshals_def by code_simp

lemma sample_on_time: "on_time sample_now sample_now"
  unfolding on_time_def by code_simp

theorem traffic_batch_queued_witness:
  "\<exists>(js :: jetstream) events new. length events = 10
    \<and> js_queued (fst (HandleBatch Publish sample_now (decode_batch (marshal_batch (map toPayload events))) js
         sample_request fresh_response)) = js_queued js @ new
    \<and> list_all2 (carries (OrgIDToUint64 [])) events new"
proof -
  let ?js = "\<lparr>js_log = [], js_tries = 0, js_fails = \<lambda>_. False\<rparr>"
  have p: "run_state (Params NormalScenario 0) sample_rng = ((NormalScenario, normal_params), sample_rng)"
    by (simp add: Params_def)
  obtain events rng' where e: "run_state (traffic_events sample_libm canonical_uuid sample_generator
      (\<lambda>_. sample_now) 10 normal_params) sample_rng = (events, rng')" by fastforce
  have uu: "prints_uuids canonical_uuid" by (simp add: prints_uuids_def)
  have "\<exists>new. js_queued (fst (HandleBatch Publish sample_now (decode_batch (marshal_batch (map toPayload events))) ?js
         sample_request fresh_response)) = js_queued ?js @ new
    \<and> list_all2 (carries (OrgIDToUint64 (OrgIDFromContext (rq_Ctx sample_request)))) events new"
    by (rule traffic_batch_queued [OF sample_generator_good uu p e])
      (simp_all add: sample_on_time sample_request_def sample_marshals)
  moreover have "length events = 10"
    using pred_traffic_events [OF sample_generator_good uu, of normal_params 10 sample_now "\<lambda>_. sample_now"
        sample_libm, unfolded pred_state_iff, rule_format, of sample_rng] e sample_on_time
    by (simp add: normal_params_def)
  ultimately show ?thesis by (auto simp: sample_request_def OrgIDFromContext_def empty_ctx_def)
qed

end
