(* ===== verification/Auth_JSON.thy ===== *)
theory Auth_JSON
  imports Auth Go_JSON
begin

text \<open>
  The JSON form of the claims of a session token, as \<open>encoding/json\<close> writes and reads the type
  \<open>JWTClaims\<close> of \<open>jwt.go\<close>: the arguments \<open>marshal\<close> and \<open>unmarshal\<close> that \<^const>\<open>SignJWT\<close> and
  \<^const>\<open>VerifyJWT\<close> have in the program.
\<close>

definition claim_fields :: "string list" where
  "claim_fields = [''sub'', ''org'', ''org_numeric'', ''role'', ''tier'', ''iat'', ''exp'']"

definition claim_members :: "JWTClaims \<Rightarrow> (string \<times> jval) list" where
  "claim_members c =
     [(''sub'', json_string (cl_Sub c)), (''org'', json_string (cl_Org c)),
      (''org_numeric'', json_uint (unat (cl_OrgNumeric c))), (''role'', json_string (cl_Role c)),
      (''tier'', json_string (cl_Tier c)), (''iat'', json_int (cl_Iat c)), (''exp'', json_int (cl_Exp c))]"

definition marshal_claims :: "JWTClaims \<Rightarrow> string" where
  "marshal_claims c = print_value (VObj (claim_members c))"

definition set_claim :: "string \<Rightarrow> jval \<Rightarrow> JWTClaims \<Rightarrow> JWTClaims option" where
  "set_claim f v c =
     (if f = ''sub'' then map_option (\<lambda>s. c\<lparr>cl_Sub := s\<rparr>) (decode_string v (cl_Sub c))
      else if f = ''org'' then map_option (\<lambda>s. c\<lparr>cl_Org := s\<rparr>) (decode_string v (cl_Org c))
      else if f = ''org_numeric''
      then map_option (\<lambda>n. c\<lparr>cl_OrgNumeric := of_nat n\<rparr>) (decode_uint 64 v (unat (cl_OrgNumeric c)))
      else if f = ''role'' then map_option (\<lambda>s. c\<lparr>cl_Role := s\<rparr>) (decode_string v (cl_Role c))
      else if f = ''tier'' then map_option (\<lambda>s. c\<lparr>cl_Tier := s\<rparr>) (decode_string v (cl_Tier c))
      else if f = ''iat'' then map_option (\<lambda>i. c\<lparr>cl_Iat := i\<rparr>) (decode_int 64 v (cl_Iat c))
      else if f = ''exp'' then map_option (\<lambda>i. c\<lparr>cl_Exp := i\<rparr>) (decode_int 64 v (cl_Exp c))
      else None)"

definition no_claims :: JWTClaims where
  "no_claims =
     \<lparr>cl_Sub = [], cl_Org = [], cl_OrgNumeric = 0, cl_Role = [], cl_Tier = [], cl_Iat = 0, cl_Exp = 0\<rparr>"

definition unmarshal_claims :: "string \<Rightarrow> JWTClaims option" where
  "unmarshal_claims = decode_struct claim_fields set_claim no_claims"

section \<open>The claims are read back\<close>

definition int64_range :: "int \<Rightarrow> bool" where
  "int64_range i \<longleftrightarrow> - (2 ^ 63) \<le> i \<and> i < 2 ^ 63"

lemma claim_fields_plain: "\<forall>k \<in> set claim_fields. plain_key k"
  by (simp add: claim_fields_def plain_key_def)

lemma claim_field_names:
  "''sub'' \<in> set claim_fields" "''org'' \<in> set claim_fields" "''org_numeric'' \<in> set claim_fields"
  "''role'' \<in> set claim_fields" "''tier'' \<in> set claim_fields" "''iat'' \<in> set claim_fields"
  "''exp'' \<in> set claim_fields"
  by (simp_all add: claim_fields_def)

lemma claim_member:
  assumes "k \<in> set claim_fields"
  shows "decode_members claim_fields set_claim ((k, v) # ms) c
     = (case set_claim k v c of None \<Rightarrow> None | Some c \<Rightarrow> decode_members claim_fields set_claim ms c)"
  using assms claim_fields_plain by (intro decode_members_field) auto

lemma claims_read:
  assumes "int64_range (cl_Iat c)" "int64_range (cl_Exp c)"
  shows "unmarshal_claims (marshal_claims c)
    = Some (c\<lparr>cl_Sub := to_valid (cl_Sub c), cl_Org := to_valid (cl_Org c), cl_Role := to_valid (cl_Role c),
             cl_Tier := to_valid (cl_Tier c)\<rparr>)"
proof -
  have n: "unat (cl_OrgNumeric c) < 2 ^ LENGTH(64)" by (rule unsigned_less)
  have u: "decode_uint 64 (json_uint (unat (cl_OrgNumeric c))) old = Some (unat (cl_OrgNumeric c))" for old
    using n by (simp add: json_facts)
  have i: "decode_int 64 (json_int j) old = Some j" if "int64_range j" for j old
    using that by (simp add: json_facts int64_range_def)
  have "\<forall>(k, v) \<in> set (claim_members c). plain_key k \<and> value_ok v \<and> depth_ok 1 v"
    using claim_fields_plain claim_field_names by (simp add: claim_members_def json_facts)
  note decode_struct_print [OF this, of claim_fields set_claim no_claims]
  moreover have "decode_members claim_fields set_claim (claim_members c) no_claims
      = Some (c\<lparr>cl_Sub := to_valid (cl_Sub c), cl_Org := to_valid (cl_Org c), cl_Role := to_valid (cl_Role c),
             cl_Tier := to_valid (cl_Tier c)\<rparr>)"
    unfolding claim_members_def
    by (simp add: claim_member claim_field_names set_claim_def u i [OF assms(1)] i [OF assms(2)] json_facts
        no_claims_def del: decode_members.simps(2))
  ultimately show ?thesis by (simp only: unmarshal_claims_def marshal_claims_def)
qed

section \<open>Properties\<close>

text \<open>
  C17: A token that \<open>SignJWT\<close> makes is accepted by \<open>VerifyJWT\<close> under the same secret, with the
  claims it was made of, exactly as long as it has a subject and an organisation and the clock
  has not passed its expiry; otherwise the error says which of the two failed.
\<close>

theorem JWT_roundtrip:
  assumes "int64_range (cl_Iat (fill_times now c))" "int64_range (cl_Exp (fill_times now c))"
    and "valid_utf8 (cl_Sub c)" "valid_utf8 (cl_Org c)" "valid_utf8 (cl_Role c)" "valid_utf8 (cl_Tier c)"
  shows "VerifyJWT unmarshal_claims now' (SignJWT marshal_claims now c secret) secret =
     (if cl_Sub c = [] \<or> cl_Org c = [] then Inl ErrTokenInvalid
      else if cl_Exp (fill_times now c) < now' then Inl ErrTokenExpired
      else Inr (fill_times now c))"
proof (rule VerifyJWT_SignJWT)
  show "unmarshal_claims (marshal_claims (fill_times now c)) = Some (fill_times now c)"
    using claims_read [OF assms(1,2)] assms(3-6)
    by (cases c) (simp add: fill_times_def valid_utf8_def)
qed

definition sample_claims :: JWTClaims where
  "sample_claims =
     \<lparr>cl_Sub = ''u'', cl_Org = ''o'', cl_OrgNumeric = 7, cl_Role = ''owner'', cl_Tier = ''free'',
      cl_Iat = 0, cl_Exp = 0\<rparr>"

theorem JWT_roundtrip_witness:
  "VerifyJWT unmarshal_claims 1000 (SignJWT marshal_claims 500 sample_claims ''k'') ''k''
     = Inr (sample_claims\<lparr>cl_Iat := 500, cl_Exp := 1400\<rparr>)
   \<and> VerifyJWT unmarshal_claims 2000 (SignJWT marshal_claims 500 sample_claims ''k'') ''k'' = Inl ErrTokenExpired"
proof -
  have f: "fill_times 500 sample_claims = sample_claims\<lparr>cl_Iat := 500, cl_Exp := 1400\<rparr>"
    by (simp add: fill_times_def sample_claims_def DefaultJWTExpiry_def)
  have v: "valid_utf8 s" if "list_all is_ascii s" for s using valid_ascii [OF that] .
  have t: "VerifyJWT unmarshal_claims now' (SignJWT marshal_claims 500 sample_claims ''k'') ''k'' =
     (if cl_Sub sample_claims = [] \<or> cl_Org sample_claims = [] then Inl ErrTokenInvalid
      else if cl_Exp (fill_times 500 sample_claims) < now' then Inl ErrTokenExpired
      else Inr (fill_times 500 sample_claims))" for now'
    by (rule JWT_roundtrip) (simp_all add: f int64_range_def, simp_all add: sample_claims_def v is_ascii_def)
  show ?thesis unfolding t f by (simp add: sample_claims_def)
qed

end
