(* ===== verification/Worker_Shutdown.thy ===== *)
theory Worker_Shutdown
  imports Pipeline
begin

text \<open>
  The worker as a process: the goroutines that \<open>Worker.Start\<close> launches and the order in which it waits for
  them at the end (\<open>worker.go\<close>, with the loops of \<open>batchwriter.go\<close> and \<open>s3uploader.go\<close>). A step is one
  action of one goroutine; the process ends when \<open>Start\<close> has returned, for \<open>main\<close> then exits. A flush, an upload's
  end and a reconciliation are one step each (flushes that overlap are the subject of \<open>Click_Store\<close>), and
  which of the steps succeed is decided by the failures that the stores have in their state.
\<close>

section \<open>The process\<close>

text \<open>Where the goroutine of \<open>Start\<close> is, with the error that it will return.\<close>

datatype main_phase =
    Selecting
  | Waiting "string option"
  | Draining "string option"
  | Returned "string option"

text \<open>
  The goroutine of \<open>processUploads\<close>: between two requests, with a request that it has taken from the
  channel, within \<open>doUpload\<close>, where the wait group counts it, and after its end.
\<close>

datatype upload_phase = Idle | Taken Event | Uploading Event | Stopped

record process =
  wp_worker :: worker
  wp_store :: "s3store \<times> clickhouse"
  wp_acked :: "nat list"
  wp_cancelled :: bool
  wp_flush_loop :: bool
  wp_consumers :: nat
  wp_errors :: "string option list"
  wp_upload :: upload_phase
  wp_main :: main_phase

text \<open>\<open>Start\<close> after its goroutines are launched: \<open>workerCount\<close> consumers, the flush loop, the uploader.\<close>

definition Start_process :: "nat \<Rightarrow> worker \<Rightarrow> s3store \<times> clickhouse \<Rightarrow> process" where
  "Start_process workerCount w st =
     \<lparr>wp_worker = w, wp_store = st, wp_acked = [], wp_cancelled = False, wp_flush_loop = True,
      wp_consumers = workerCount, wp_errors = [], wp_upload = Idle, wp_main = Selecting\<rparr>"

definition running :: "process \<Rightarrow> bool" where
  "running p \<longleftrightarrow> (\<forall>e. wp_main p \<noteq> Returned e)"

text \<open>\<open>Flush\<close> of the batch writer, with the acknowledgements it sends.\<close>

definition process_flush :: "(string \<Rightarrow> string option) \<Rightarrow> gotime \<Rightarrow> process \<Rightarrow> process" where
  "process_flush parse now p =
     (case Flush (InsertEvents parse) now (snd (wp_store p)) (wk_batch (wp_worker p)) of
        (ch, bw, acked) \<Rightarrow>
          p\<lparr>wp_store := (fst (wp_store p), ch), wp_worker := (wp_worker p)\<lparr>wk_batch := bw\<rparr>,
            wp_acked := wp_acked p @ acked\<rparr>)"

text \<open>
  A consumer ends with the result that it puts into \<open>errCh\<close>. The flush loop flushes at each tick, and once
  more when the context is cancelled. \<open>Start\<close> leaves its \<open>select\<close> when the context is cancelled or a consumer
  has ended, waits for the flush loop, flushes, and waits for the upload that is counted. The uploader takes
  requests as long as there are any, and leaves when the context is cancelled and there are none.
\<close>

inductive process_step ::
    "(string \<Rightarrow> string option) \<Rightarrow> (s3store \<Rightarrow> string \<Rightarrow> s3Payload \<Rightarrow> s3store \<times> unit result) \<Rightarrow> process \<Rightarrow> process \<Rightarrow> bool"
  for parse upload where
  cancel: "running p \<Longrightarrow> process_step parse upload p (p\<lparr>wp_cancelled := True\<rparr>)"
| consume: "running p \<Longrightarrow> 0 < wp_consumers p \<Longrightarrow>
     process_step parse upload p (p\<lparr>wp_worker := fst (handleMessage now (wp_worker p) event ack)\<rparr>)"
| flush_triggered: "running p \<Longrightarrow> process_step parse upload p (process_flush parse now p)"
| consumer_ends: "running p \<Longrightarrow> wp_consumers p = Suc k \<Longrightarrow>
     process_step parse upload p (p\<lparr>wp_consumers := k, wp_errors := wp_errors p @ [err]\<rparr>)"
| flush_tick: "running p \<Longrightarrow> wp_flush_loop p \<Longrightarrow> process_step parse upload p (process_flush parse now p)"
| flush_loop_ends: "running p \<Longrightarrow> wp_flush_loop p \<Longrightarrow> wp_cancelled p \<Longrightarrow>
     process_step parse upload p ((process_flush parse now p)\<lparr>wp_flush_loop := False\<rparr>)"
| upload_take: "running p \<Longrightarrow> wp_upload p = Idle \<Longrightarrow> wk_uploadCh (wp_worker p) = e # es \<Longrightarrow>
     process_step parse upload p
       (p\<lparr>wp_worker := (wp_worker p)\<lparr>wk_uploadCh := es\<rparr>, wp_upload := Taken e\<rparr>)"
| upload_count: "running p \<Longrightarrow> wp_upload p = Taken e \<Longrightarrow>
     process_step parse upload p (p\<lparr>wp_upload := Uploading e\<rparr>)"
| upload_end: "running p \<Longrightarrow> wp_upload p = Uploading e \<Longrightarrow>
     process_step parse upload p
       (p\<lparr>wp_store := fst (uploadEvent upload now (wp_store p) e), wp_upload := Idle\<rparr>)"
| upload_stops: "running p \<Longrightarrow> wp_cancelled p \<Longrightarrow> wp_upload p = Idle \<Longrightarrow> wk_uploadCh (wp_worker p) = [] \<Longrightarrow>
     process_step parse upload p (p\<lparr>wp_upload := Stopped\<rparr>)"
| reconcile_tick: "running p \<Longrightarrow> \<not> wp_cancelled p \<Longrightarrow>
     process_step parse upload p (p\<lparr>wp_store := reconcile upload now (wp_store p)\<rparr>)"
| refresh_prices: "running p \<Longrightarrow> process_step parse upload p
     (p\<lparr>wp_worker := (wp_worker p)\<lparr>wk_prices := fst (refresh allPrices (wk_prices (wp_worker p)))\<rparr>\<rparr>)"
| main_cancelled: "wp_main p = Selecting \<Longrightarrow> wp_cancelled p \<Longrightarrow>
     process_step parse upload p (p\<lparr>wp_main := Waiting None\<rparr>)"
| main_error: "wp_main p = Selecting \<Longrightarrow> wp_errors p = err # errs \<Longrightarrow>
     process_step parse upload p
       (p\<lparr>wp_errors := errs, wp_main := Waiting (if wp_cancelled p then None else err)\<rparr>)"
| main_waited: "wp_main p = Waiting err \<Longrightarrow> \<not> wp_flush_loop p \<Longrightarrow>
     process_step parse upload p ((process_flush parse now p)\<lparr>wp_main := Draining err\<rparr>)"
| main_drained: "wp_main p = Draining err \<Longrightarrow> (\<forall>e. wp_upload p \<noteq> Uploading e) \<Longrightarrow>
     process_step parse upload p (p\<lparr>wp_main := Returned err\<rparr>)"

lemma process_flush_simps [simp]:
  "wp_cancelled (process_flush parse now p) = wp_cancelled p" "wp_flush_loop (process_flush parse now p) = wp_flush_loop p"
  "wp_main (process_flush parse now p) = wp_main p" "wp_consumers (process_flush parse now p) = wp_consumers p"
  "wp_errors (process_flush parse now p) = wp_errors p" "wp_upload (process_flush parse now p) = wp_upload p"
  "fst (wp_store (process_flush parse now p)) = fst (wp_store p)"
  "wk_uploadCh (wp_worker (process_flush parse now p)) = wk_uploadCh (wp_worker p)"
  by (simp_all add: process_flush_def split: prod.split)

section \<open>Invariants\<close>

text \<open>
  The flush loop ends only after the cancellation, and \<open>Start\<close> passes its wait only after the flush loop.
\<close>

definition process_inv :: "process \<Rightarrow> bool" where
  "process_inv p \<longleftrightarrow>
     (wp_flush_loop p \<or> wp_cancelled p)
     \<and> (wp_flush_loop p \<longrightarrow> wp_main p = Selecting \<or> (\<exists>e. wp_main p = Waiting e))"

lemma process_step_inv: "process_step parse upload p p' \<Longrightarrow> process_inv p \<Longrightarrow> process_inv p'"
  by (induction rule: process_step.induct) (auto simp: process_inv_def)

lemma process_reach_inv:
  "(process_step parse upload)\<^sup>*\<^sup>* (Start_process n w st) p \<Longrightarrow> process_inv p"
proof (induction rule: rtranclp_induct)
  case base
  show ?case by (simp add: process_inv_def Start_process_def)
qed (rule process_step_inv)

section \<open>Properties\<close>

text \<open>Steps without a cancellation never bring a consumer back.\<close>

lemma process_step_consumers:
  "process_step parse upload p p' \<Longrightarrow> wp_consumers p' \<le> wp_consumers p \<and> (wp_cancelled p \<longrightarrow> wp_cancelled p')"
  by (induction rule: process_step.induct) auto

lemma process_steps_consumers:
  "(process_step parse upload)\<^sup>*\<^sup>* p q \<Longrightarrow> wp_consumers q \<le> wp_consumers p \<and> (wp_cancelled p \<longrightarrow> wp_cancelled q)"
  by (induction rule: rtranclp_induct) (auto dest: process_step_consumers)



text \<open>
  From every reachable state in which the context is cancelled there is a run to the end of \<open>Start\<close> in which no
  request is taken from the channel of the uploads.
\<close>

abbreviation queued_uploads :: "process \<Rightarrow> Event list" where
  "queued_uploads p \<equiv> wk_uploadCh (wp_worker p)"

lemma process_waited:
  assumes "wp_main p = Waiting err" "\<not> wp_flush_loop p" "\<forall>e. wp_upload p \<noteq> Uploading e"
  shows "\<exists>q. (process_step parse upload)\<^sup>*\<^sup>* p q \<and> \<not> running q \<and> queued_uploads q = queued_uploads p"
proof -
  let ?R = "process_step parse upload" and ?p = "(process_flush parse zero_time p)\<lparr>wp_main := Draining err\<rparr>"
  have "?R p ?p" using assms by (intro process_step.main_waited)
  moreover have "?R ?p (?p\<lparr>wp_main := Returned err\<rparr>)" using assms by (intro process_step.main_drained) simp_all
  ultimately have "?R\<^sup>*\<^sup>* p (?p\<lparr>wp_main := Returned err\<rparr>)" by (meson converse_rtranclp_into_rtranclp r_into_rtranclp)
  then show ?thesis by (intro exI [of _ "?p\<lparr>wp_main := Returned err\<rparr>"]) (simp add: running_def)
qed

lemma process_upload_ends:
  assumes "running p"
  shows "\<exists>q. (process_step parse upload)\<^sup>*\<^sup>* p q \<and> (\<forall>e. wp_upload q \<noteq> Uploading e) \<and> wp_main q = wp_main p
    \<and> wp_cancelled q = wp_cancelled p \<and> wp_flush_loop q = wp_flush_loop p \<and> queued_uploads q = queued_uploads p"
proof (cases "\<exists>e. wp_upload p = Uploading e")
  case True
  then obtain e where e: "wp_upload p = Uploading e" ..
  let ?q = "p\<lparr>wp_store := fst (uploadEvent upload zero_time (wp_store p) e), wp_upload := Idle\<rparr>"
  have "process_step parse upload p ?q" by (rule process_step.upload_end [OF assms e])
  note r_into_rtranclp [of "process_step parse upload", OF this]
  then show ?thesis by (intro exI [of _ ?q]) simp
qed auto

lemma process_flush_loop_ends:
  assumes "running p" "wp_cancelled p"
  shows "\<exists>q. (process_step parse upload)\<^sup>*\<^sup>* p q \<and> \<not> wp_flush_loop q \<and> wp_upload q = wp_upload p \<and> wp_main q = wp_main p
    \<and> wp_cancelled q \<and> queued_uploads q = queued_uploads p"
proof (cases "wp_flush_loop p")
  case True
  let ?q = "(process_flush parse zero_time p)\<lparr>wp_flush_loop := False\<rparr>"
  have "process_step parse upload p ?q" by (rule process_step.flush_loop_ends [OF assms(1) True assms(2)])
  note r_into_rtranclp [of "process_step parse upload", OF this]
  then show ?thesis using assms(2) by (intro exI [of _ ?q]) simp
qed (use assms in auto)

lemma shutdown_run:
  assumes "(process_step parse upload)\<^sup>*\<^sup>* (Start_process workerCount w st) p" and "wp_cancelled p"
  shows "\<exists>q. (process_step parse upload)\<^sup>*\<^sup>* p q \<and> \<not> running q \<and> queued_uploads q = queued_uploads p"
proof (cases "running p")
  case True
  let ?R = "process_step parse upload"
  obtain p1 where p1: "?R\<^sup>*\<^sup>* p p1" "\<forall>e. wp_upload p1 \<noteq> Uploading e" "wp_main p1 = wp_main p" "wp_cancelled p1"
    "queued_uploads p1 = queued_uploads p"
    using process_upload_ends [OF True] assms(2) by metis
  moreover from this have "running p1" using True by (simp add: running_def)
  ultimately obtain p2 where p2: "?R\<^sup>*\<^sup>* p p2" "\<not> wp_flush_loop p2" "\<forall>e. wp_upload p2 \<noteq> Uploading e" "wp_main p2 = wp_main p"
    "wp_cancelled p2" "queued_uploads p2 = queued_uploads p"
    using process_flush_loop_ends [of p1 parse upload] by (metis rtranclp_trans)
  have "\<exists>q. ?R\<^sup>*\<^sup>* p2 q \<and> \<not> running q \<and> queued_uploads q = queued_uploads p2"
  proof (cases "wp_main p2")
    case Selecting
    have "?R p2 (p2\<lparr>wp_main := Waiting None\<rparr>)" by (rule process_step.main_cancelled [OF Selecting p2(5)])
    moreover obtain q where "?R\<^sup>*\<^sup>* (p2\<lparr>wp_main := Waiting None\<rparr>) q" "\<not> running q" "queued_uploads q = queued_uploads p2"
      using process_waited [of "p2\<lparr>wp_main := Waiting None\<rparr>" None parse upload] p2(2,3) by auto
    ultimately show ?thesis by (meson converse_rtranclp_into_rtranclp)
  next
    case (Waiting err)
    then show ?thesis using process_waited p2(2,3) by blast
  next
    case (Draining err)
    have "?R p2 (p2\<lparr>wp_main := Returned err\<rparr>)" by (rule process_step.main_drained [OF Draining p2(3)])
    then show ?thesis by (intro exI [of _ "p2\<lparr>wp_main := Returned err\<rparr>"]) (auto simp: running_def)
  next
    case (Returned err)
    then show ?thesis using p2(4) True by (simp add: running_def)
  qed
  with p2(1,6) show ?thesis by (metis rtranclp_trans)
qed blast

text \<open>
  C29: The shutdown cannot get stuck: from every reachable state in which the context is cancelled, whatever
  insertions and uploads fail, there is a run to the end of \<open>Start\<close>.
\<close>

theorem shutdown_can_finish:
  assumes "(process_step parse upload)\<^sup>*\<^sup>* (Start_process workerCount w st) p" and "wp_cancelled p"
  shows "\<exists>q. (process_step parse upload)\<^sup>*\<^sup>* p q \<and> \<not> running q"
  using shutdown_run [OF assms] by blast

theorem shutdown_can_finish_witness:
  "\<exists>p q :: process. wp_cancelled p \<and> (process_step Some Upload)\<^sup>*\<^sup>* p q \<and> \<not> running q"
proof -
  let ?R = "process_step Some Upload" and ?w = "new_worker (NewBatchWriter 0 0)" and ?st = "(empty_bucket, sample_store)"
  let ?p = "(Start_process 1 ?w ?st)\<lparr>wp_cancelled := True\<rparr>"
  have "?R (Start_process 1 ?w ?st) ?p"
    by (rule process_step.cancel) (simp add: running_def Start_process_def)
  note r_into_rtranclp [of ?R, OF this]
  from shutdown_can_finish [OF this] obtain q where "?R\<^sup>*\<^sup>* ?p q" "\<not> running q" by auto
  then show ?thesis by (intro exI [of _ ?p] exI [of _ q]) simp
qed

text \<open>
  The wait for the uploads does not cover the channel: a text that is queued when the context is cancelled can
  still be queued when \<open>Start\<close> has returned, and is lost with the process.
\<close>

lemma shutdown_loses_uploads:
  assumes "(process_step parse upload)\<^sup>*\<^sup>* (Start_process workerCount w st) p" and "wp_cancelled p"
    and "e \<in> set (queued_uploads p)"
  shows "\<exists>q. (process_step parse upload)\<^sup>*\<^sup>* (Start_process workerCount w st) q \<and> \<not> running q \<and> e \<in> set (queued_uploads q)"
  using shutdown_run [OF assms(1,2)] assms(1,3) by (metis rtranclp_trans)

end
