(* ===== verification/Dash_Body.thy ===== *)
theory Dash_Body
  imports Dash_Router Ingest_Body
begin

text \<open>
  The bodies of the requests to the dashboard (package \<open>handlers\<close>): \<open>json.NewDecoder(r.Body).Decode\<close> of
  the three request types. The dashboard has no limit on the size of a body.
\<close>

section \<open>Decoding\<close>

definition decode_bool :: "jval \<Rightarrow> bool \<Rightarrow> bool option" where
  "decode_bool v old = (case v of VNull \<Rightarrow> Some old | VBool b \<Rightarrow> Some b | _ \<Rightarrow> None)"

text \<open>A stream without a limit is read to its end.\<close>

definition decode_body :: "string list \<Rightarrow> (string \<Rightarrow> jval \<Rightarrow> 'a \<Rightarrow> 'a option) \<Rightarrow> 'a \<Rightarrow> string \<Rightarrow> 'a option" where
  "decode_body names set_field z data =
     (case decode_stream (length data) data of None \<Rightarrow> None | Some v \<Rightarrow> decode_object names set_field v z)"

definition set_oauth :: "string \<Rightarrow> jval \<Rightarrow> oauthCallbackRequest \<Rightarrow> oauthCallbackRequest option" where
  "set_oauth f v x =
     (if f = ''provider'' then map_option (\<lambda>s. x\<lparr>oa_Provider := s\<rparr>) (decode_string v (oa_Provider x))
      else if f = ''email'' then map_option (\<lambda>s. x\<lparr>oa_Email := s\<rparr>) (decode_string v (oa_Email x))
      else if f = ''name'' then map_option (\<lambda>s. x\<lparr>oa_Name := s\<rparr>) (decode_string v (oa_Name x))
      else if f = ''avatar_url'' then map_option (\<lambda>s. x\<lparr>oa_AvatarURL := s\<rparr>) (decode_string v (oa_AvatarURL x))
      else None)"

definition decode_oauth :: "string \<Rightarrow> oauthCallbackRequest option" where
  "decode_oauth =
     decode_body [''provider'', ''email'', ''name'', ''avatar_url''] set_oauth
       \<lparr>oa_Provider = [], oa_Email = [], oa_Name = [], oa_AvatarURL = []\<rparr>"

definition set_createKey :: "string \<Rightarrow> jval \<Rightarrow> createAPIKeyRequest \<Rightarrow> createAPIKeyRequest option" where
  "set_createKey f v x =
     (if f = ''name'' then map_option (\<lambda>s. x\<lparr>ca_ReqName := s\<rparr>) (decode_string v (ca_ReqName x))
      else if f = ''type'' then map_option (\<lambda>s. x\<lparr>ca_ReqType := s\<rparr>) (decode_string v (ca_ReqType x))
      else if f = ''project_id''
      then map_option (\<lambda>p. x\<lparr>ca_ReqProjectID := p\<rparr>) (decode_pointer decode_string [] v (ca_ReqProjectID x))
      else None)"

definition decode_createKey :: "string \<Rightarrow> createAPIKeyRequest option" where
  "decode_createKey =
     decode_body [''name'', ''type'', ''project_id''] set_createKey
       \<lparr>ca_ReqName = [], ca_ReqType = [], ca_ReqProjectID = None\<rparr>"

definition set_updateOrg :: "string \<Rightarrow> jval \<Rightarrow> updateOrgRequest \<Rightarrow> updateOrgRequest option" where
  "set_updateOrg f v x =
     (if f = ''name'' then map_option (\<lambda>p. x\<lparr>up_Name := p\<rparr>) (decode_pointer decode_string [] v (up_Name x))
      else if f = ''timezone''
      then map_option (\<lambda>p. x\<lparr>up_Timezone := p\<rparr>) (decode_pointer decode_string [] v (up_Timezone x))
      else if f = ''pii_enabled''
      then map_option (\<lambda>p. x\<lparr>up_PIIEnabled := p\<rparr>) (decode_pointer decode_bool False v (up_PIIEnabled x))
      else if f = ''slack_webhook_url''
      then map_option (\<lambda>p. x\<lparr>up_SlackWebhookURL := p\<rparr>) (decode_pointer decode_string [] v (up_SlackWebhookURL x))
      else None)"

definition decode_updateOrg :: "string \<Rightarrow> updateOrgRequest option" where
  "decode_updateOrg =
     decode_body [''name'', ''timezone'', ''pii_enabled'', ''slack_webhook_url''] set_updateOrg
       \<lparr>up_Name = None, up_Timezone = None, up_PIIEnabled = None, up_SlackWebhookURL = None\<rparr>"

text \<open>The input of the server that receives a body: every handler decodes what it expects.\<close>

definition with_body :: "string \<Rightarrow> dash_input \<Rightarrow> dash_input" where
  "with_body data i =
     i\<lparr>di_oauth := decode_oauth data, di_createKey := decode_createKey data, di_updateOrg := decode_updateOrg data\<rparr>"

section \<open>What is written is read\<close>

lemma decode_body_print:
  assumes "\<forall>(k, v) \<in> set ms. plain_key k \<and> value_ok v \<and> depth_ok 1 v"
  shows "decode_body names set_field z (print_value (VObj ms)) = decode_members names set_field ms z"
proof -
  have "value_ok (VObj ms)" "depth_ok 4 (VObj ms)" "\<not> scalar (VObj ms)"
    using assms plain_key_read(2) depth_ok_mono [of 1 _ 3]
    by (auto simp: eval_nat_numeral scalar_def intro: depth_ok_mono)
  from decode_stream_print [OF this, of "length (print_value (VObj ms))"] show ?thesis
    by (simp add: decode_body_def decode_object_def)
qed

definition omit_text :: "string \<Rightarrow> string option \<Rightarrow> (string \<times> jval) list" where
  "omit_text k p = (case p of None \<Rightarrow> [] | Some s \<Rightarrow> [(k, json_string s)])"

lemma name_fields:
  "plain_key ''name''" "plain_key ''type''" "plain_key ''project_id''" "plain_key ''timezone''" "plain_key ''pii_enabled''"
  by (simp_all add: plain_key_def)

lemma text_pointer_written:
  "valid_utf8 s \<Longrightarrow> decode_pointer decode_string [] (json_string s) old = Some (Some s)"
  by (simp add: decode_pointer_def json_facts to_valid_ok) (simp add: json_string_def)

lemma createKey_read:
  assumes "valid_utf8 n" "valid_utf8 t" "pred_option valid_utf8 p"
  shows "decode_createKey (print_value (VObj ([(''name'', json_string n), (''type'', json_string t)] @ omit_text ''project_id'' p)))
    = Some \<lparr>ca_ReqName = n, ca_ReqType = t, ca_ReqProjectID = p\<rparr>"
proof -
  let ?ms = "[(''name'', json_string n), (''type'', json_string t)] @ omit_text ''project_id'' p"
  have "\<forall>(k, v) \<in> set ?ms. plain_key k \<and> value_ok v \<and> depth_ok 1 v"
    by (cases p) (simp_all add: omit_text_def json_facts name_fields)
  note h = decode_body_print [OF this]
  have "decode_members [''name'', ''type'', ''project_id''] set_createKey ?ms
      \<lparr>ca_ReqName = [], ca_ReqType = [], ca_ReqProjectID = None\<rparr> = Some \<lparr>ca_ReqName = n, ca_ReqType = t, ca_ReqProjectID = p\<rparr>"
    using assms
    by (cases p) (simp_all add: omit_text_def decode_members_field name_fields set_createKey_def json_facts to_valid_ok
        text_pointer_written del: decode_members.simps(2))
  then show ?thesis unfolding decode_createKey_def by (simp only: h)
qed

lemma bool_pointer_written: "decode_pointer decode_bool z (VBool b) old = Some (Some b)"
  by (simp add: decode_pointer_def decode_bool_def)

text \<open>A setting that is left out of the body is not changed; one that is given is.\<close>

lemma updateOrg_read:
  assumes "pred_option valid_utf8 n" "pred_option valid_utf8 z"
  shows "decode_updateOrg (print_value (VObj (omit_text ''name'' n @ omit_text ''timezone'' z
      @ (case b of None \<Rightarrow> [] | Some b \<Rightarrow> [(''pii_enabled'', VBool b)]))))
    = Some \<lparr>up_Name = n, up_Timezone = z, up_PIIEnabled = b, up_SlackWebhookURL = None\<rparr>"
proof -
  let ?ms = "omit_text ''name'' n @ omit_text ''timezone'' z @ (case b of None \<Rightarrow> [] | Some b \<Rightarrow> [(''pii_enabled'', VBool b)])"
  have "\<forall>(k, v) \<in> set ?ms. plain_key k \<and> value_ok v \<and> depth_ok 1 v"
    by (cases n; cases z; cases b) (simp_all add: omit_text_def json_facts name_fields)
  note h = decode_body_print [OF this]
  have "decode_members [''name'', ''timezone'', ''pii_enabled'', ''slack_webhook_url''] set_updateOrg ?ms
      \<lparr>up_Name = None, up_Timezone = None, up_PIIEnabled = None, up_SlackWebhookURL = None\<rparr>
    = Some \<lparr>up_Name = n, up_Timezone = z, up_PIIEnabled = b, up_SlackWebhookURL = None\<rparr>"
    using assms
    by (cases n; cases z; cases b) (simp_all add: omit_text_def decode_members_field name_fields set_updateOrg_def
        text_pointer_written bool_pointer_written del: decode_members.simps(2))
  then show ?thesis unfolding decode_updateOrg_def by (simp only: h)
qed

end
