(* ===== verification/Server_Run.thy ===== *)
theory Server_Run
  imports Dash_Body
begin

text \<open>
  The two API servers as processes: the logging and recovery middleware of both (\<open>internal/ingestion\<close> and
  \<open>internal/middleware\<close>), the whole handler chains, and the life of \<open>main\<close> from opening the port to the end of
  the shutdown (\<open>cmd/ingestion\<close>, \<open>cmd/dashboard\<close>).
\<close>

section \<open>Logging and panics\<close>

text \<open>
  What the handlers share besides the stores: the log, and the value of a panic that unwinds. A handler
  writes its status and body in its last call, so a handler that panics has written neither.
\<close>

datatype log_entry =
    Request_logged string string int int string
  | Panic_logged string

record 's serving =
  sv_state :: 's
  sv_log :: "log_entry list"
  sv_panic :: "string option"

text \<open>A handler of the model, with a parameter that says on which requests the code panics.\<close>

definition crashing :: "('s \<Rightarrow> request \<Rightarrow> string option) \<Rightarrow> 's handler \<Rightarrow> 's serving handler" where
  "crashing crash h sv r w =
     (case crash (sv_state sv) r of
        Some v \<Rightarrow> (sv\<lparr>sv_panic := Some v\<rparr>, w)
      | None \<Rightarrow> (case h (sv_state sv) r w of (st, w) \<Rightarrow> (sv\<lparr>sv_state := st\<rparr>, w)))"

abbreviation millisecond :: int where "millisecond \<equiv> 1000000"

definition LoggerMiddleware :: "gotime \<Rightarrow> gotime \<Rightarrow> 's serving handler \<Rightarrow> 's serving handler" where
  "LoggerMiddleware start stop next_h sv r w =
     (case next_h sv r w of (sv, w) \<Rightarrow>
        if sv_panic sv \<noteq> None then (sv, w)
        else (sv\<lparr>sv_log := sv_log sv @ [Request_logged (rq_Method r) (rq_Path r) (rs_Status w)
                (Sub stop start div millisecond) (RequestIDFromContext (rq_Ctx r))]\<rparr>, w))"

definition RecoveryMiddleware :: "gotime \<Rightarrow> 's serving handler \<Rightarrow> 's serving handler" where
  "RecoveryMiddleware now next_h sv r w =
     (case next_h sv r w of (sv, w) \<Rightarrow>
        (case sv_panic sv of
           None \<Rightarrow> (sv, w)
         | Some rec \<Rightarrow>
             (sv\<lparr>sv_panic := None, sv_log := sv_log sv @ [Panic_logged rec]\<rparr>,
              writeError now 500 ''INTERNAL_ERROR'' ''Internal server error'' None w)))"

text \<open>The same in package \<open>middleware\<close>.\<close>

definition mw_LoggerMiddleware :: "gotime \<Rightarrow> gotime \<Rightarrow> 's serving handler \<Rightarrow> 's serving handler" where
  "mw_LoggerMiddleware start stop next_h sv r w =
     (case next_h sv r w of (sv, w) \<Rightarrow>
        if sv_panic sv \<noteq> None then (sv, w)
        else (sv\<lparr>sv_log := sv_log sv @ [Request_logged (rq_Method r) (rq_Path r) (rs_Status w)
                (Sub stop start div millisecond) (mw_RequestIDFromContext (rq_Ctx r))]\<rparr>, w))"

definition mw_RecoveryMiddleware :: "gotime \<Rightarrow> 's serving handler \<Rightarrow> 's serving handler" where
  "mw_RecoveryMiddleware now next_h sv r w =
     (case next_h sv r w of (sv, w) \<Rightarrow>
        (case sv_panic sv of
           None \<Rightarrow> (sv, w)
         | Some rec \<Rightarrow>
             (sv\<lparr>sv_panic := None, sv_log := sv_log sv @ [Panic_logged rec]\<rparr>,
              WriteError now 500 ''INTERNAL_ERROR'' ''Internal server error'' None w)))"

section \<open>The whole handler chains\<close>

text \<open>\<open>NewServer\<close> of the ingestion API, for a body in its bytes.\<close>

definition ingestion_mux :: "gotime \<Rightarrow> string \<Rightarrow> ingest handler" where
  "ingestion_mux now data =
     ServeMux
       [(Some ''GET'', ''/health'', \<lambda>_. HandleHealth),
        (None, ''/v1/'', \<lambda>_. authedHandler now (decode_event data) (decode_batch data))]"

definition ingestion_chain ::
    "(ingest \<Rightarrow> request \<Rightarrow> string option) \<Rightarrow> gotime \<Rightarrow> gotime \<Rightarrow> u8 list \<Rightarrow> string \<Rightarrow> ingest serving handler" where
  "ingestion_chain crash now stop b data =
     RecoveryMiddleware now
       (RequestIDMiddleware b (LoggerMiddleware now stop (crashing crash (ingestion_mux now data))))"

definition dashboard_chain ::
    "(dashboard \<Rightarrow> request \<Rightarrow> string option) \<Rightarrow> ServerConfig \<Rightarrow> gotime \<Rightarrow> dash_input \<Rightarrow> string \<Rightarrow> dashboard serving handler" where
  "dashboard_chain crash cfg stop i data =
     mw_RecoveryMiddleware (di_now i)
       (CORSMiddleware (sc_CORSOrigins cfg)
         (mw_RequestIDMiddleware (di_reqid i)
           (mw_LoggerMiddleware (di_now i) stop (crashing crash (NewRouter cfg (with_body data i))))))"

text \<open>Without a panic the chains answer as the servers without logging do, and log the request.\<close>

lemma ingestion_chain_runs:
  assumes "sv_panic sv = None" "crash (sv_state sv) (r\<lparr>rq_Ctx := (rq_Ctx r)\<lparr>ctx_RequestID := Some (generateRequestID b)\<rparr>\<rparr>) = None"
    and "NewServer now b (decode_event data) (decode_batch data) (sv_state sv) r w = (st', w')"
  shows "ingestion_chain crash now stop b data sv r w =
    (sv\<lparr>sv_state := st', sv_log := sv_log sv @ [Request_logged (rq_Method r) (rq_Path r) (rs_Status w')
          (Sub stop now div millisecond) (generateRequestID b)]\<rparr>, w')"
  using assms
  by (simp add: ingestion_chain_def RecoveryMiddleware_def RequestIDMiddleware_def LoggerMiddleware_def crashing_def
      ingestion_mux_def NewServer_def RequestIDFromContext_def Let_def)

lemma with_body_simps [simp]: "di_reqid (with_body data i) = di_reqid i" "di_now (with_body data i) = di_now i"
  by (simp_all add: with_body_def)

lemma dashboard_chain_runs:
  assumes "sv_panic sv = None" "rq_Method r \<noteq> ''OPTIONS''"
    and "crash (sv_state sv) (r\<lparr>rq_Ctx := (rq_Ctx r)\<lparr>ctx_RequestID := Some (mw_generateRequestID (di_reqid i))\<rparr>\<rparr>) = None"
    and "NewDashServer cfg (with_body data i) (sv_state sv) r w = (st', w')"
  shows "dashboard_chain crash cfg stop i data sv r w =
    (sv\<lparr>sv_state := st', sv_log := sv_log sv @ [Request_logged (rq_Method r) (rq_Path r) (rs_Status w')
          (Sub stop (di_now i) div millisecond) (mw_generateRequestID (di_reqid i))]\<rparr>, w')"
  using assms
  by (simp add: dashboard_chain_def mw_RecoveryMiddleware_def mw_RequestIDMiddleware_def mw_LoggerMiddleware_def
      crashing_def NewDashServer_def CORSMiddleware_def mw_RequestIDFromContext_def Let_def)

text \<open>A panic never leaves the server: the answer is 500, and the stores are as they were.\<close>

lemma ingestion_chain_recovers:
  assumes "sv_panic sv = None"
  shows "sv_panic (fst (ingestion_chain crash now stop b data sv r w)) = None"
  using assms
  by (simp add: ingestion_chain_def RecoveryMiddleware_def case_prod_unfold split: option.split)

lemma ingestion_chain_panics:
  assumes "sv_panic sv = None" "crash (sv_state sv) (r\<lparr>rq_Ctx := (rq_Ctx r)\<lparr>ctx_RequestID := Some (generateRequestID b)\<rparr>\<rparr>) = Some v"
  shows "fst (ingestion_chain crash now stop b data sv r w) = sv\<lparr>sv_log := sv_log sv @ [Panic_logged v]\<rparr>"
    "rs_Status (snd (ingestion_chain crash now stop b data sv r w)) = 500"
  using assms
  by (simp_all add: ingestion_chain_def RecoveryMiddleware_def RequestIDMiddleware_def LoggerMiddleware_def crashing_def Let_def)

section \<open>The life of a server\<close>

text \<open>
  \<open>main\<close> starts a goroutine that opens the port and serves, waits for a signal, and then shuts the server
  down: \<open>http.Server.Shutdown\<close> closes the port and waits for the requests in progress, ten seconds at most.
  A request that arrives is answered by one of the handler chains \<open>served\<close>.
\<close>

datatype listener = Unopened | Listening | Closed

datatype stop_phase = Awaiting | Stopping gotime | Exited "string option"

record 's api_process =
  ap_serving :: "'s serving"
  ap_listener :: listener
  ap_accepted :: "request list"
  ap_inflight :: "request list"
  ap_answers :: "(request \<times> response) list"
  ap_errors :: "string list"
  ap_main :: stop_phase

definition start_process :: "'s \<Rightarrow> 's api_process" where
  "start_process st =
     \<lparr>ap_serving = \<lparr>sv_state = st, sv_log = [], sv_panic = None\<rparr>, ap_listener = Unopened, ap_accepted = [],
      ap_inflight = [], ap_answers = [], ap_errors = [], ap_main = Awaiting\<rparr>"

definition shutdown_timeout :: int where "shutdown_timeout = 10 * second"

inductive api_step :: "'s serving handler set \<Rightarrow> 's api_process \<Rightarrow> 's api_process \<Rightarrow> bool" for served where
  opens: "ap_listener p = Unopened \<Longrightarrow> ap_main p = Awaiting \<Longrightarrow>
     api_step served p (p\<lparr>ap_listener := Listening\<rparr>)"
| open_fails: "ap_listener p = Unopened \<Longrightarrow> (\<forall>e. ap_main p \<noteq> Exited e) \<Longrightarrow>
     api_step served p (p\<lparr>ap_listener := Closed, ap_errors := ap_errors p @ [err]\<rparr>)"
| arrive: "ap_listener p = Listening \<Longrightarrow>
     api_step served p (p\<lparr>ap_accepted := ap_accepted p @ [r], ap_inflight := ap_inflight p @ [r]\<rparr>)"
| answer: "ap_inflight p = rs @ r # rs' \<Longrightarrow> (\<forall>e. ap_main p \<noteq> Exited e) \<Longrightarrow> h \<in> served \<Longrightarrow>
     h (ap_serving p) r fresh_response = (sv, w) \<Longrightarrow>
     api_step served p (p\<lparr>ap_serving := sv, ap_inflight := rs @ rs', ap_answers := ap_answers p @ [(r, w)]\<rparr>)"
| signal: "ap_main p = Awaiting \<Longrightarrow>
     api_step served p
       (p\<lparr>ap_main := Stopping now, ap_listener := Closed,
         ap_errors := (if ap_listener p = Listening then ap_errors p @ [''http: Server closed''] else ap_errors p)\<rparr>)"
| drained: "ap_main p = Stopping t \<Longrightarrow> ap_inflight p = [] \<Longrightarrow>
     api_step served p (p\<lparr>ap_main := Exited None\<rparr>)"
| expired: "ap_main p = Stopping t \<Longrightarrow> shutdown_timeout \<le> Sub now t \<Longrightarrow>
     api_step served p (p\<lparr>ap_main := Exited (Some ''context deadline exceeded'')\<rparr>)"

text \<open>
  Every request that was accepted is in progress or answered; a server that is not listening while \<open>main\<close>
  waits has never listened.
\<close>

definition api_inv :: "'s api_process \<Rightarrow> bool" where
  "api_inv p \<longleftrightarrow>
     mset (ap_accepted p) = mset (ap_inflight p) + mset (map fst (ap_answers p))
     \<and> (ap_main p = Awaiting \<and> ap_listener p \<noteq> Listening \<longrightarrow> ap_accepted p = [])
     \<and> (ap_main p = Exited None \<longrightarrow> ap_inflight p = [])
     \<and> (ap_main p \<noteq> Awaiting \<longrightarrow> ap_listener p \<noteq> Listening)"

lemma api_step_inv: "api_step served p p' \<Longrightarrow> api_inv p \<Longrightarrow> api_inv p'"
  by (induction rule: api_step.induct) (auto simp: api_inv_def)

lemma api_reach_inv: "(api_step served)\<^sup>*\<^sup>* (start_process st) p \<Longrightarrow> api_inv p"
proof (induction rule: rtranclp_induct)
  case base
  show ?case by (simp add: api_inv_def start_process_def)
qed (rule api_step_inv)

text \<open>A shutdown without an error has answered every request that the server ever accepted.\<close>

lemma graceful_exit_answers_all:
  assumes "(api_step served)\<^sup>*\<^sup>* (start_process st) p" "ap_main p = Exited None"
  shows "mset (map fst (ap_answers p)) = mset (ap_accepted p)"
  using api_reach_inv [OF assms(1)] assms(2) by (simp add: api_inv_def)

text \<open>
  A server that could not open its port logs the error and stays: until it gets a signal it neither exits
  nor ever serves a request.
\<close>

lemma awaiting_step:
  "api_step served p q \<Longrightarrow> ap_main q = Awaiting \<Longrightarrow> ap_main p = Awaiting \<and> (ap_listener p = Closed \<longrightarrow> ap_listener q = Closed)"
  by (induction rule: api_step.induct) auto

lemma deaf_server_stays:
  assumes "(api_step served)\<^sup>*\<^sup>* (start_process st) p" "ap_listener p = Closed"
    and "(api_step served)\<^sup>*\<^sup>* p q" "ap_main q = Awaiting"
  shows "ap_listener q = Closed \<and> ap_accepted q = [] \<and> ap_answers q = []"
proof -
  have "ap_listener q = Closed"
    using assms(3,4) by (induction rule: rtranclp_induct) (use assms(2) awaiting_step in blast)+
  with api_reach_inv [OF rtranclp_trans [OF assms(1,3)]] assms(4) show ?thesis by (auto simp: api_inv_def)
qed

end
