(* ===== verification/Spec2Isabelle.thy ===== *)
theory Spec2Isabelle
  imports Key_Revocation Pipeline Click_Queries Dash_Limits Seed_Events Traffic Config Auth_JSON
    Worker_Shutdown Server_Run Startup
begin

text \<open>
  Promptmeter: a verification library for the server (\<open>src/server\<close>, written in Go).

  The program. Promptmeter meters calls of language models. The ingestion API (\<open>cmd/ingestion\<close>)
  authenticates clients by API key, limits their rate, validates events and queues them in NATS.
  The worker (\<open>cmd/worker\<close>) takes events from the queue, prices them, collects them in batches that
  it inserts into ClickHouse, and moves their texts to an object store. The dashboard API
  (\<open>cmd/dashboard\<close>) signs users in, manages their keys and settings in PostgreSQL, and answers
  cost queries from ClickHouse through a cache in Redis. The three processes share the stores, never
  memory. Two tools make demonstration data: \<open>cmd/seed\<close> fills the stores with generated events, and
  \<open>cmd/trafficgen\<close> sends generated events to the ingestion API for as long as it runs.

  How the model is built. A Go function is a HOL function with the same name. Mutable state is passed
  and returned; an error is the left part of a sum; integers of 32 and 64 bits are words, so they wrap
  around; \<open>float64\<close> is the set of rationals with the rounding of every operation written out; strings
  are byte strings. The clock, random bytes and the time zone database are arguments.
  The stores are not in the repository: each is a small relational or key-value machine whose failures
  are an arbitrary schedule in its state, so that a theorem without a hypothesis on the schedule holds
  for every pattern of failures. The JSON that the server writes for itself, the events of the queue and
  the claims of a session, is text, and so is the body of a request: a handler takes what
  \<open>decode_event\<close>, \<open>decode_batch\<close> (\<open>Ingest_Body\<close>) or the decoders of \<open>Dash_Body\<close> make of its bytes. The body of an answer is a
  value of type \<open>json\<close>, and compression is a parameter. The broker NATS is a log of publications, and which of
  its messages it delivers to a worker, and how often, is a parameter. Random numbers come from an arbitrary stream, the functions
  \<open>exp\<close>, \<open>log\<close> and \<open>sqrt\<close> from the parameter \<open>libm\<close>; a theorem about generated data holds for all of
  them.

  Theories, bottom up, with the files they model.
  \<^item> \<open>PM_Prelude\<close>, \<open>Go_Time\<close>, \<open>Go_Float\<close>, \<open>Go_UTF8\<close>, \<open>Go_Crypto\<close>, \<open>Go_HTTP\<close>: what the code uses of
    the Go library. SHA-256, HMAC and base64 are written out; so are the calendar, RFC 3339 times,
    runes, and the router \<open>http.ServeMux\<close>.
  \<^item> \<open>Go_Encode\<close>, \<open>Go_JSON\<close>: the text of runes, and \<open>encoding/json\<close>: escapes, numbers, the scanner, and
    the decoding of objects into structures. \<open>Wire\<close> (\<open>internal/proto/eventsv1\<close>) is \<open>Marshal\<close> and \<open>Unmarshal\<close>
    of an event, \<open>Auth_JSON\<close> the form of the claims, \<open>Ingest_Wire\<close> what the queue does to an event that
    the API has built. \<open>Go_Valid\<close>: what is encoded or decoded is UTF-8.
  \<^item> \<open>Ingest_Body\<close>, \<open>Dash_Body\<close>: the bodies of requests, as \<open>json.Decoder\<close> reads them, for the ingestion API behind
    the limit of \<open>BodySizeLimitMiddleware\<close> (5 MB).
  \<^item> \<open>Domain\<close> (\<open>internal/domain\<close>): events, keys, organisations; object keys and numeric ids.
  \<^item> \<open>Auth\<close> (\<open>internal/auth\<close>): API keys, session tokens (JWT) and refresh tokens.
  \<^item> \<open>Ingest_Validation\<close>, \<open>Ingest_Handler\<close>, \<open>Ingest_Middleware\<close> (\<open>internal/ingestion\<close>): the ingestion
    API from the outermost middleware to the queue. \<open>Queue\<close> (\<open>internal/nats\<close>, \<open>internal/proto\<close>): what
    is queued. The locale \<open>event_publisher\<close> is the contract between the two.
  \<^item> \<open>Redis_Store\<close>, \<open>Postgres_Store\<close>, \<open>Click_Store\<close>, \<open>Click_Queries\<close> (\<open>internal/storage\<close>): every
    operation of the three stores, with the tables, constraints and materialized views of the
    migrations. \<open>Pg_Steps\<close> turns the operations of PostgreSQL into rules that follow the shape of
    handler code (locale \<open>handler_steps\<close>).
  \<^item> \<open>Key_Revocation\<close>: the life of a key across PostgreSQL, Redis and the ingestion API.
  \<^item> \<open>Worker_Cost\<close>, \<open>Worker_Batch\<close>, \<open>Worker\<close> (\<open>internal/worker\<close>): prices, batches, uploads, and the
    path of an event from the queue to ClickHouse.
    \<open>Pipeline\<close> (\<open>internal/nats/setup.go\<close> and the goroutines of \<open>Worker.Start\<close>): queue, worker and
    stores as one step relation, with redelivery and crashes of the worker. \<open>Worker_Shutdown\<close>: the
    goroutines of \<open>Worker.Start\<close>, one step an action of one of them, until \<open>Start\<close> returns.
  \<^item> \<open>Server_Run\<close> (\<open>internal/ingestion/server.go\<close>, \<open>internal/dashboard/server.go\<close>, and \<open>main\<close> of both): logging and
    recovery from panics around the handlers, and a server from opening its port to the end of its shutdown.
  \<^item> \<open>Config\<close> (\<open>internal/config\<close>, and \<open>main\<close> of \<open>cmd/dashboard\<close>, \<open>cmd/worker\<close> and \<open>cmd/ingestion\<close>): what
    the environment decides, with the integer and duration parsers of the Go library. \<open>Startup\<close>
    (\<open>internal/migrate\<close>, the constructors of \<open>internal/storage\<close>): migrations, connections, the bucket.
  \<^item> \<open>Go_Calendar\<close>, \<open>Go_Random\<close>: calendar dates and their printed form, and the random state monad with
    its rules. \<open>Data_Model\<close>, \<open>Data_Generator\<close> (\<open>internal/datagen\<close>): the distributions, events and
    scenarios of generated data. \<open>Seed\<close>, \<open>Seed_Events\<close> (\<open>cmd/seed\<close>): prices, the demo organisation, and
    the insertion of events. \<open>Traffic\<close> (\<open>cmd/trafficgen\<close>): requests, answers and backoff.
  \<^item> \<open>Dash_Middleware\<close> (\<open>internal/middleware\<close>): sessions, automatic login, rate limits, CORS.
  \<^item> \<open>Dash_Params\<close>, \<open>Dash_Cost\<close>, \<open>Dash_Auth\<close>, \<open>Dash_Keys\<close> (\<open>internal/dashboard/handlers\<close>): the
    handlers of the dashboard. \<open>Dash_Signup\<close>: the bootstrap of \<open>cmd/dashboard/main.go\<close>, and how
    organisations come to be. \<open>Dash_Router\<close> (\<open>internal/dashboard\<close>): the routes and the whole server.
    \<open>Dash_Limits\<close>: the two rate limits of the dashboard.

  What is shown.
  \<^item> No event is lost or acknowledged early between the queue and ClickHouse, however flushes overlap
    or fail; a batch request reports exactly what it has queued; an event reaches the buffer of the
    worker with the values of the request.
  \<^item> From the bytes of a request to the worker: an answer 202 means that the worker reads the event that the
    body says; the body that the traffic generator writes is queued event by event.
  \<^item> What is read back from the JSON of an event or of a session's claims is what was written, for texts
    that are UTF-8; \<open>parse_print\<close> shows this for every value of JSON.
  \<^item> Costs use the newest price in force and are exact up to the rounding of three operations; the
    aggregates agree with the rows.
  \<^item> A key or session decides the organisation of a request, revoked keys live at most five minutes,
    rows of other organisations never change an answer of the dashboard, refresh tokens are single
    use, and every operation of the dashboard keeps the constraints of the database.
  \<^item> A message is acknowledged to the queue only when its event is stored, whatever crashes or fails,
    and any message that is still delivered can be acknowledged once ClickHouse works.
  \<^item> The shutdown of the worker can always finish; that of a server, when it ends without an error, has answered
    every request. A worker without consumers, and a server without a port, stay up until they get a signal.
  \<^item> The seed command loads a price for every model it generates, or fails; its rows are in order, in
    the past and carry the cost that the worker would compute; the data it makes is served by the
    dashboard and its key by the ingestion API, which accepts whole batches of the traffic generator.
  \<^item> Whatever the environment, the worker starts with positive sizes and intervals.
  \<^item> Rate limits bound what is admitted in a window.
  \<^item> The theorems of kind error state the behaviour of the code where it is not what one
    would want: what reconciliation does to texts, how cache keys collide, which clients stay
    blocked, and others; each names the lines at fault in its manifest entry.

  Bounds. No model has fuel. The loops recurse over their lists or queues; the loop of \<open>uintToStr\<close>, the
  parsers of durations, times and JSON (which has the nesting limit of the Go library) and the price
  loading of the seed command have termination proofs.
  Overlapping flushes, deliveries, revocations and requests are step relations with any number of
  steps. Floating-point products and sums are rounded one by one, as without fused multiply-add.

  Not modelled. The client libraries of the stores and of the queue, the migration library, zstd and the sockets
  of \<open>net/http\<close> are parameters; tickers and goroutine start-up (their bodies are steps
  that may run at any time), log lines other than those of requests and panics, the statistics that the tools print, the limits at which
  the stream drops old messages, the text of floating-point numbers (a parameter), the generated protobuf
  code beyond its data, and the SQL of the migrations other than as the tables it creates are left out. No
  panic is known in a handler; which requests panic is a parameter of \<open>Server_Run\<close>. A handler
  runs without interruption; what other processes do between two handlers is covered where a theorem
  lets any sequence of store operations follow.
\<close>

end
